(* ===== verification/Prelude.thy ===== *)
theory Prelude
  imports Complex_Main "HOL-Library.Multiset" "HOL-Library.Word" "HOL-Library.Sublist"
begin

text \<open>
  Shared ground of the development: Go values as HOL values.

  \<^item> A Go string or byte slice is a \<open>string\<close>, a list of 8-bit characters: Go strings are
    byte sequences, so a character outside ASCII is its UTF-8 bytes.
  \<^item> A Go error is its message. A fallible call returns \<open>error + 'a\<close>; a call that can also
    panic (an out-of-range slice) returns an \<open>outcome\<close>.
  \<^item> A Go map is a partial function. A \<open>range\<close> loop over a map visits it in an order Go leaves
    open: such a loop takes the visiting order as a list, and \<open>is_range m r\<close> says that \<open>r\<close> is one.
  \<^item> Times and durations are nanoseconds; \<open>Sub\<close> saturates at the limits of int64.
\<close>

section \<open>Collections of facts\<close>

named_theorems go_str \<open>Go string functions\<close>
named_theorems go_time \<open>Go times and durations\<close>
named_theorems range_simps \<open>ranges over Go maps\<close>

section \<open>Errors and panics\<close>

type_synonym error = string

datatype 'a outcome = Ret 'a | Panic

primrec bind_outcome :: "'a outcome \<Rightarrow> ('a \<Rightarrow> 'b outcome) \<Rightarrow> 'b outcome" where
  "bind_outcome (Ret x) f = f x"
| "bind_outcome Panic f = Panic"

text \<open>The slice expression \<open>s[:n]\<close> panics when \<open>s\<close> is shorter than \<open>n\<close>.\<close>

definition slice_to :: "nat \<Rightarrow> 'a list \<Rightarrow> 'a list outcome" where
  "slice_to n s = (if n \<le> length s then Ret (take n s) else Panic)"

text \<open>A loop that appends the result of a call that may panic.\<close>

fun mapM_outcome :: "('a \<Rightarrow> 'b outcome) \<Rightarrow> 'a list \<Rightarrow> 'b list outcome" where
  "mapM_outcome f [] = Ret []"
| "mapM_outcome f (x # xs) =
     bind_outcome (f x) (\<lambda>y. bind_outcome (mapM_outcome f xs) (\<lambda>ys. Ret (y # ys)))"

lemma bind_outcome_Ret_iff [simp]:
  "bind_outcome m f = Ret y \<longleftrightarrow> (\<exists>x. m = Ret x \<and> f x = Ret y)"
  by (cases m) auto

lemma slice_to_Ret_iff [simp]: "slice_to n s = Ret t \<longleftrightarrow> n \<le> length s \<and> t = take n s"
  by (auto simp: slice_to_def)

lemma mapM_outcome_Ret_iff:
  "mapM_outcome f xs = Ret ys \<longleftrightarrow> list_all2 (\<lambda>x y. f x = Ret y) xs ys"
proof (induction xs arbitrary: ys)
  case Nil
  then show ?case by auto
next
  case (Cons x xs)
  then show ?case by (cases ys) auto
qed

lemma mapM_outcome_map: "(\<And>x. x \<in> set xs \<Longrightarrow> f x = Ret (g x)) \<Longrightarrow> mapM_outcome f xs = Ret (map g xs)"
  by (induction xs) auto

lemma mapM_outcome_Panic: "x \<in> set xs \<Longrightarrow> f x = Panic \<Longrightarrow> mapM_outcome f xs = Panic"
proof (induction xs)
  case Nil
  then show ?case by simp
next
  case (Cons y ys)
  then show ?case by (cases "f y") auto
qed

section \<open>Times and durations\<close>

type_synonym time = int
type_synonym duration = int

definition min_duration :: duration where "min_duration = - (2 ^ 63)"
definition max_duration :: duration where "max_duration = 2 ^ 63 - 1"

text \<open>The zero \<open>time.Time\<close> is 1 January of year 1, in nanoseconds from the Unix epoch.\<close>

definition zero_time :: time where "zero_time = - 62135596800000000000"

definition second :: duration where "second = 1000000000"
definition minute :: duration where "minute = 60 * second"
definition hour :: duration where "hour = 60 * minute"

definition time_sub :: "time \<Rightarrow> time \<Rightarrow> duration" where
  "time_sub t u = max min_duration (min max_duration (t - u))"

lemmas duration_defs [go_time] = min_duration_def max_duration_def second_def minute_def hour_def

lemma time_sub_exact [go_time]:
  "min_duration \<le> t - u \<Longrightarrow> t - u \<le> max_duration \<Longrightarrow> time_sub t u = t - u"
  by (simp add: time_sub_def)

lemma time_sub_same [simp]: "time_sub t t = 0"
  by (simp add: time_sub_def duration_defs)

lemma time_sub_mono: "t \<le> t' \<Longrightarrow> time_sub t u \<le> time_sub t' u"
  by (auto simp: time_sub_def)

lemma time_sub_ge_iff:
  "min_duration < d \<Longrightarrow> d \<le> max_duration \<Longrightarrow> d \<le> time_sub t u \<longleftrightarrow> d \<le> t - u"
  by (auto simp: time_sub_def)

lemma time_sub_gt_iff:
  "min_duration \<le> d \<Longrightarrow> d < max_duration \<Longrightarrow> d < time_sub t u \<longleftrightarrow> d < t - u"
  by (auto simp: time_sub_def)

section \<open>Strings\<close>

text \<open>\<open>strings.HasPrefix\<close>, \<open>strings.TrimPrefix\<close>, \<open>strings.Contains\<close>, \<open>strings.IndexByte\<close>.\<close>

definition has_prefix :: "string \<Rightarrow> string \<Rightarrow> bool" where
  "has_prefix s p \<longleftrightarrow> take (length p) s = p"

definition trim_prefix :: "string \<Rightarrow> string \<Rightarrow> string" where
  "trim_prefix s p = (if has_prefix s p then drop (length p) s else s)"

fun str_contains :: "string \<Rightarrow> string \<Rightarrow> bool" where
  "str_contains [] t = (t = [])"
| "str_contains (c # s) t = (has_prefix (c # s) t \<or> str_contains s t)"

fun index_byte :: "string \<Rightarrow> char \<Rightarrow> nat option" where
  "index_byte [] c = None"
| "index_byte (d # s) c = (if d = c then Some 0 else map_option Suc (index_byte s c))"

text \<open>\<open>strings.Split\<close> on a one-byte separator, \<open>strings.Join\<close>.\<close>

fun split_on :: "char \<Rightarrow> string \<Rightarrow> string list" where
  "split_on c [] = [[]]"
| "split_on c (d # s) =
     (if d = c then [] # split_on c s
      else (case split_on c s of [] \<Rightarrow> [[d]] | w # ws \<Rightarrow> (d # w) # ws))"

fun join :: "string \<Rightarrow> string list \<Rightarrow> string" where
  "join sep [] = []"
| "join sep [w] = w"
| "join sep (w # v # ws) = w @ sep @ join sep (v # ws)"

text \<open>\<open>strings.SplitN(s, c, 2)\<close>: the part before the first separator, and the rest if there is one.\<close>

definition split_first :: "char \<Rightarrow> string \<Rightarrow> string \<times> string option" where
  "split_first c s =
     (case index_byte s c of None \<Rightarrow> (s, None) | Some i \<Rightarrow> (take i s, Some (drop (Suc i) s)))"

lemma has_prefix_append [simp]: "has_prefix (p @ s) p"
  by (simp add: has_prefix_def)

lemma has_prefix_iff [go_str]: "has_prefix s p \<longleftrightarrow> (\<exists>t. s = p @ t)"
  unfolding has_prefix_def by (metis append_eq_conv_conj append_take_drop_id)

lemma trim_prefix_append [simp]: "trim_prefix (p @ s) p = s"
  by (simp add: trim_prefix_def)

lemma str_contains_iff [go_str]: "str_contains s t \<longleftrightarrow> (\<exists>a b. s = a @ t @ b)"
proof (induction s)
  case Nil
  then show ?case by auto
next
  case (Cons c s)
  have "(\<exists>a b. c # s = a @ t @ b) \<longleftrightarrow> (\<exists>b. c # s = t @ b) \<or> (\<exists>a b. s = a @ t @ b)"
    by (metis append_Cons append_Nil list.exhaust list.inject)
  with Cons show ?case by (simp add: has_prefix_iff)
qed

lemma str_contains_mid [simp]: "str_contains (a @ t @ b) t"
  by (auto simp: str_contains_iff)

lemma str_contains_refl [simp]: "str_contains s s"
  by (auto simp: str_contains_iff intro: exI [of _ "[]"])

lemma str_contains_trans: "str_contains s t \<Longrightarrow> str_contains t u \<Longrightarrow> str_contains s u"
  by (auto simp: str_contains_iff) (metis append.assoc)

lemma str_contains_char [simp]: "str_contains s [c] \<longleftrightarrow> c \<in> set s"
  by (auto simp: str_contains_iff in_set_conv_decomp)

lemma index_byte_None [simp]: "index_byte s c = None \<longleftrightarrow> c \<notin> set s"
  by (induction s) auto

lemma index_byte_notin [simp]: "c \<notin> set s \<Longrightarrow> index_byte s c = None"
  by simp

lemma index_byte_Some:
  "index_byte s c = Some i \<longleftrightarrow> i < length s \<and> s ! i = c \<and> c \<notin> set (take i s)"
proof (induction s arbitrary: i)
  case Nil
  then show ?case by simp
next
  case (Cons d s)
  then show ?case by (cases i) auto
qed

lemma split_first_append [simp]: "c \<notin> set k \<Longrightarrow> split_first c (k @ c # v) = (k, Some v)"
proof -
  assume "c \<notin> set k"
  then have "index_byte (k @ c # v) c = Some (length k)"
    by (simp add: index_byte_Some nth_append)
  then show ?thesis by (simp add: split_first_def)
qed

lemma split_first_cases:
  "(c \<notin> set s \<and> split_first c s = (s, None)) \<or>
   (\<exists>k v. s = k @ c # v \<and> c \<notin> set k \<and> split_first c s = (k, Some v))"
proof (cases "c \<in> set s")
  case True
  then obtain k v where "s = k @ c # v" "c \<notin> set k" by (meson split_list_first)
  then show ?thesis by auto
next
  case False
  then have "split_first c s = (s, None)" by (simp add: split_first_def)
  with False show ?thesis by blast
qed

lemma split_on_nonempty [simp]: "split_on c s \<noteq> []"
  by (cases s) (auto split: list.splits)

lemma join_split_on: "join [c] (split_on c s) = s"
proof (induction s)
  case Nil
  then show ?case by simp
next
  case (Cons d s)
  then show ?case
    by (cases "([c], split_on c s)" rule: join.cases) (auto split: list.splits)
qed

lemma split_on_parts: "w \<in> set (split_on c s) \<Longrightarrow> c \<notin> set w"
  by (induction s arbitrary: w) (fastforce split: if_splits list.splits)+

text \<open>
  \<open>strings.TrimSpace\<close> removes the white space of \<open>unicode.IsSpace\<close> at both ends. The list holds
  the UTF-8 encodings of those code points; no encoding is a proper prefix or suffix of another.
\<close>

definition space_encodings :: "string list" where
  "space_encodings =
     [[CHR 0x09], [CHR 0x0A], [CHR 0x0B], [CHR 0x0C], [CHR 0x0D], [CHR 0x20],
      [CHR 0xC2, CHR 0x85], [CHR 0xC2, CHR 0xA0], [CHR 0xE1, CHR 0x9A, CHR 0x80],
      [CHR 0xE2, CHR 0x80, CHR 0x80], [CHR 0xE2, CHR 0x80, CHR 0x81], [CHR 0xE2, CHR 0x80, CHR 0x82],
      [CHR 0xE2, CHR 0x80, CHR 0x83], [CHR 0xE2, CHR 0x80, CHR 0x84], [CHR 0xE2, CHR 0x80, CHR 0x85],
      [CHR 0xE2, CHR 0x80, CHR 0x86], [CHR 0xE2, CHR 0x80, CHR 0x87], [CHR 0xE2, CHR 0x80, CHR 0x88],
      [CHR 0xE2, CHR 0x80, CHR 0x89], [CHR 0xE2, CHR 0x80, CHR 0x8A], [CHR 0xE2, CHR 0x80, CHR 0xA8],
      [CHR 0xE2, CHR 0x80, CHR 0xA9], [CHR 0xE2, CHR 0x80, CHR 0xAF], [CHR 0xE2, CHR 0x81, CHR 0x9F],
      [CHR 0xE3, CHR 0x80, CHR 0x80]]"

function trim_left_by :: "string list \<Rightarrow> string \<Rightarrow> string" where
  "trim_left_by ws s =
     (case List.find (\<lambda>w. w \<noteq> [] \<and> has_prefix s w) ws of
        None \<Rightarrow> s
      | Some w \<Rightarrow> trim_left_by ws (drop (length w) s))"
  by pat_completeness auto
termination
proof (relation "measure (\<lambda>(ws, s). length s)")
  fix ws :: "string list" and s w :: string
  assume "List.find (\<lambda>w. w \<noteq> [] \<and> has_prefix s w) ws = Some w"
  then have "w \<noteq> []" "has_prefix s w" by (auto simp: find_Some_iff)
  then have "length s - length w < length s" by (cases w) (auto simp: has_prefix_iff)
  then show "((ws, drop (length w) s), (ws, s)) \<in> measure (\<lambda>(ws, s). length s)" by simp
qed simp

declare trim_left_by.simps [simp del]

definition trim_space :: "string \<Rightarrow> string" where
  "trim_space s =
     (let t = trim_left_by space_encodings s
      in rev (trim_left_by (map rev space_encodings) (rev t)))"

lemma trim_left_by_suffix: "\<exists>p. s = p @ trim_left_by ws s"
proof (induction ws s rule: trim_left_by.induct)
  case (1 ws s)
  show ?case
  proof (cases "List.find (\<lambda>w. w \<noteq> [] \<and> has_prefix s w) ws")
    case None
    then show ?thesis by (subst trim_left_by.simps) simp
  next
    case (Some w)
    then obtain p where p: "drop (length w) s = p @ trim_left_by ws (drop (length w) s)"
      using 1 by blast
    have "s = w @ drop (length w) s"
      using Some by (auto simp: find_Some_iff has_prefix_iff)
    then have "s = (w @ p) @ trim_left_by ws (drop (length w) s)" using p by simp
    moreover have "trim_left_by ws s = trim_left_by ws (drop (length w) s)"
      using Some by (subst trim_left_by.simps) simp
    ultimately show ?thesis by metis
  qed
qed

lemma trim_space_infix: "\<exists>a b. s = a @ trim_space s @ b"
proof -
  obtain a where a: "s = a @ trim_left_by space_encodings s"
    using trim_left_by_suffix by blast
  let ?t = "trim_left_by space_encodings s"
  obtain q where "rev ?t = q @ trim_left_by (map rev space_encodings) (rev ?t)"
    using trim_left_by_suffix by blast
  then have "rev (rev ?t) = rev (q @ trim_left_by (map rev space_encodings) (rev ?t))"
    by (rule arg_cong)
  then have "?t = trim_space s @ rev q"
    by (simp add: trim_space_def Let_def)
  with a have "s = a @ trim_space s @ rev q" by simp
  then show ?thesis by blast
qed

lemma trim_space_contains: "str_contains s (trim_space s)"
  using trim_space_infix by (simp add: str_contains_iff)

text \<open>
  \<open>strings.ToUpper\<close> and \<open>strings.ToLower\<close> map an ASCII string bytewise and any other string through
  the Unicode tables, which are the parameter \<open>uni\<close>.
\<close>

definition is_ascii :: "string \<Rightarrow> bool" where
  "is_ascii s \<longleftrightarrow> list_all (\<lambda>c. of_char c < (128 :: nat)) s"

definition upper_char :: "char \<Rightarrow> char" where
  "upper_char c = (let n = of_char c :: nat in if 97 \<le> n \<and> n \<le> 122 then char_of (n - 32) else c)"

definition lower_char :: "char \<Rightarrow> char" where
  "lower_char c = (let n = of_char c :: nat in if 65 \<le> n \<and> n \<le> 90 then char_of (n + 32) else c)"

definition to_upper :: "(string \<Rightarrow> string) \<Rightarrow> string \<Rightarrow> string" where
  "to_upper uni s = (if is_ascii s then map upper_char s else uni s)"

definition to_lower :: "(string \<Rightarrow> string) \<Rightarrow> string \<Rightarrow> string" where
  "to_lower uni s = (if is_ascii s then map lower_char s else uni s)"

text \<open>
  The verb \<open>%-ns\<close> pads to a number of characters; in valid UTF-8 every character has one byte that is
  not a continuation byte.
\<close>

definition rune_count :: "string \<Rightarrow> nat" where
  "rune_count s = length (filter (\<lambda>c. \<not> (128 \<le> (of_char c :: nat) \<and> (of_char c :: nat) < 192)) s)"

definition pad_runes :: "nat \<Rightarrow> string \<Rightarrow> string" where
  "pad_runes n s = s @ replicate (n - rune_count s) (CHR '' '')"

section \<open>Printing integers\<close>

text \<open>The verb \<open>%d\<close>.\<close>

definition digit_char :: "nat \<Rightarrow> char" where "digit_char d = char_of (48 + d)"

fun nat_str :: "nat \<Rightarrow> string" where
  "nat_str n = (if n < 10 then [digit_char n] else nat_str (n div 10) @ [digit_char (n mod 10)])"

declare nat_str.simps [simp del]

lemma nat_str_small: "n < 10 \<Longrightarrow> nat_str n = [digit_char n]"
  by (subst nat_str.simps) simp

lemma nat_str_step: "10 \<le> n \<Longrightarrow> nat_str n = nat_str (n div 10) @ [digit_char (n mod 10)]"
  by (subst nat_str.simps) simp

definition int_str :: "int \<Rightarrow> string" where
  "int_str i = (if i < 0 then CHR ''-'' # nat_str (nat (- i)) else nat_str (nat i))"

definition digit_val :: "char \<Rightarrow> nat" where "digit_val c = of_char c - 48"

definition is_digit :: "char \<Rightarrow> bool" where
  "is_digit c \<longleftrightarrow> 48 \<le> (of_char c :: nat) \<and> (of_char c :: nat) \<le> 57"

lemma digit_char_val [simp]: "d < 10 \<Longrightarrow> digit_val (digit_char d) = d"
  by (simp add: digit_val_def digit_char_def of_char_of)

lemma is_digit_digit_char [simp]: "d < 10 \<Longrightarrow> is_digit (digit_char d)"
  by (simp add: is_digit_def digit_char_def of_char_of)

lemma nat_str_nonempty [simp]: "nat_str n \<noteq> []"
  by (subst nat_str.simps) simp

lemma nat_str_digits: "list_all is_digit (nat_str n)"
proof (induction n rule: nat_str.induct)
  case (1 n)
  then show ?case by (subst nat_str.simps) simp
qed

fun digits_val :: "nat \<Rightarrow> string \<Rightarrow> nat" where
  "digits_val acc [] = acc"
| "digits_val acc (c # s) = digits_val (10 * acc + digit_val c) s"

lemma digits_val_append: "digits_val acc (s @ t) = digits_val (digits_val acc s) t"
  by (induction s arbitrary: acc) auto

lemma digits_val_nat_str [simp]: "digits_val 0 (nat_str n) = n"
proof (induction n rule: nat_str.induct)
  case (1 n)
  then show ?case by (subst nat_str.simps) (simp add: digits_val_append)
qed

section \<open>Ranges over maps\<close>

definition is_range :: "('k \<rightharpoonup> 'v) \<Rightarrow> ('k \<times> 'v) list \<Rightarrow> bool" where
  "is_range m r \<longleftrightarrow> distinct (map fst r) \<and> map_of r = m"

lemma is_range_distinct: "is_range m r \<Longrightarrow> distinct (map fst r)"
  by (simp add: is_range_def)

lemma is_range_mem [range_simps]: "is_range m r \<Longrightarrow> (k, v) \<in> set r \<longleftrightarrow> m k = Some v"
  by (auto simp: is_range_def)

lemma is_range_dom [range_simps]: "is_range m r \<Longrightarrow> fst ` set r = dom m"
  by (metis is_range_def dom_map_of_conv_image_fst)

lemma is_range_length: "is_range m r \<Longrightarrow> length r = card (dom m)"
  by (metis distinct_card is_range_def is_range_dom length_map set_map)

lemma is_range_map_of: "distinct (map fst r) \<Longrightarrow> is_range (map_of r) r"
  by (simp add: is_range_def)

lemma is_range_mset: "is_range m r \<Longrightarrow> is_range m r' \<Longrightarrow> mset r = mset r'"
proof -
  assume r: "is_range m r" and r': "is_range m r'"
  then have "set r = set r'" by (auto simp: is_range_def map_of_inject_set)
  moreover have "distinct r" "distinct r'"
    using r r' by (auto simp: is_range_def distinct_map)
  ultimately show ?thesis by (simp add: set_eq_iff_mset_eq_distinct)
qed

lemma is_range_Nil [simp]: "is_range m [] \<longleftrightarrow> m = Map.empty"
  by (auto simp: is_range_def)

section \<open>Lists\<close>

lemma take_length_le: "length (take n xs) \<le> n"
  by simp

lemma last_n_eq: "drop (length xs - n) xs = rev (take n (rev xs))"
  by (simp add: take_rev)

lemma distinct_map_Cons_neq: "distinct (map f (x # xs)) \<Longrightarrow> y \<in> set xs \<Longrightarrow> f y \<noteq> f x"
  by (metis distinct.simps(2) image_eqI list.set_map list.simps(9))

lemma map_filter_cong_set:
  "(\<And>x. x \<in> set xs \<Longrightarrow> f x = g x) \<Longrightarrow> List.map_filter f xs = List.map_filter g xs"
proof (induction xs)
  case (Cons x xs)
  then have "f x = g x" "List.map_filter f xs = List.map_filter g xs" by simp_all
  then show ?case by (simp add: map_filter_simps split: option.split)
qed simp

lemma set_map_filter: "set (List.map_filter f xs) = {y. \<exists>x \<in> set xs. f x = Some y}"
  by (induction xs) (auto simp: map_filter_simps split: option.splits)

lemma mset_map_filter_cong: "mset xs = mset ys \<Longrightarrow> mset (List.map_filter f xs) = mset (List.map_filter f ys)"
  by (simp add: List.map_filter_def)

lemma take_append_take: "take n (xs @ take n ys) = take n (xs @ ys)"
  by (simp add: min_def)

lemma mset_concat_map_cong: "mset xs = mset ys \<Longrightarrow> mset (concat (map f xs)) = mset (concat (map f ys))"
proof -
  assume "mset xs = mset ys"
  moreover have "mset (concat (map f zs)) = sum_mset (image_mset (\<lambda>x. mset (f x)) (mset zs))" for zs
    by (induction zs) simp_all
  ultimately show ?thesis by simp
qed

text \<open>Lists of disjoint association lists: \<open>home k\<close> is the list that holds the key \<open>k\<close>.\<close>

lemma distinct_concat_home:
  assumes "\<And>i. i < length rs \<Longrightarrow> distinct (map fst (rs ! i))"
    and "\<And>i k. i < length rs \<Longrightarrow> k \<in> fst ` set (rs ! i) \<Longrightarrow> home k = i"
  shows "distinct (map fst (concat rs))"
  using assms
proof (induction rs rule: rev_induct)
  case Nil
  then show ?case by simp
next
  case (snoc r rs)
  have i: "distinct (map fst (rs ! i))" "\<And>k. k \<in> fst ` set (rs ! i) \<Longrightarrow> home k = i" if "i < length rs" for i
    using snoc.prems(1) [of i] snoc.prems(2) [of i] that by (auto simp: nth_append)
  have "distinct (map fst (concat rs))" using snoc.IH i by blast
  moreover have "distinct (map fst r)" using snoc.prems(1) [of "length rs"] by simp
  moreover have "k \<notin> fst ` set (concat rs)" if k: "k \<in> fst ` set r" for k
  proof
    assume "k \<in> fst ` set (concat rs)"
    then obtain l where "l \<in> set rs" "k \<in> fst ` set l" by auto
    then obtain j where j: "j < length rs" "k \<in> fst ` set (rs ! j)" by (metis in_set_conv_nth)
    moreover have "home k = length rs" using snoc.prems(2) [of "length rs" k] k by simp
    ultimately show False using i(2) by fastforce
  qed
  ultimately show ?case by auto
qed

end
