(* ===== verification/Crypto.thy ===== *)
theory Crypto
  imports Prelude
begin

text \<open>
  \<^verbatim>\<open>internal/cluster/crypto.go\<close>: the envelope around a pushed payload. HKDF, AES-GCM and the random
  source of Go's crypto packages are the record \<open>crypto\<close>; what the code relies on of them is
  \<open>crypto_ok\<close>. The theorems are about the envelope the code lays around them: salt, nonce, sealed
  payload.
\<close>

section \<open>The code\<close>

record 'r crypto =
  cr_hkdf :: "string \<Rightarrow> string \<Rightarrow> string \<Rightarrow> nat \<Rightarrow> error + string"
  cr_seal :: "string \<Rightarrow> string \<Rightarrow> string \<Rightarrow> string"
  cr_open :: "string \<Rightarrow> string \<Rightarrow> string \<Rightarrow> error + string"
  cr_random :: "nat \<Rightarrow> 'r \<Rightarrow> (error + string) \<times> 'r"

definition saltSize :: nat where "saltSize = 16"
definition keySize :: nat where "keySize = 32"

text \<open>\<open>aesgcm.NonceSize()\<close> of a GCM made by \<open>cipher.NewGCM\<close>.\<close>

definition nonceSize :: nat where "nonceSize = 12"

definition deriveKey :: "'r crypto \<Rightarrow> string \<Rightarrow> string \<Rightarrow> error + string" where
  "deriveKey c secret salt = cr_hkdf c secret salt ''castle-rock-cluster-v1'' keySize"

text \<open>\<open>aes.NewCipher\<close> rejects a key that is not 16, 24 or 32 bytes; \<open>NewGCM\<close> accepts every AES block.\<close>

definition aesNewCipher :: "string \<Rightarrow> error + string" where
  "aesNewCipher key =
     (if length key = 16 \<or> length key = 24 \<or> length key = 32 then Inr key
      else Inl (''crypto/aes: invalid key size '' @ nat_str (length key)))"

definition Encrypt :: "'r crypto \<Rightarrow> string \<Rightarrow> string \<Rightarrow> 'r \<Rightarrow> (error + string) \<times> 'r" where
  "Encrypt c payload secret r =
     (case cr_random c saltSize r of
        (Inl err, r) \<Rightarrow> (Inl err, r)
      | (Inr salt, r) \<Rightarrow>
          (case deriveKey c secret salt of
             Inl err \<Rightarrow> (Inl err, r)
           | Inr key \<Rightarrow>
               (case aesNewCipher key of
                  Inl err \<Rightarrow> (Inl err, r)
                | Inr block \<Rightarrow>
                    (case cr_random c nonceSize r of
                       (Inl err, r) \<Rightarrow> (Inl err, r)
                     | (Inr nonce, r) \<Rightarrow>
                         (let ciphertext = cr_seal c block nonce payload
                          in (Inr (salt @ nonce @ ciphertext), r))))))"

definition Decrypt :: "'r crypto \<Rightarrow> string \<Rightarrow> string \<Rightarrow> error + string" where
  "Decrypt c ciphertext secret =
     (if length ciphertext < saltSize then Inl ''ciphertext too short to contain salt''
      else
        let salt = take saltSize ciphertext; ciphertext = drop saltSize ciphertext
        in case deriveKey c secret salt of
             Inl err \<Rightarrow> Inl err
           | Inr key \<Rightarrow>
               (case aesNewCipher key of
                  Inl err \<Rightarrow> Inl err
                | Inr block \<Rightarrow>
                    if length ciphertext < nonceSize then Inl ''ciphertext too short to contain nonce''
                    else
                      let nonce = take nonceSize ciphertext; ciphertext = drop nonceSize ciphertext
                      in (case cr_open c block nonce ciphertext of
                            Inl err \<Rightarrow> Inl err
                          | Inr plaintext \<Rightarrow> Inr plaintext)))"

section \<open>What the code relies on\<close>

text \<open>
  HKDF returns a key of the requested length (it fails only for lengths far above 32), GCM opens
  exactly what it seals, and the random source fills the buffer or fails.
\<close>

definition crypto_ok :: "'r crypto \<Rightarrow> bool" where
  "crypto_ok c \<longleftrightarrow>
     (\<forall>secret salt info n. n \<le> 255 * 32 \<longrightarrow> (\<exists>key. cr_hkdf c secret salt info n = Inr key \<and> length key = n)) \<and>
     (\<forall>key nonce text p. cr_open c key nonce text = Inr p \<longleftrightarrow> text = cr_seal c key nonce p) \<and>
     (\<forall>n r bs r'. cr_random c n r = (Inr bs, r') \<longrightarrow> length bs = n)"

lemma crypto_hkdf:
  "crypto_ok c \<Longrightarrow> n \<le> 255 * 32 \<Longrightarrow> \<exists>key. cr_hkdf c secret salt info n = Inr key \<and> length key = n"
  by (simp add: crypto_ok_def)

lemma deriveKey_ok:
  assumes "crypto_ok c"
  obtains key where "deriveKey c secret salt = Inr key" "aesNewCipher key = Inr key"
proof -
  have "keySize \<le> 255 * 32" by (simp add: keySize_def)
  then obtain key where "cr_hkdf c secret salt ''castle-rock-cluster-v1'' keySize = Inr key" "length key = keySize"
    using crypto_hkdf [OF assms] by blast
  then show thesis using that by (simp add: deriveKey_def aesNewCipher_def keySize_def)
qed

lemma crypto_open: "crypto_ok c \<Longrightarrow> cr_open c key nonce text = Inr p \<longleftrightarrow> text = cr_seal c key nonce p"
  by (simp add: crypto_ok_def)

lemma crypto_random: "crypto_ok c \<Longrightarrow> cr_random c n r = (Inr bs, r') \<Longrightarrow> length bs = n"
  unfolding crypto_ok_def by blast

definition envelope :: "'r crypto \<Rightarrow> string \<Rightarrow> string \<Rightarrow> string \<Rightarrow> string \<Rightarrow> string \<Rightarrow> bool" where
  "envelope c secret payload salt nonce body \<longleftrightarrow>
     length salt = saltSize \<and> length nonce = nonceSize \<and>
     (\<exists>key. deriveKey c secret salt = Inr key \<and> body = salt @ nonce @ cr_seal c key nonce payload)"

lemma Encrypt_envelope:
  assumes "crypto_ok c" "Encrypt c payload secret r = (Inr body, r')"
  shows "\<exists>salt nonce. envelope c secret payload salt nonce body"
proof -
  obtain salt r1 where s: "cr_random c saltSize r = (Inr salt, r1)"
    using assms(2) by (auto simp: Encrypt_def split: prod.splits sum.splits)
  obtain key where k: "deriveKey c secret salt = Inr key" "aesNewCipher key = Inr key"
    using deriveKey_ok [OF assms(1)] .
  obtain nonce where "cr_random c nonceSize r1 = (Inr nonce, r')" "body = salt @ nonce @ cr_seal c key nonce payload"
    using assms(2) s k by (auto simp: Encrypt_def Let_def split: prod.splits sum.splits)
  then show ?thesis using crypto_random [OF assms(1)] s k unfolding envelope_def by metis
qed

lemma Decrypt_iff:
  assumes "crypto_ok c"
  shows "Decrypt c body secret = Inr payload \<longleftrightarrow> (\<exists>salt nonce. envelope c secret payload salt nonce body)"
proof
  assume d: "Decrypt c body secret = Inr payload"
  then have len: "saltSize \<le> length body" by (auto simp: Decrypt_def split: if_splits)
  let ?salt = "take saltSize body" and ?rest = "drop saltSize body"
  obtain key where k: "deriveKey c secret ?salt = Inr key" "aesNewCipher key = Inr key"
    using deriveKey_ok [OF assms] .
  have rest: "nonceSize \<le> length ?rest"
      "cr_open c key (take nonceSize ?rest) (drop nonceSize ?rest) = Inr payload"
    using d len k by (auto simp: Decrypt_def Let_def split: if_splits sum.splits)
  then have "drop nonceSize ?rest = cr_seal c key (take nonceSize ?rest) payload"
    using crypto_open [OF assms] by blast
  then have "body = ?salt @ take nonceSize ?rest @ cr_seal c key (take nonceSize ?rest) payload"
    by (metis append_take_drop_id)
  moreover have "length ?salt = saltSize" "length (take nonceSize ?rest) = nonceSize" using len rest by simp_all
  ultimately show "\<exists>salt nonce. envelope c secret payload salt nonce body"
    using k(1) unfolding envelope_def by blast
next
  assume "\<exists>salt nonce. envelope c secret payload salt nonce body"
  then obtain salt nonce key where e: "length salt = saltSize" "length nonce = nonceSize"
      "deriveKey c secret salt = Inr key" "body = salt @ nonce @ cr_seal c key nonce payload"
    by (auto simp: envelope_def)
  moreover have "aesNewCipher key = Inr key" using deriveKey_ok [OF assms] e(3) by (metis Inr_inject)
  moreover have "cr_open c key nonce (cr_seal c key nonce payload) = Inr payload" using crypto_open [OF assms] by blast
  ultimately show "Decrypt c body secret = Inr payload" by (simp add: Decrypt_def Let_def)
qed

lemma Decrypt_Encrypt:
  "crypto_ok c \<Longrightarrow> Encrypt c payload secret r = (Inr body, r') \<Longrightarrow> Decrypt c body secret = Inr payload"
  using Encrypt_envelope [of c payload secret r body r'] Decrypt_iff [of c body secret payload] by simp

lemma Encrypt_total:
  assumes "crypto_ok c" "\<And>n r. \<exists>bs r'. cr_random c n r = (Inr bs, r')"
  shows "\<exists>body r'. Encrypt c payload secret r = (Inr body, r')"
proof -
  obtain salt r1 nonce r2 where r: "cr_random c saltSize r = (Inr salt, r1)" "cr_random c nonceSize r1 = (Inr nonce, r2)"
    using assms(2) by meson
  obtain key where "deriveKey c secret salt = Inr key" "aesNewCipher key = Inr key"
    using deriveKey_ok [OF assms(1)] .
  then show ?thesis using r by (simp add: Encrypt_def Let_def)
qed

section \<open>Properties\<close>

text \<open>A concrete instance of the parameters, for the witnesses.\<close>

definition ex_crypto :: "nat crypto" where
  "ex_crypto = \<lparr>cr_hkdf = (\<lambda>secret salt info n. if n \<le> 255 * 32 then Inr (replicate n (CHR ''k'')) else Inl ''too large''),
     cr_seal = (\<lambda>key nonce p. nonce @ rev p),
     cr_open = (\<lambda>key nonce text. if has_prefix text nonce then Inr (rev (drop (length nonce) text)) else Inl ''cipher: message authentication failed''),
     cr_random = (\<lambda>n r. (Inr (replicate n (digit_char (r mod 10))), Suc r))\<rparr>"

lemma ex_crypto_ok: "crypto_ok ex_crypto"
  by (auto simp: crypto_ok_def ex_crypto_def has_prefix_iff split: if_splits)

text \<open>
  C13: Whatever \<open>Encrypt\<close> returns, \<open>Decrypt\<close> with the same secret gives the payload back, and the
  message has the documented layout: 16 bytes of salt, 12 of nonce, then the sealed payload.
\<close>

theorem decrypt_inverts_encrypt:
  assumes "crypto_ok c" "Encrypt c payload secret r = (Inr body, r')"
  shows "Decrypt c body secret = Inr payload
       \<and> (\<exists>salt nonce. envelope c secret payload salt nonce body)"
  using Decrypt_Encrypt [OF assms] Encrypt_envelope [OF assms] by simp

theorem decrypt_inverts_encrypt_witness:
  "Decrypt ex_crypto (replicate 16 (CHR ''0'') @ replicate 12 (CHR ''1'') @ replicate 12 (CHR ''1'') @ ''ih'') ''s'' = Inr ''hi''"
proof -
  have "Encrypt ex_crypto ''hi'' ''s'' 0 =
      (Inr (replicate 16 (CHR ''0'') @ replicate 12 (CHR ''1'') @ replicate 12 (CHR ''1'') @ ''ih''), 2)"
    by code_simp
  from decrypt_inverts_encrypt [OF ex_crypto_ok this] show ?thesis by blast
qed

text \<open>
  C23: \<open>Decrypt\<close> accepts a message exactly when it is such an envelope for the secret, and it returns
  an error, never a slice out of range, on every message shorter than salt and nonce.
\<close>

theorem decrypt_accepts_exactly_envelopes:
  assumes "crypto_ok c"
  shows "(Decrypt c body secret = Inr payload \<longleftrightarrow> (\<exists>salt nonce. envelope c secret payload salt nonce body))
       \<and> (length body < 16 \<longrightarrow> Decrypt c body secret = Inl ''ciphertext too short to contain salt'')
       \<and> (16 \<le> length body \<and> length body < 28 \<longrightarrow> Decrypt c body secret = Inl ''ciphertext too short to contain nonce'')"
proof (intro conjI impI)
  show "length body < 16 \<Longrightarrow> Decrypt c body secret = Inl ''ciphertext too short to contain salt''"
    by (simp add: Decrypt_def saltSize_def)
  assume "16 \<le> length body \<and> length body < 28"
  moreover obtain key where "deriveKey c secret (take saltSize body) = Inr key" "aesNewCipher key = Inr key"
    using deriveKey_ok [OF assms] .
  ultimately show "Decrypt c body secret = Inl ''ciphertext too short to contain nonce''"
    by (auto simp: Decrypt_def Let_def saltSize_def nonceSize_def)
qed (rule Decrypt_iff [OF assms])

theorem decrypt_accepts_exactly_envelopes_witness:
  "Decrypt ex_crypto ''short'' ''s'' = Inl ''ciphertext too short to contain salt''"
  using decrypt_accepts_exactly_envelopes [OF ex_crypto_ok, of "''short''" "''s''"] by simp

end
