(* ===== verification/Float64.thy ===== *)
theory Float64
  imports Prelude "HOL-Library.Log_Nat"
begin

text \<open>
  Go's \<open>float64\<close> (IEEE 754 binary64). A finite float is the rational it stands for; the arithmetic
  is the exact result rounded to nearest, ties to even, with 53 significant bits, gradual underflow
  at \<open>2 ^ (-1074)\<close> and overflow to infinity at \<open>2 ^ 1024\<close>. The two zeros are one value: no code
  of the agent divides by a float zero or tells the zeros apart.
\<close>

named_theorems f64 \<open>comparisons and arithmetic of float64\<close>

datatype float64 = Fin rat | PInf | NInf | NaN

section \<open>Rounding\<close>

definition ilog2 :: "rat \<Rightarrow> int" where
  "ilog2 x = (let (p, q) = quotient_of x; k = bitlen p - bitlen q
              in if 2 powi k \<le> x then k else k - 1)"

definition rhe :: "rat \<Rightarrow> int" where
  "rhe x = (let f = \<lfloor>x\<rfloor>; d = x - of_int f
            in if d < 1 / 2 then f else if 1 / 2 < d then f + 1 else if even f then f else f + 1)"

definition ulp_exp :: "rat \<Rightarrow> int" where
  "ulp_exp x = max (ilog2 \<bar>x\<bar> - 52) (- 1074)"

definition rnd64 :: "rat \<Rightarrow> rat" where
  "rnd64 x = (if x = 0 then 0 else of_int (rhe (x / 2 powi ulp_exp x)) * 2 powi ulp_exp x)"

definition f64_of_rat :: "rat \<Rightarrow> float64" where
  "f64_of_rat x =
     (let y = rnd64 x in if 2 ^ 1024 \<le> y then PInf else if y \<le> - (2 ^ 1024) then NInf else Fin y)"

section \<open>Arithmetic and comparison\<close>

definition u64_rat :: "64 word \<Rightarrow> rat" where "u64_rat w = of_nat (unat w)"

definition f64_of_uint64 :: "64 word \<Rightarrow> float64" where
  "f64_of_uint64 w = f64_of_rat (u64_rat w)"

definition f64_of_int :: "int \<Rightarrow> float64" where
  "f64_of_int i = f64_of_rat (of_int i)"

fun f_neg :: "float64 \<Rightarrow> float64" where
  "f_neg (Fin x) = Fin (- x)"
| "f_neg PInf = NInf"
| "f_neg NInf = PInf"
| "f_neg NaN = NaN"

fun f_add :: "float64 \<Rightarrow> float64 \<Rightarrow> float64" where
  "f_add (Fin x) (Fin y) = f64_of_rat (x + y)"
| "f_add NaN _ = NaN"
| "f_add _ NaN = NaN"
| "f_add PInf NInf = NaN"
| "f_add NInf PInf = NaN"
| "f_add PInf _ = PInf"
| "f_add _ PInf = PInf"
| "f_add NInf _ = NInf"
| "f_add _ NInf = NInf"

definition f_sub :: "float64 \<Rightarrow> float64 \<Rightarrow> float64" where
  "f_sub a b = f_add a (f_neg b)"

definition inf_of_sign :: "rat \<Rightarrow> float64" where
  "inf_of_sign x = (if 0 < x then PInf else if x < 0 then NInf else NaN)"

fun f_mul :: "float64 \<Rightarrow> float64 \<Rightarrow> float64" where
  "f_mul (Fin x) (Fin y) = f64_of_rat (x * y)"
| "f_mul NaN _ = NaN"
| "f_mul _ NaN = NaN"
| "f_mul (Fin x) PInf = inf_of_sign x"
| "f_mul PInf (Fin x) = inf_of_sign x"
| "f_mul (Fin x) NInf = inf_of_sign (- x)"
| "f_mul NInf (Fin x) = inf_of_sign (- x)"
| "f_mul PInf PInf = PInf"
| "f_mul NInf NInf = PInf"
| "f_mul PInf NInf = NInf"
| "f_mul NInf PInf = NInf"

fun f_div :: "float64 \<Rightarrow> float64 \<Rightarrow> float64" where
  "f_div (Fin x) (Fin y) = (if y = 0 then inf_of_sign x else f64_of_rat (x / y))"
| "f_div NaN _ = NaN"
| "f_div _ NaN = NaN"
| "f_div (Fin _) PInf = Fin 0"
| "f_div (Fin _) NInf = Fin 0"
| "f_div PInf (Fin y) = (if y < 0 then NInf else PInf)"
| "f_div NInf (Fin y) = (if y < 0 then PInf else NInf)"
| "f_div _ _ = NaN"

fun f_lt :: "float64 \<Rightarrow> float64 \<Rightarrow> bool" where
  "f_lt (Fin x) (Fin y) = (x < y)"
| "f_lt NaN _ = False"
| "f_lt _ NaN = False"
| "f_lt NInf b = (b \<noteq> NInf)"
| "f_lt _ NInf = False"
| "f_lt PInf _ = False"
| "f_lt _ PInf = True"

fun f_eq :: "float64 \<Rightarrow> float64 \<Rightarrow> bool" where
  "f_eq NaN _ = False"
| "f_eq _ NaN = False"
| "f_eq a b = (a = b)"

definition f_le :: "float64 \<Rightarrow> float64 \<Rightarrow> bool" where
  "f_le a b \<longleftrightarrow> f_lt a b \<or> f_eq a b"

lemma f_le_Fin [simp]: "f_le (Fin x) (Fin y) \<longleftrightarrow> x \<le> y"
  by (auto simp: f_le_def)

lemma f_le_NaN [simp]: "\<not> f_le NaN b" "\<not> f_le a NaN"
  by (cases a; simp add: f_le_def)+

lemma f_lt_irrefl [simp]: "\<not> f_lt a a"
  by (cases a) auto

lemma f_lt_not_le [f64]: "f_lt a b \<Longrightarrow> \<not> f_le b a"
  by (cases a; cases b) (auto simp: f_le_def)

lemma f_lt_trans [f64]: "f_lt a b \<Longrightarrow> f_lt b c \<Longrightarrow> f_lt a c"
  by (cases a; cases b; cases c) auto

section \<open>Rounding to integers\<close>

lemma rhe_of_int [simp]: "rhe (of_int n) = n"
  by (simp add: rhe_def)

lemma rhe_bounds: "\<lfloor>x\<rfloor> \<le> rhe x" "rhe x \<le> \<lceil>x\<rceil>"
proof -
  show "\<lfloor>x\<rfloor> \<le> rhe x" by (simp add: rhe_def Let_def)
  show "rhe x \<le> \<lceil>x\<rceil>"
  proof (cases "x = of_int \<lfloor>x\<rfloor>")
    case True
    then show ?thesis by (metis ceiling_of_int order_refl rhe_of_int)
  next
    case False
    then have "\<lceil>x\<rceil> = \<lfloor>x\<rfloor> + 1" by (metis ceiling_altdef)
    then show ?thesis by (simp add: rhe_def Let_def)
  qed
qed

lemma rhe_mono: "x \<le> y \<Longrightarrow> rhe x \<le> rhe y"
proof -
  assume le: "x \<le> y"
  then have "\<lfloor>x\<rfloor> \<le> \<lfloor>y\<rfloor>" by (rule floor_mono)
  then consider "\<lfloor>x\<rfloor> = \<lfloor>y\<rfloor>" | "\<lfloor>x\<rfloor> + 1 \<le> \<lfloor>y\<rfloor>" by linarith
  then show ?thesis
  proof cases
    case 1
    then show ?thesis using le by (auto simp: rhe_def Let_def)
  next
    case 2
    have "rhe x \<le> \<lfloor>x\<rfloor> + 1" by (simp add: rhe_def Let_def)
    also have "\<dots> \<le> \<lfloor>y\<rfloor>" by (rule 2)
    also have "\<dots> \<le> rhe y" by (rule rhe_bounds)
    finally show ?thesis .
  qed
qed

lemma rhe_neg: "rhe (- x) = - rhe x"
proof (cases "x = of_int \<lfloor>x\<rfloor>")
  case True
  then show ?thesis by (metis of_int_minus rhe_of_int)
next
  case False
  then have "\<lceil>x\<rceil> = \<lfloor>x\<rfloor> + 1" by (metis ceiling_altdef)
  then have fl: "\<lfloor>- x\<rfloor> = - \<lfloor>x\<rfloor> - 1" by (simp add: ceiling_def)
  have "- x - of_int \<lfloor>- x\<rfloor> = 1 - (x - of_int \<lfloor>x\<rfloor>)" by (simp add: fl)
  then show ?thesis by (simp add: rhe_def Let_def fl)
qed

section \<open>Powers of two\<close>

abbreviation pow2 :: "int \<Rightarrow> rat" where "pow2 k \<equiv> 2 powi k"

lemma pow2_pos [simp]: "0 < pow2 k"
  by simp

lemma pow2_mono: "i \<le> j \<Longrightarrow> pow2 i \<le> pow2 j"
  by (rule power_int_increasing) auto

lemma pow2_less_imp: "pow2 i < pow2 j \<Longrightarrow> i < j"
  by (metis linorder_not_less pow2_mono)

lemma pow2_diff: "pow2 (i - j) = pow2 i / pow2 j"
  by (simp add: power_int_diff)

lemma pow2_int: "0 \<le> k \<Longrightarrow> pow2 k = of_int (2 ^ nat k)"
  by (simp add: power_int_def)

lemma ilog2_bounds:
  assumes "0 < x"
  shows "pow2 (ilog2 x) \<le> x" "x < pow2 (ilog2 x + 1)"
proof -
  obtain p q where pq: "quotient_of x = (p, q)" by (cases "quotient_of x")
  have q: "0 < q" and xeq: "x = of_int p / of_int q"
    using pq quotient_of_denom_pos quotient_of_div by auto
  have p: "0 < p" using assms q xeq by (simp add: zero_less_divide_iff)
  let ?k = "bitlen p - bitlen q"
  have bp: "1 \<le> bitlen p" "1 \<le> bitlen q"
    using p q bitlen_eq_zero_iff [of p] bitlen_eq_zero_iff [of q] bitlen_nonneg [of p] bitlen_nonneg [of q]
    by linarith+
  have pl: "pow2 (bitlen p - 1) \<le> of_int p" and pu: "of_int p < pow2 (bitlen p)"
    using bitlen_bounds [OF p] bp by (simp_all only: pow2_int of_int_le_iff of_int_less_iff)
  have ql: "pow2 (bitlen q - 1) \<le> of_int q" and qu: "of_int q < pow2 (bitlen q)"
    using bitlen_bounds [OF q] bp by (simp_all only: pow2_int of_int_le_iff of_int_less_iff)
  have up: "x < pow2 (?k + 1)"
  proof -
    have "x < pow2 (bitlen p) / pow2 (bitlen q - 1)"
      unfolding xeq by (rule frac_less) (use p pu ql in auto)
    then show ?thesis by (simp add: pow2_diff [symmetric] algebra_simps)
  qed
  have lo: "pow2 (?k - 1) \<le> x"
  proof -
    have "pow2 (bitlen p - 1) / pow2 (bitlen q) \<le> x"
      unfolding xeq by (rule frac_le) (use p q pl qu in \<open>auto simp: less_imp_le\<close>)
    then show ?thesis by (simp add: pow2_diff [symmetric] algebra_simps)
  qed
  show "pow2 (ilog2 x) \<le> x" "x < pow2 (ilog2 x + 1)"
    using up lo by (auto simp: ilog2_def pq Let_def)
qed

lemma ilog2_mono: "0 < x \<Longrightarrow> x \<le> y \<Longrightarrow> ilog2 x \<le> ilog2 y"
proof -
  assume "0 < x" "x \<le> y"
  then have "pow2 (ilog2 x) < pow2 (ilog2 y + 1)"
    using ilog2_bounds [of x] ilog2_bounds [of y] by linarith
  then show ?thesis by (auto dest: pow2_less_imp)
qed

section \<open>Properties of the rounding\<close>

lemma rnd64_0 [simp]: "rnd64 0 = 0"
  by (simp add: rnd64_def)

lemma rnd64_neg: "rnd64 (- x) = - rnd64 x"
  by (simp add: rnd64_def ulp_exp_def rhe_neg)

lemma rnd64_nonneg: "0 \<le> x \<Longrightarrow> 0 \<le> rnd64 x"
proof -
  assume "0 \<le> x"
  then have "rhe 0 \<le> rhe (x / pow2 (ulp_exp x))" by (intro rhe_mono) simp
  then show ?thesis by (simp add: rnd64_def rhe_of_int [of 0, simplified])
qed

text \<open>A multiple of the unit in the last place is representable.\<close>

lemma rnd64_multiple:
  assumes "x = of_int m * pow2 k" "ulp_exp x \<le> k"
  shows "rnd64 x = x"
proof -
  have "x / pow2 (ulp_exp x) = of_int m * pow2 (k - ulp_exp x)"
    by (simp add: assms(1) pow2_diff)
  also have "\<dots> = of_int (m * 2 ^ nat (k - ulp_exp x))"
    using assms(2) by (simp add: pow2_int)
  finally have q: "x / pow2 (ulp_exp x) = of_int (m * 2 ^ nat (k - ulp_exp x))" .
  then have "of_int (rhe (x / pow2 (ulp_exp x))) = x / pow2 (ulp_exp x)"
    by (simp only: rhe_of_int)
  then show ?thesis by (simp add: rnd64_def)
qed

lemma rnd64_exact:
  assumes "\<bar>m\<bar> < 2 ^ 53" "- 1074 \<le> k"
  shows "rnd64 (of_int m * pow2 k) = of_int m * pow2 k"
proof (cases "m = 0")
  case True
  then show ?thesis by simp
next
  case False
  let ?x = "of_int m * pow2 k"
  have abs: "\<bar>?x\<bar> = of_int \<bar>m\<bar> * pow2 k" by (simp add: abs_mult)
  have "of_int \<bar>m\<bar> < (of_int (2 ^ 53) :: rat)" using assms(1) by (simp only: of_int_less_iff)
  then have "\<bar>?x\<bar> < pow2 53 * pow2 k" unfolding abs by simp
  then have "\<bar>?x\<bar> < pow2 (53 + k)" by (simp add: power_int_add)
  moreover have "pow2 (ilog2 \<bar>?x\<bar>) \<le> \<bar>?x\<bar>" using False by (intro ilog2_bounds) simp
  ultimately have "pow2 (ilog2 \<bar>?x\<bar>) < pow2 (53 + k)" by linarith
  then have "ilog2 \<bar>?x\<bar> < 53 + k" by (rule pow2_less_imp)
  then have "ulp_exp ?x \<le> k" using assms(2) by (simp add: ulp_exp_def)
  then show ?thesis by (intro rnd64_multiple) auto
qed

lemma rnd64_of_int [f64]: "\<bar>n\<bar> < 2 ^ 53 \<Longrightarrow> rnd64 (of_int n) = of_int n"
  using rnd64_exact [of n 0] by simp

lemma rnd64_pow2: "- 1074 \<le> k \<Longrightarrow> rnd64 (pow2 k) = pow2 k"
  using rnd64_exact [of 1 k] by simp

lemma rnd64_mono_pos:
  assumes "0 < x" "x \<le> y"
  shows "rnd64 x \<le> rnd64 y"
proof (cases "ulp_exp x = ulp_exp y")
  case True
  have "x / pow2 (ulp_exp y) \<le> y / pow2 (ulp_exp y)" using assms by (simp add: divide_right_mono)
  then show ?thesis using True assms rhe_mono by (auto simp: rnd64_def)
next
  case False
  let ?e = "ulp_exp x" and ?l = "ilog2 y"
  have "ilog2 x \<le> ?l" using assms by (rule ilog2_mono)
  with False assms have lt: "ilog2 x < ?l" and ey: "ulp_exp y = ?l - 52" and el: "?e < ulp_exp y"
    by (auto simp: ulp_exp_def)
  have "x \<le> pow2 (ilog2 x + 1)" using ilog2_bounds(2) [OF assms(1)] by simp
  also have "\<dots> \<le> pow2 ?l" using lt by (intro pow2_mono) simp
  finally have "x / pow2 ?e \<le> pow2 (?l - ?e)" by (simp add: pow2_diff divide_right_mono)
  also have "\<dots> = of_int (2 ^ nat (?l - ?e))" using el ey by (intro pow2_int) simp
  finally have "rhe (x / pow2 ?e) \<le> 2 ^ nat (?l - ?e)" using rhe_mono rhe_of_int by metis
  then have "(of_int (rhe (x / pow2 ?e)) :: rat) \<le> of_int (2 ^ nat (?l - ?e))"
    by (simp only: of_int_le_iff)
  then have "of_int (rhe (x / pow2 ?e)) \<le> pow2 (?l - ?e)" using el ey by (simp add: pow2_int)
  then have "rnd64 x \<le> pow2 ?l"
    using assms(1) by (simp add: rnd64_def pow2_diff pos_le_divide_eq)
  also have "\<dots> \<le> rnd64 y"
  proof -
    have "pow2 52 \<le> y / pow2 (ulp_exp y)"
      using ilog2_bounds(1) [of y] assms by (simp add: ey pow2_diff field_simps)
    then have "of_int (2 ^ 52) \<le> y / pow2 (ulp_exp y)" by simp
    then have "2 ^ 52 \<le> rhe (y / pow2 (ulp_exp y))" using rhe_mono rhe_of_int by metis
    then have "(of_int (2 ^ 52) :: rat) \<le> of_int (rhe (y / pow2 (ulp_exp y)))"
      by (simp only: of_int_le_iff)
    then have "pow2 52 * pow2 (ulp_exp y) \<le> rnd64 y"
      using assms by (simp add: rnd64_def)
    then show ?thesis by (simp add: ey pow2_diff)
  qed
  finally show ?thesis .
qed

lemma rnd64_mono [f64]: "x \<le> y \<Longrightarrow> rnd64 x \<le> rnd64 y"
proof -
  assume le: "x \<le> y"
  consider "0 < x" | "x \<le> 0" "0 \<le> y" | "y < 0" by linarith
  then show ?thesis
  proof cases
    case 1
    then show ?thesis using le by (rule rnd64_mono_pos)
  next
    case 2
    then have "0 \<le> rnd64 (- x)" "0 \<le> rnd64 y" by (simp_all add: rnd64_nonneg)
    then show ?thesis by (simp add: rnd64_neg)
  next
    case 3
    then have "rnd64 (- y) \<le> rnd64 (- x)" using le by (intro rnd64_mono_pos) simp_all
    then show ?thesis by (simp add: rnd64_neg)
  qed
qed

lemma f64_of_rat_Fin:
  assumes "\<bar>x\<bar> \<le> 2 ^ 1000"
  shows "f64_of_rat x = Fin (rnd64 x)"
proof -
  have p: "rnd64 (2 ^ 1000) = 2 ^ 1000"
    using rnd64_pow2 [of 1000] by (simp add: power_int_def)
  have "rnd64 x \<le> rnd64 (2 ^ 1000)" using assms by (intro rnd64_mono) simp
  moreover have "rnd64 (- (2 ^ 1000)) \<le> rnd64 x" using assms by (intro rnd64_mono) linarith
  moreover have "(2::rat) ^ 1000 < 2 ^ 1024" by (rule power_strict_increasing) auto
  ultimately have "\<not> 2 ^ 1024 \<le> rnd64 x" "\<not> rnd64 x \<le> - (2 ^ 1024)"
    unfolding p rnd64_neg by linarith+
  then show ?thesis by (simp only: f64_of_rat_def Let_def if_False)
qed

lemma f64_of_int_exact [f64]:
  assumes "\<bar>n\<bar> < 2 ^ 53"
  shows "f64_of_int n = Fin (of_int n)"
proof -
  have "(of_int \<bar>n\<bar> :: rat) < of_int (2 ^ 53)" using assms by (simp only: of_int_less_iff)
  then have "\<bar>of_int n :: rat\<bar> \<le> 2 ^ 53" by simp
  also have "\<dots> \<le> 2 ^ 1000" by (rule power_increasing) auto
  finally show ?thesis using assms by (simp add: f64_of_int_def f64_of_rat_Fin rnd64_of_int)
qed

lemma u64_rat_bounds: "0 \<le> u64_rat w" "u64_rat w < 2 ^ 64"
proof -
  show "0 \<le> u64_rat w" unfolding u64_rat_def by (rule of_nat_0_le_iff)
  have "unat w < 2 ^ 64" using unsigned_less [of w, where 'a = nat] by simp
  then have "(of_nat (unat w) :: rat) < of_nat (2 ^ 64)" by (simp only: of_nat_less_iff)
  then show "u64_rat w < 2 ^ 64" by (simp only: u64_rat_def of_nat_power of_nat_numeral)
qed

lemma u64_rat_le: "u64_rat v \<le> u64_rat w \<longleftrightarrow> v \<le> w"
  by (simp only: u64_rat_def of_nat_le_iff word_le_nat_alt)

lemma u64_rat_0 [simp]: "u64_rat 0 = 0"
  by (simp add: u64_rat_def)

lemma u64_rat_eq_0 [simp]: "u64_rat w = 0 \<longleftrightarrow> w = 0"
  by (simp only: u64_rat_def of_nat_eq_0_iff unat_eq_0)

lemma f64_of_uint64_Fin: "f64_of_uint64 w = Fin (rnd64 (u64_rat w))"
proof -
  have "u64_rat w \<le> 2 ^ 64" using u64_rat_bounds [of w] by simp
  also have "(2::rat) ^ 64 \<le> 2 ^ 1000" by (rule power_increasing) auto
  finally show ?thesis using u64_rat_bounds(1) [of w]
    unfolding f64_of_uint64_def by (intro f64_of_rat_Fin) linarith
qed

lemma rnd64_u64_bounds: "0 \<le> rnd64 (u64_rat w)" "rnd64 (u64_rat w) \<le> 2 ^ 64"
proof -
  show "0 \<le> rnd64 (u64_rat w)" by (rule rnd64_nonneg) (rule u64_rat_bounds)
  have "rnd64 (u64_rat w) \<le> rnd64 (2 ^ 64)" using u64_rat_bounds [of w] by (intro rnd64_mono) simp
  also have "rnd64 (2 ^ 64) = 2 ^ 64" using rnd64_pow2 [of 64] by (simp add: power_int_def)
  finally show "rnd64 (u64_rat w) \<le> 2 ^ 64" .
qed

lemma rnd64_le_int: "x \<le> of_int n \<Longrightarrow> \<bar>n\<bar> < 2 ^ 53 \<Longrightarrow> rnd64 x \<le> of_int n"
  using rnd64_mono rnd64_of_int by metis

lemma rnd64_ge_int: "of_int n \<le> x \<Longrightarrow> \<bar>n\<bar> < 2 ^ 53 \<Longrightarrow> of_int n \<le> rnd64 x"
  using rnd64_mono rnd64_of_int by metis

section \<open>Printing\<close>

text \<open>
  The verbs \<open>%.1f\<close> and \<open>%.0f\<close>: the exact value rounded to the decimals, ties to even.
\<close>

definition fmt_f1 :: "float64 \<Rightarrow> string" where
  "fmt_f1 v =
     (case v of
        Fin x \<Rightarrow> (let n = nat (rhe (\<bar>x\<bar> * 10))
                  in (if x < 0 then ''-'' else '''') @ nat_str (n div 10) @ ''.'' @ nat_str (n mod 10))
      | PInf \<Rightarrow> ''+Inf'' | NInf \<Rightarrow> ''-Inf'' | NaN \<Rightarrow> ''NaN'')"

definition fmt_f0 :: "float64 \<Rightarrow> string" where
  "fmt_f0 v =
     (case v of
        Fin x \<Rightarrow> (if x < 0 then ''-'' else '''') @ nat_str (nat (rhe \<bar>x\<bar>))
      | PInf \<Rightarrow> ''+Inf'' | NInf \<Rightarrow> ''-Inf'' | NaN \<Rightarrow> ''NaN'')"

end
