(* ===== verification/Models.thy ===== *)
theory Models
  imports Float64
begin

text \<open>
  \<^verbatim>\<open>pkg/models/container.go\<close>: the data transfer objects the components exchange. A 64-bit
  unsigned field is a \<open>64 word\<close>.
\<close>

record ContainerInfo =
  ci_HostID :: string
  ci_ID :: string
  ci_Name :: string
  ci_Image :: string
  ci_Status :: string
  ci_State :: string
  ci_Ports :: string

record ContainerMetrics =
  cm_HostID :: string
  cm_ContainerID :: string
  cm_ContainerName :: string
  cm_Image :: string
  cm_CPUPercent :: float64
  cm_MemoryUsage :: "64 word"
  cm_MemoryLimit :: "64 word"
  cm_MemoryPercent :: float64
  cm_NetworkRx :: "64 word"
  cm_NetworkTx :: "64 word"
  cm_BlockRead :: "64 word"
  cm_BlockWrite :: "64 word"

record PushPayload =
  pp_HostID :: string
  pp_Containers :: "ContainerInfo list"
  pp_Metrics :: "ContainerMetrics list"

text \<open>
  A stats map (\<open>map[string]models.ContainerMetrics\<close>) is keyed by the container ID of its values:
  the shape that \<open>GetAllContainerStats\<close> and the merge of remote metrics produce.
\<close>

type_synonym stats = "string \<rightharpoonup> ContainerMetrics"
type_synonym stats_range = "(string \<times> ContainerMetrics) list"

definition stats_keyed :: "stats \<Rightarrow> bool" where
  "stats_keyed st \<longleftrightarrow> (\<forall>k s. st k = Some s \<longrightarrow> cm_ContainerID s = k)"

lemma stats_keyed_empty [simp]: "stats_keyed Map.empty"
  by (simp add: stats_keyed_def)

lemma stats_keyed_upd [simp]: "stats_keyed st \<Longrightarrow> stats_keyed (st(cm_ContainerID s \<mapsto> s))"
  by (simp add: stats_keyed_def)

lemma stats_keyed_range:
  "stats_keyed st \<Longrightarrow> is_range st r \<Longrightarrow> (k, s) \<in> set r \<Longrightarrow> cm_ContainerID s = k"
  by (auto simp: stats_keyed_def range_simps)

end
