(* ===== verification/Store.thy ===== *)
theory Store
  imports Models
begin

unbundle bit_operations_syntax

text \<open>
  \<^verbatim>\<open>internal/cluster/receiver.go\<close>, the data storage half: the interface \<open>ClusterStore\<close> and its sharded
  implementation \<open>MemoryStore\<close>. The interface is the locale \<open>cluster_store\<close>, whose laws say that a
  store behaves as one flat map from host to its last snapshot; \<open>MemoryStore\<close> is shown to satisfy
  them, with the FNV-1a hash on 32-bit words that selects the shard.
\<close>

section \<open>The sharded store\<close>

record HostData =
  LastUpdate :: time
  Payload :: PushPayload

type_synonym shard = "string \<rightharpoonup> HostData"

record MemoryStore =
  shards :: "shard list"
  shardMask :: "32 word"

definition NewMemoryStore :: MemoryStore where
  "NewMemoryStore = \<lparr>shards = replicate 16 Map.empty, shardMask = 15\<rparr>"

fun fnv :: "32 word \<Rightarrow> string \<Rightarrow> 32 word" where
  "fnv h [] = h"
| "fnv h (c # s) = fnv ((h XOR of_nat (of_char c)) * 16777619) s"

text \<open>\<open>getShard\<close> returns a pointer into the array of shards: here, its index.\<close>

definition getShard :: "MemoryStore \<Rightarrow> string \<Rightarrow> nat" where
  "getShard s hostID = unat (fnv 2166136261 hostID AND shardMask s)"

definition UpdateHost :: "time \<Rightarrow> PushPayload \<Rightarrow> MemoryStore \<Rightarrow> MemoryStore" where
  "UpdateHost now payload s =
     (let i = getShard s (pp_HostID payload)
      in s\<lparr>shards := (shards s)[i := (shards s ! i)(pp_HostID payload \<mapsto> \<lparr>LastUpdate = now, Payload = payload\<rparr>)]\<rparr>)"

text \<open>
  The two queries visit the shards in order and each shard in the order Go ranges over its map:
  \<open>rs\<close> holds one visiting order per shard.
\<close>

type_synonym host_range = "(string \<times> HostData) list"

fun shardMetrics :: "time \<Rightarrow> host_range \<Rightarrow> ContainerMetrics list \<Rightarrow> ContainerMetrics list" where
  "shardMetrics now [] all_metrics = all_metrics"
| "shardMetrics now ((hostID, data) # r) all_metrics =
     (if time_sub now (LastUpdate data) > 30 * second then shardMetrics now r all_metrics
      else shardMetrics now r (all_metrics @ pp_Metrics (Payload data)))"

definition GetAllMetrics :: "time \<Rightarrow> host_range list \<Rightarrow> ContainerMetrics list" where
  "GetAllMetrics now rs = fold (shardMetrics now) rs []"

fun shardContainers :: "time \<Rightarrow> host_range \<Rightarrow> ContainerInfo list \<Rightarrow> ContainerInfo list" where
  "shardContainers now [] all_infos = all_infos"
| "shardContainers now ((hostID, data) # r) all_infos =
     (if time_sub now (LastUpdate data) > 30 * second then shardContainers now r all_infos
      else shardContainers now r (all_infos @ pp_Containers (Payload data)))"

definition GetAllContainers :: "time \<Rightarrow> host_range list \<Rightarrow> ContainerInfo list" where
  "GetAllContainers now rs = fold (shardContainers now) rs []"

section \<open>The interface\<close>

text \<open>A flat store: one map from host ID to snapshot, and the rule that hides a silent host.\<close>

definition fresh :: "time \<Rightarrow> HostData \<Rightarrow> bool" where
  "fresh now d \<longleftrightarrow> time_sub now (LastUpdate d) \<le> 30 * second"

definition flat_collect :: "(PushPayload \<Rightarrow> 'a list) \<Rightarrow> time \<Rightarrow> host_range \<Rightarrow> 'a list" where
  "flat_collect f now r = concat (map (\<lambda>(h, d). if fresh now d then f (Payload d) else []) r)"

definition put_host :: "time \<Rightarrow> PushPayload \<Rightarrow> shard \<Rightarrow> shard" where
  "put_host now p m = m(pp_HostID p \<mapsto> \<lparr>LastUpdate = now, Payload = p\<rparr>)"

lemma flat_collect_mem:
  assumes "is_range m r"
  shows "x \<in> set (flat_collect f now r) \<longleftrightarrow> (\<exists>h d. m h = Some d \<and> fresh now d \<and> x \<in> set (f (Payload d)))"
proof -
  have "x \<in> set (flat_collect f now r) \<longleftrightarrow> (\<exists>(h, d) \<in> set r. fresh now d \<and> x \<in> set (f (Payload d)))"
    by (auto simp: flat_collect_def split: if_splits)
  also have "\<dots> \<longleftrightarrow> (\<exists>h d. m h = Some d \<and> fresh now d \<and> x \<in> set (f (Payload d)))"
    using is_range_mem [OF assms] by blast
  finally show ?thesis .
qed

lemma flat_collect_mset:
  "is_range m r \<Longrightarrow> is_range m r' \<Longrightarrow> mset (flat_collect f now r) = mset (flat_collect f now r')"
  unfolding flat_collect_def by (rule mset_concat_map_cong) (rule is_range_mset)

locale cluster_store =
  fixes inv :: "'s \<Rightarrow> bool"
    and hosts :: "'s \<Rightarrow> string \<rightharpoonup> HostData"
    and new :: 's
    and update :: "time \<Rightarrow> PushPayload \<Rightarrow> 's \<Rightarrow> 's"
    and visits :: "'s \<Rightarrow> 'r \<Rightarrow> bool"
    and flat :: "'r \<Rightarrow> host_range"
    and metrics :: "time \<Rightarrow> 'r \<Rightarrow> ContainerMetrics list"
    and containers :: "time \<Rightarrow> 'r \<Rightarrow> ContainerInfo list"
  assumes new_inv: "inv new"
    and new_hosts: "hosts new = Map.empty"
    and update_inv: "inv s \<Longrightarrow> inv (update now p s)"
    and update_hosts: "inv s \<Longrightarrow> hosts (update now p s) = put_host now p (hosts s)"
    and visits_range: "inv s \<Longrightarrow> visits s r \<Longrightarrow> is_range (hosts s) (flat r)"
    and metrics_flat: "metrics now r = flat_collect pp_Metrics now (flat r)"
    and containers_flat: "containers now r = flat_collect pp_Containers now (flat r)"
begin

text \<open>The state after a sequence of updates, oldest first.\<close>

abbreviation after :: "(time \<times> PushPayload) list \<Rightarrow> 's" where
  "after us \<equiv> fold (\<lambda>(now, p). update now p) us new"

lemma after_inv: "inv (after us)"
  by (induction us rule: rev_induct) (auto simp: new_inv update_inv)

lemma after_hosts: "hosts (after us) = fold (\<lambda>(now, p). put_host now p) us Map.empty"
  by (induction us rule: rev_induct) (auto simp: new_hosts update_hosts after_inv)

lemma metrics_mem:
  "inv s \<Longrightarrow> visits s r \<Longrightarrow>
   x \<in> set (metrics now r) \<longleftrightarrow> (\<exists>h d. hosts s h = Some d \<and> fresh now d \<and> x \<in> set (pp_Metrics (Payload d)))"
  unfolding metrics_flat by (rule flat_collect_mem) (rule visits_range)

lemma containers_mem:
  "inv s \<Longrightarrow> visits s r \<Longrightarrow>
   x \<in> set (containers now r) \<longleftrightarrow> (\<exists>h d. hosts s h = Some d \<and> fresh now d \<and> x \<in> set (pp_Containers (Payload d)))"
  unfolding containers_flat by (rule flat_collect_mem) (rule visits_range)

lemma metrics_order: "inv s \<Longrightarrow> visits s r \<Longrightarrow> visits s r' \<Longrightarrow> mset (metrics now r) = mset (metrics now r')"
  unfolding metrics_flat using flat_collect_mset visits_range by blast

lemma containers_order: "inv s \<Longrightarrow> visits s r \<Longrightarrow> visits s r' \<Longrightarrow> mset (containers now r) = mset (containers now r')"
  unfolding containers_flat using flat_collect_mset visits_range by blast

end

section \<open>\<open>MemoryStore\<close> implements the interface\<close>

definition store_inv :: "MemoryStore \<Rightarrow> bool" where
  "store_inv s \<longleftrightarrow>
     length (shards s) = 16 \<and> shardMask s = 15 \<and>
     (\<forall>i < 16. \<forall>h \<in> dom (shards s ! i). getShard s h = i)"

definition store_hosts :: "MemoryStore \<Rightarrow> string \<rightharpoonup> HostData" where
  "store_hosts s h = (shards s ! getShard s h) h"

definition store_visits :: "MemoryStore \<Rightarrow> host_range list \<Rightarrow> bool" where
  "store_visits s rs \<longleftrightarrow> list_all2 is_range (shards s) rs"

lemma getShard_less: "shardMask s = 15 \<Longrightarrow> getShard s h < 16"
proof -
  assume "shardMask s = 15"
  moreover have "unat (w AND (15 :: 32 word)) < 16" for w
  proof -
    have "unat (w AND (15 :: 32 word)) \<le> unat (15 :: 32 word)" using word_and_le1 word_le_nat_alt by blast
    then show ?thesis by simp
  qed
  ultimately show ?thesis by (simp add: getShard_def)
qed

lemma getShard_mask [simp]: "getShard (s\<lparr>shards := x\<rparr>) h = getShard s h"
  by (simp add: getShard_def)

lemma store_inv_new: "store_inv NewMemoryStore"
  by (simp add: store_inv_def NewMemoryStore_def)

lemma store_hosts_new: "store_hosts NewMemoryStore = Map.empty"
proof
  fix h
  have "getShard NewMemoryStore h < 16" by (rule getShard_less) (simp add: NewMemoryStore_def)
  then show "store_hosts NewMemoryStore h = None"
    by (simp add: store_hosts_def NewMemoryStore_def)
qed

lemma store_inv_update:
  assumes "store_inv s"
  shows "store_inv (UpdateHost now p s)"
proof -
  let ?j = "getShard s (pp_HostID p)"
  have s: "length (shards s) = 16" "shardMask s = 15" using assms by (simp_all add: store_inv_def)
  have old: "getShard s h = i" if "i < 16" "h \<in> dom (shards s ! i)" for i h
    using that assms unfolding store_inv_def by blast
  have new: "shards (UpdateHost now p s) ! i =
      (if i = ?j then put_host now p (shards s ! i) else shards s ! i)" if "i < 16" for i
    using that s by (simp add: UpdateHost_def Let_def put_host_def nth_list_update)
  have "getShard s h = i" if "i < 16" "h \<in> dom (shards (UpdateHost now p s) ! i)" for i h
  proof (cases "i = ?j \<and> h = pp_HostID p")
    case False
    then have "h \<in> dom (shards s ! i)" using that new by (auto simp: put_host_def split: if_splits)
    then show ?thesis using old that by blast
  qed simp
  moreover have "length (shards (UpdateHost now p s)) = 16" "shardMask (UpdateHost now p s) = 15"
    using s by (simp_all add: UpdateHost_def Let_def)
  moreover have "getShard (UpdateHost now p s) h = getShard s h" for h by (simp add: UpdateHost_def Let_def)
  ultimately show ?thesis unfolding store_inv_def by metis
qed

lemma store_hosts_update:
  assumes "store_inv s"
  shows "store_hosts (UpdateHost now p s) = put_host now p (store_hosts s)"
proof
  fix h
  have "getShard s h < length (shards s)" "getShard s (pp_HostID p) < length (shards s)"
    using assms getShard_less by (simp_all add: store_inv_def)
  then show "store_hosts (UpdateHost now p s) h = put_host now p (store_hosts s) h"
    by (auto simp: store_hosts_def UpdateHost_def Let_def put_host_def nth_list_update)
qed

text \<open>Each host lives in the shard of its hash, so a visit of all shards is a visit of the flat map.\<close>

lemma map_of_concat_disjoint:
  assumes "i < length rs" "k \<in> fst ` set (rs ! i)" "\<And>j. j < length rs \<Longrightarrow> j \<noteq> i \<Longrightarrow> k \<notin> fst ` set (rs ! j)"
  shows "map_of (concat rs) k = map_of (rs ! i) k"
  using assms
proof (induction rs arbitrary: i)
  case Nil
  then show ?case by simp
next
  case (Cons r rs)
  show ?case
  proof (cases i)
    case 0
    then show ?thesis using Cons.prems(2) by (auto simp: map_add_def dest: weak_map_of_SomeI split: option.split)
  next
    case (Suc j)
    have "k \<notin> fst ` set r" using Cons.prems(3) [of 0] Suc by simp
    then have "map_of r k = None" by (simp add: map_of_eq_None_iff)
    moreover have "map_of (concat rs) k = map_of (rs ! j) k"
    proof (rule Cons.IH)
      fix l assume "l < length rs" "l \<noteq> j"
      then show "k \<notin> fst ` set (rs ! l)" using Cons.prems(3) [of "Suc l"] Suc by simp
    qed (use Cons.prems Suc in simp_all)
    ultimately show ?thesis using Suc by (simp add: map_add_def split: option.split)
  qed
qed

lemma store_visits_range:
  assumes inv: "store_inv s" and v: "store_visits s rs"
  shows "is_range (store_hosts s) (concat rs)"
proof -
  have len: "length rs = 16" "\<And>i. i < 16 \<Longrightarrow> is_range (shards s ! i) (rs ! i)"
    using v inv by (auto simp: store_visits_def store_inv_def list_all2_conv_all_nth)
  have home: "getShard s h = i" if "i < 16" "h \<in> fst ` set (rs ! i)" for i h
    using that inv is_range_dom [OF len(2)] by (auto simp: store_inv_def)
  have "distinct (map fst (concat rs))"
    using len home by (intro distinct_concat_home [where home = "getShard s"]) (auto dest: is_range_distinct)
  moreover have "map_of (concat rs) h = store_hosts s h" for h
  proof (cases "h \<in> fst ` set (concat rs)")
    case True
    then obtain l where "l \<in> set rs" "h \<in> fst ` set l" by auto
    then obtain i where i: "i < 16" "h \<in> fst ` set (rs ! i)" using len(1) by (metis in_set_conv_nth)
    have "map_of (concat rs) h = map_of (rs ! i) h"
    proof (rule map_of_concat_disjoint)
      fix j assume "j < length rs" "j \<noteq> i"
      then show "h \<notin> fst ` set (rs ! j)" using home [OF i] home [of j h] len(1) by auto
    qed (use i len(1) in simp_all)
    then show ?thesis using len(2) [OF i(1)] home [OF i] by (simp add: is_range_def store_hosts_def)
  next
    case False
    have i: "getShard s h < 16" using inv by (simp add: store_inv_def getShard_less)
    then have "rs ! getShard s h \<in> set rs" using len(1) by simp
    then have "h \<notin> fst ` set (rs ! getShard s h)" using False by auto
    then have "map_of (rs ! getShard s h) h = None" by (simp add: map_of_eq_None_iff)
    then have "store_hosts s h = None" using len(2) [OF i] by (simp add: is_range_def store_hosts_def)
    moreover have "map_of (concat rs) h = None" using False by (simp only: map_of_eq_None_iff not_False_eq_True)
    ultimately show ?thesis by simp
  qed
  ultimately show ?thesis by (auto simp: is_range_def)
qed

lemma shardMetrics_flat: "shardMetrics now r acc = acc @ flat_collect pp_Metrics now r"
  by (induction now r acc rule: shardMetrics.induct) (simp_all add: flat_collect_def fresh_def)

lemma shardContainers_flat: "shardContainers now r acc = acc @ flat_collect pp_Containers now r"
  by (induction now r acc rule: shardContainers.induct) (simp_all add: flat_collect_def fresh_def)

lemma fold_append_collect:
  "(\<And>r acc. f r acc = acc @ flat_collect g now r) \<Longrightarrow> fold f rs acc = acc @ flat_collect g now (concat rs)"
  by (induction rs arbitrary: acc) (simp_all add: flat_collect_def)

lemma GetAllMetrics_flat: "GetAllMetrics now rs = flat_collect pp_Metrics now (concat rs)"
  unfolding GetAllMetrics_def by (subst fold_append_collect [OF shardMetrics_flat]) simp

lemma GetAllContainers_flat: "GetAllContainers now rs = flat_collect pp_Containers now (concat rs)"
  unfolding GetAllContainers_def by (subst fold_append_collect [OF shardContainers_flat]) simp

interpretation mem: cluster_store store_inv store_hosts NewMemoryStore UpdateHost store_visits concat
  GetAllMetrics GetAllContainers
  by unfold_locales
    (simp_all add: store_inv_new store_hosts_new store_inv_update store_hosts_update store_visits_range
      GetAllMetrics_flat GetAllContainers_flat)

section \<open>Properties\<close>

text \<open>The last update that named a host.\<close>

definition last_push :: "(time \<times> PushPayload) list \<Rightarrow> string \<Rightarrow> (time \<times> PushPayload) option" where
  "last_push us h = List.find (\<lambda>(t, p). pp_HostID p = h) (rev us)"

definition pushed :: "(time \<times> PushPayload) list \<Rightarrow> MemoryStore" where
  "pushed us = fold (\<lambda>(now, p). UpdateHost now p) us NewMemoryStore"

definition host_data :: "time \<times> PushPayload \<Rightarrow> HostData" where
  "host_data x = \<lparr>LastUpdate = fst x, Payload = snd x\<rparr>"

lemma fold_put_host: "fold (\<lambda>(now, p). put_host now p) us Map.empty h = map_option host_data (last_push us h)"
  by (induction us rule: rev_induct) (auto simp: last_push_def put_host_def host_data_def)

lemma pushed_hosts: "store_hosts (pushed us) = map_option host_data \<circ> last_push us"
  using mem.after_hosts [of us] by (auto simp: pushed_def fun_eq_iff fold_put_host)

lemma pushed_inv: "store_inv (pushed us)"
  using mem.after_inv by (simp add: pushed_def)

lemma flat_collect_sum:
  assumes "is_range m r"
  shows "mset (flat_collect f now r) =
         (\<Sum>h \<in> dom m. if fresh now (the (m h)) then mset (f (Payload (the (m h)))) else {#})"
proof -
  let ?g = "\<lambda>h. if fresh now (the (m h)) then mset (f (Payload (the (m h)))) else {#}"
  have "mset (flat_collect f now r) = sum_list (map (\<lambda>(h, d). if fresh now d then mset (f (Payload d)) else {#}) r)"
    unfolding flat_collect_def by (induction r) auto
  also have "map (\<lambda>(h, d). if fresh now d then mset (f (Payload d)) else {#}) r = map ?g (map fst r)"
    using is_range_mem [OF assms] by auto
  also have "sum_list (map ?g (map fst r)) = (\<Sum>h \<in> set (map fst r). ?g h)"
    using is_range_distinct [OF assms] by (rule sum_list_distinct_conv_sum_set)
  also have "set (map fst r) = dom m" using is_range_dom [OF assms] by simp
  finally show ?thesis .
qed

lemma pushed_collect:
  assumes "store_visits (pushed us) rs"
  shows "mset (flat_collect f now (concat rs)) =
     (\<Sum>h \<in> dom (last_push us). case last_push us h of
         Some (t, p) \<Rightarrow> if time_sub now t \<le> 30 * second then mset (f p) else {#} | None \<Rightarrow> {#})"
proof -
  have dom: "dom (store_hosts (pushed us)) = dom (last_push us)" by (auto simp: pushed_hosts)
  show ?thesis
    unfolding flat_collect_sum [OF mem.visits_range [OF pushed_inv assms]] dom
    by (rule sum.cong) (auto simp: pushed_hosts host_data_def fresh_def)
qed

text \<open>
  C8: the sharded store is one map from host to last snapshot. After any sequence of updates the
  metrics it returns are, as a multiset, those of the last update of each host that is at most
  thirty seconds old; the same holds for the containers. Neither the hash nor the visiting order matters.
\<close>

theorem store_returns_fresh_snapshots:
  assumes "store_visits (pushed us) rs"
  shows "mset (GetAllMetrics now rs) =
     (\<Sum>h \<in> dom (last_push us). case last_push us h of
         Some (t, p) \<Rightarrow> if time_sub now t \<le> 30 * second then mset (pp_Metrics p) else {#} | None \<Rightarrow> {#})
   \<and> mset (GetAllContainers now rs) =
     (\<Sum>h \<in> dom (last_push us). case last_push us h of
         Some (t, p) \<Rightarrow> if time_sub now t \<le> 30 * second then mset (pp_Containers p) else {#} | None \<Rightarrow> {#})"
  unfolding GetAllMetrics_flat GetAllContainers_flat by (intro conjI pushed_collect [OF assms])

definition ex_metric :: "string \<Rightarrow> string \<Rightarrow> ContainerMetrics" where
  "ex_metric host cid = \<lparr>cm_HostID = host, cm_ContainerID = cid, cm_ContainerName = ''web'', cm_Image = ''nginx'',
     cm_CPUPercent = Fin 5, cm_MemoryUsage = 0, cm_MemoryLimit = 0, cm_MemoryPercent = Fin 0,
     cm_NetworkRx = 0, cm_NetworkTx = 0, cm_BlockRead = 0, cm_BlockWrite = 0\<rparr>"

definition ex_payload :: "string \<Rightarrow> string \<Rightarrow> PushPayload" where
  "ex_payload host cid = \<lparr>pp_HostID = host, pp_Containers = [], pp_Metrics = [ex_metric host cid]\<rparr>"

lemma ex_getShard: "shardMask s = 15 \<Longrightarrow> getShard s ''h1'' = 2"
  by (simp add: getShard_def)

theorem store_returns_fresh_snapshots_witness:
  "mset (GetAllMetrics second ((replicate 2 []) @ [(''h1'', host_data (0, ex_payload ''h1'' ''c1''))] # replicate 13 []))
   = {#ex_metric ''h1'' ''c1''#}"
proof -
  let ?us = "[(0, ex_payload ''h1'' ''c1'')]"
    and ?rs = "(replicate 2 []) @ [(''h1'', host_data (0, ex_payload ''h1'' ''c1''))] # replicate 13 []"
  have h: "pp_HostID (ex_payload ''h1'' ''c1'') = ''h1''" by (simp add: ex_payload_def)
  have "shards (pushed ?us) = (replicate 16 Map.empty)[2 := [''h1'' \<mapsto> host_data (0, ex_payload ''h1'' ''c1'')]]"
    by (simp add: pushed_def UpdateHost_def Let_def ex_getShard h host_data_def NewMemoryStore_def)
  then have "store_visits (pushed ?us) ?rs"
    by (simp add: store_visits_def numeral_eq_Suc is_range_def)
  moreover have "last_push ?us = [''h1'' \<mapsto> (0, ex_payload ''h1'' ''c1'')]"
    by (auto simp: last_push_def h)
  ultimately show ?thesis
    using store_returns_fresh_snapshots [of ?us ?rs second]
    by (simp add: time_sub_def duration_defs ex_payload_def)
qed

end
