(* ===== verification/Receiver.thy ===== *)
theory Receiver
  imports Crypto Store
begin

text \<open>
  \<^verbatim>\<open>internal/cluster/receiver.go\<close>, the transport half: the HTTP handler of the leader. It works on any
  \<open>ClusterStore\<close>: \<open>ServeHTTP\<close> takes the store's update operation as an argument, its lemmas are
  proved from the laws of the locale \<open>cluster_store\<close>, and the properties use the interpretation on
  \<open>MemoryStore\<close>. Gzip and the JSON codec are the record \<open>wire\<close>.
\<close>

section \<open>The code\<close>

text \<open>
  A request body behind a size limit is a stream: the bytes that can be read, and whether reading
  further fails (\<open>True\<close>) or reaches the end (\<open>False\<close>).
\<close>

type_synonym stream = "string \<times> bool"

text \<open>
  \<open>w_gunzip\<close> is \<open>gzip.NewReader\<close> followed by \<open>io.ReadAll\<close>: the outer error is the first call's, the
  inner one the second's.
\<close>

record 'r wire =
  w_crypto :: "'r crypto"
  w_gzip :: "string \<Rightarrow> string"
  w_gunzip :: "stream \<Rightarrow> error + (error + string)"
  w_marshal :: "PushPayload \<Rightarrow> error + string"
  w_unmarshal :: "string \<Rightarrow> error + PushPayload"

record Request =
  rq_Method :: string
  rq_Header :: "string \<Rightarrow> string"
  rq_Body :: string

record Response =
  rs_Status :: int
  rs_Body :: string

record Receiver =
  rc_sharedSecret :: string
  rc_token :: string

definition NewReceiver :: "string \<Rightarrow> string \<Rightarrow> Receiver" where
  "NewReceiver secret token = \<lparr>rc_sharedSecret = secret, rc_token = token\<rparr>"

definition http_error :: "string \<Rightarrow> int \<Rightarrow> Response" where
  "http_error msg code = \<lparr>rs_Status = code, rs_Body = msg @ [CHR 0x0A]\<rparr>"

definition body_limit :: nat where "body_limit = 5 * 1024 * 1024"

definition maxBytesReader :: "string \<Rightarrow> stream" where
  "maxBytesReader body = (take body_limit body, length body > body_limit)"

definition readAll :: "stream \<Rightarrow> error + string" where
  "readAll s = (if snd s then Inl ''http: request body too large'' else Inr (fst s))"

definition ServeHTTP ::
  "(time \<Rightarrow> PushPayload \<Rightarrow> 's \<Rightarrow> 's) \<Rightarrow> 'r wire \<Rightarrow> Receiver \<Rightarrow> time \<Rightarrow> Request \<Rightarrow> 's \<Rightarrow> Response \<times> 's" where
  "ServeHTTP update w r now req store =
     (if rq_Method req \<noteq> ''POST'' then (http_error ''Method not allowed'' 405, store)
      else
        let authHeader = rq_Header req ''Authorization''
        in if rc_token r \<noteq> '''' \<and> (authHeader = '''' \<or> \<not> has_prefix authHeader ''Bearer '') then
             (http_error ''Unauthorized'' 401, store)
           else if rc_token r \<noteq> '''' \<and> trim_prefix authHeader ''Bearer '' \<noteq> rc_token r then
             (http_error ''Unauthorized'' 401, store)
           else
             let limited = maxBytesReader (rq_Body req);
                 opened = (if rq_Header req ''Content-Encoding'' = ''gzip'' then w_gunzip w limited
                           else Inr (readAll limited))
             in case opened of
                  Inl err \<Rightarrow> (http_error ''Bad Request'' 400, store)
                | Inr (Inl err) \<Rightarrow> (http_error ''Bad Request'' 400, store)
                | Inr (Inr body) \<Rightarrow>
                    let isEncrypted = (rq_Header req ''X-CastleRock-Encrypted'' = ''true'')
                    in if rc_sharedSecret r \<noteq> '''' \<and> \<not> isEncrypted then
                         (http_error ''Forbidden'' 403, store)
                       else
                         let decrypted = (if rc_sharedSecret r \<noteq> '''' then Decrypt (w_crypto w) body (rc_sharedSecret r)
                                          else Inr body)
                         in case decrypted of
                              Inl err \<Rightarrow> (http_error ''Forbidden'' 403, store)
                            | Inr body \<Rightarrow>
                                (case w_unmarshal w body of
                                   Inl err \<Rightarrow> (http_error ''Bad Request'' 400, store)
                                 | Inr payload \<Rightarrow>
                                     if pp_HostID payload = '''' then (http_error ''Missing HostID'' 400, store)
                                     else (\<lparr>rs_Status = 202, rs_Body = ''''\<rparr>, update now payload store)))"

section \<open>What a request must satisfy\<close>

definition authorised :: "Receiver \<Rightarrow> Request \<Rightarrow> bool" where
  "authorised r req \<longleftrightarrow> rc_token r = '''' \<or> rq_Header req ''Authorization'' = ''Bearer '' @ rc_token r"

definition body_of :: "'r wire \<Rightarrow> Request \<Rightarrow> string \<Rightarrow> bool" where
  "body_of w req body \<longleftrightarrow>
     (if rq_Header req ''Content-Encoding'' = ''gzip''
      then w_gunzip w (maxBytesReader (rq_Body req)) = Inr (Inr body)
      else length (rq_Body req) \<le> body_limit \<and> body = rq_Body req)"

definition plain_of :: "'r wire \<Rightarrow> Receiver \<Rightarrow> Request \<Rightarrow> string \<Rightarrow> string \<Rightarrow> bool" where
  "plain_of w r req body plain \<longleftrightarrow>
     (if rc_sharedSecret r = '''' then plain = body
      else rq_Header req ''X-CastleRock-Encrypted'' = ''true'' \<and>
           Decrypt (w_crypto w) body (rc_sharedSecret r) = Inr plain)"

definition valid_push :: "'r wire \<Rightarrow> Receiver \<Rightarrow> Request \<Rightarrow> PushPayload \<Rightarrow> bool" where
  "valid_push w r req p \<longleftrightarrow>
     rq_Method req = ''POST'' \<and> authorised r req \<and> pp_HostID p \<noteq> '''' \<and>
     (\<exists>body plain. body_of w req body \<and> plain_of w r req body plain \<and> w_unmarshal w plain = Inr p)"

lemma authorised_iff:
  "authorised r req \<longleftrightarrow>
     \<not> (rc_token r \<noteq> '''' \<and> (rq_Header req ''Authorization'' = '''' \<or> \<not> has_prefix (rq_Header req ''Authorization'') ''Bearer '')) \<and>
     \<not> (rc_token r \<noteq> '''' \<and> trim_prefix (rq_Header req ''Authorization'') ''Bearer '' \<noteq> rc_token r)"
proof -
  have "h = ''Bearer '' @ t \<longleftrightarrow> h \<noteq> '''' \<and> has_prefix h ''Bearer '' \<and> trim_prefix h ''Bearer '' = t" for h t :: string
  proof
    assume "h = ''Bearer '' @ t"
    then show "h \<noteq> '''' \<and> has_prefix h ''Bearer '' \<and> trim_prefix h ''Bearer '' = t"
      using has_prefix_append [of "''Bearer ''" t] trim_prefix_append [of "''Bearer ''" t] by simp
  next
    assume h: "h \<noteq> '''' \<and> has_prefix h ''Bearer '' \<and> trim_prefix h ''Bearer '' = t"
    then obtain u where "h = ''Bearer '' @ u" by (auto simp only: has_prefix_iff)
    then show "h = ''Bearer '' @ t" using h trim_prefix_append [of "''Bearer ''" u] by simp
  qed
  then show ?thesis unfolding authorised_def by blast
qed

text \<open>The handler, phase by phase: each phase either answers or hands its result to the next.\<close>

definition opened_body :: "'r wire \<Rightarrow> Request \<Rightarrow> error + (error + string)" where
  "opened_body w req =
     (let limited = maxBytesReader (rq_Body req)
      in if rq_Header req ''Content-Encoding'' = ''gzip'' then w_gunzip w limited else Inr (readAll limited))"

lemma opened_body_iff: "opened_body w req = Inr (Inr body) \<longleftrightarrow> body_of w req body"
  by (auto simp: opened_body_def body_of_def Let_def readAll_def maxBytesReader_def)

lemma serve_method: "rq_Method req \<noteq> ''POST'' \<Longrightarrow> ServeHTTP upd w r now req st = (http_error ''Method not allowed'' 405, st)"
  by (simp add: ServeHTTP_def)

lemma serve_auth:
  assumes "rq_Method req = ''POST''" "\<not> authorised r req"
  shows "ServeHTTP upd w r now req st = (http_error ''Unauthorized'' 401, st)"
proof -
  let ?h = "rq_Header req ''Authorization''"
  consider "rc_token r \<noteq> '''' \<and> (?h = '''' \<or> \<not> has_prefix ?h ''Bearer '')"
    | "rc_token r \<noteq> '''' \<and> trim_prefix ?h ''Bearer '' \<noteq> rc_token r"
    using assms(2) unfolding authorised_iff by blast
  then show ?thesis using assms(1) by cases (simp_all add: ServeHTTP_def Let_def)
qed

lemma serve_body:
  assumes "rq_Method req = ''POST''" "authorised r req"
  shows "ServeHTTP upd w r now req st =
     (case opened_body w req of
        Inl err \<Rightarrow> (http_error ''Bad Request'' 400, st)
      | Inr (Inl err) \<Rightarrow> (http_error ''Bad Request'' 400, st)
      | Inr (Inr body) \<Rightarrow>
          if rc_sharedSecret r \<noteq> '''' \<and> rq_Header req ''X-CastleRock-Encrypted'' \<noteq> ''true'' then
            (http_error ''Forbidden'' 403, st)
          else (case (if rc_sharedSecret r \<noteq> '''' then Decrypt (w_crypto w) body (rc_sharedSecret r) else Inr body) of
              Inl err \<Rightarrow> (http_error ''Forbidden'' 403, st)
            | Inr body \<Rightarrow>
                (case w_unmarshal w body of
                   Inl err \<Rightarrow> (http_error ''Bad Request'' 400, st)
                 | Inr payload \<Rightarrow>
                     if pp_HostID payload = '''' then (http_error ''Missing HostID'' 400, st)
                     else (\<lparr>rs_Status = 202, rs_Body = ''''\<rparr>, upd now payload st))))"
proof -
  have "\<not> (rc_token r \<noteq> '''' \<and> (rq_Header req ''Authorization'' = '''' \<or> \<not> has_prefix (rq_Header req ''Authorization'') ''Bearer ''))"
    "\<not> (rc_token r \<noteq> '''' \<and> trim_prefix (rq_Header req ''Authorization'') ''Bearer '' \<noteq> rc_token r)"
    using assms(2) unfolding authorised_iff by blast+
  then show ?thesis
    using assms(1) unfolding ServeHTTP_def opened_body_def Let_def by (simp only: if_False not_not simp_thms)
qed

lemma serve_not_body:
  assumes "rq_Method req = ''POST''" "authorised r req" "\<nexists>body. body_of w req body"
  shows "ServeHTTP upd w r now req st = (http_error ''Bad Request'' 400, st)"
  using assms(3) unfolding serve_body [OF assms(1,2)] opened_body_iff [symmetric]
  by (auto split: sum.splits)

lemma serve_not_plain:
  assumes "rq_Method req = ''POST''" "authorised r req" "body_of w req body" "\<nexists>plain. plain_of w r req body plain"
  shows "ServeHTTP upd w r now req st = (http_error ''Forbidden'' 403, st)"
  using assms(3,4) unfolding serve_body [OF assms(1,2)] opened_body_iff [symmetric] plain_of_def
  by (auto split: sum.splits if_splits)

lemma serve_plain:
  assumes "rq_Method req = ''POST''" "authorised r req" "body_of w req body" "plain_of w r req body plain"
  shows "ServeHTTP upd w r now req st =
     (case w_unmarshal w plain of
        Inl err \<Rightarrow> (http_error ''Bad Request'' 400, st)
      | Inr payload \<Rightarrow>
          if pp_HostID payload = '''' then (http_error ''Missing HostID'' 400, st)
          else (\<lparr>rs_Status = 202, rs_Body = ''''\<rparr>, upd now payload st))"
  using assms(3,4) unfolding serve_body [OF assms(1,2)] opened_body_iff [symmetric] plain_of_def
  by (auto split: if_splits)

lemma body_of_unique: "body_of w req b \<Longrightarrow> body_of w req b' \<Longrightarrow> b = b'"
  by (auto simp: body_of_def split: if_splits)

lemma plain_of_unique: "plain_of w r req b p \<Longrightarrow> plain_of w r req b p' \<Longrightarrow> p = p'"
  by (auto simp: plain_of_def split: if_splits)

text \<open>The handler answers 202 and updates the store for a valid push, and otherwise does neither.\<close>

lemma serve_valid:
  assumes "valid_push w r req p"
  shows "ServeHTTP upd w r now req st = (\<lparr>rs_Status = 202, rs_Body = ''''\<rparr>, upd now p st)"
proof -
  obtain body plain where b: "rq_Method req = ''POST''" "authorised r req" "body_of w req body"
      "plain_of w r req body plain" "w_unmarshal w plain = Inr p" "pp_HostID p \<noteq> ''''"
    using assms unfolding valid_push_def by blast
  show ?thesis using serve_plain [OF b(1-4)] b(5,6) by simp
qed

lemma http_error_status [simp]: "rs_Status (http_error msg code) = code"
  by (simp add: http_error_def)

lemma serve_invalid:
  assumes "\<nexists>p. valid_push w r req p"
  shows "snd (ServeHTTP upd w r now req st) = st \<and> rs_Status (fst (ServeHTTP upd w r now req st)) \<in> {400, 401, 403, 405}"
proof (cases "rq_Method req = ''POST'' \<and> authorised r req")
  case False
  then show ?thesis by (cases "rq_Method req = ''POST''") (simp_all add: serve_method serve_auth)
next
  case m: True
  show ?thesis
  proof (cases "\<exists>body. body_of w req body")
    case False
    then show ?thesis using m by (simp add: serve_not_body)
  next
    case True
    then obtain body where b: "body_of w req body" ..
    show ?thesis
    proof (cases "\<exists>plain. plain_of w r req body plain")
      case False
      then show ?thesis using m b by (simp add: serve_not_plain [of req r w body])
    next
      case True
      then obtain plain where p: "plain_of w r req body plain" ..
      have "pp_HostID payload = ''''" if "w_unmarshal w plain = Inr payload" for payload
        using assms m b p that unfolding valid_push_def by blast
      then show ?thesis using m b p by (auto simp: serve_plain [of req r w body plain] split: sum.splits)
    qed
  qed
qed

lemma valid_push_unique: "valid_push w r req p \<Longrightarrow> valid_push w r req q \<Longrightarrow> p = q"
  unfolding valid_push_def using body_of_unique plain_of_unique by (metis Inr_inject)

section \<open>A run of the receiver\<close>

text \<open>The requests the leader served, oldest first, and the pushes among them that were accepted.\<close>

fun serve_all ::
  "(time \<Rightarrow> PushPayload \<Rightarrow> 's \<Rightarrow> 's) \<Rightarrow> 'r wire \<Rightarrow> Receiver \<Rightarrow> (time \<times> Request) list \<Rightarrow> 's \<Rightarrow> 's" where
  "serve_all upd w r [] st = st"
| "serve_all upd w r ((now, req) # reqs) st = serve_all upd w r reqs (snd (ServeHTTP upd w r now req st))"

inductive is_accepted :: "'r wire \<Rightarrow> Receiver \<Rightarrow> (time \<times> Request) list \<Rightarrow> (time \<times> PushPayload) list \<Rightarrow> bool"
  for w r where
  accepted_Nil: "is_accepted w r [] []"
| accepted_push: "valid_push w r req p \<Longrightarrow> is_accepted w r reqs us \<Longrightarrow> is_accepted w r ((now, req) # reqs) ((now, p) # us)"
| accepted_skip: "\<nexists>p. valid_push w r req p \<Longrightarrow> is_accepted w r reqs us \<Longrightarrow> is_accepted w r ((now, req) # reqs) us"

lemma is_accepted_ex: "\<exists>us. is_accepted w r reqs us"
proof (induction reqs)
  case (Cons x reqs)
  obtain now req where x: "x = (now, req)" by (cases x)
  from Cons show ?case
    unfolding x by (cases "\<exists>p. valid_push w r req p") (blast intro: accepted_push accepted_skip)+
qed (blast intro: accepted_Nil)

lemma serve_all_fold:
  "is_accepted w r reqs us \<Longrightarrow> serve_all upd w r reqs st = fold (\<lambda>(now, p). upd now p) us st"
  by (induction arbitrary: st rule: is_accepted.induct) (simp_all add: serve_valid serve_invalid)

lemma is_accepted_mem:
  "is_accepted w r reqs us \<Longrightarrow> (t, p) \<in> set us \<Longrightarrow> \<exists>req. (t, req) \<in> set reqs \<and> valid_push w r req p"
  by (induction rule: is_accepted.induct) auto

context cluster_store
begin

lemma served_hosts:
  assumes "is_accepted w r reqs us"
  shows "hosts (serve_all update w r reqs new) = fold (\<lambda>(now, p). put_host now p) us Map.empty"
  unfolding serve_all_fold [OF assms] after_hosts ..

lemma served_inv: "inv (serve_all update w r reqs new)"
  using is_accepted_ex [of w r reqs] serve_all_fold [of w r reqs _ update new] after_inv by metis

lemma served_metrics:
  assumes "visits (serve_all update w r reqs new) rs" "x \<in> set (metrics now rs)"
  obtains t req p where "(t, req) \<in> set reqs" "valid_push w r req p" "x \<in> set (pp_Metrics p)"
    "time_sub now t \<le> 30 * second"
proof -
  obtain us where us: "is_accepted w r reqs us" using is_accepted_ex by blast
  obtain h d where d: "hosts (serve_all update w r reqs new) h = Some d" "fresh now d" "x \<in> set (pp_Metrics (Payload d))"
    using metrics_mem [OF served_inv assms(1)] assms(2) by blast
  have "\<exists>(t, p) \<in> set us. d = \<lparr>LastUpdate = t, Payload = p\<rparr>"
    if "fold (\<lambda>(now, p). put_host now p) us Map.empty h = Some d" for us
    using that by (induction us rule: rev_induct) (auto simp: put_host_def split: if_splits)
  then obtain t p where tp: "(t, p) \<in> set us" "d = \<lparr>LastUpdate = t, Payload = p\<rparr>"
    using d(1) unfolding served_hosts [OF us] by blast
  have "\<exists>req. (t, req) \<in> set reqs \<and> valid_push w r req p"
    using is_accepted_mem [OF us tp(1)] .
  then show thesis using that d tp(2) by (auto simp: fresh_def)
qed

end

section \<open>Properties\<close>

text \<open>A concrete wire for the witnesses.\<close>

definition ex_wire :: "nat wire" where
  "ex_wire = \<lparr>w_crypto = ex_crypto, w_gzip = (\<lambda>d. CHR ''z'' # d),
     w_gunzip = (\<lambda>(b, cut). if cut then Inr (Inl ''http: request body too large'')
                   else (case b of [] \<Rightarrow> Inl ''EOF'' | c # d \<Rightarrow> Inr (Inr d))),
     w_marshal = (\<lambda>p. Inr (pp_HostID p)), w_unmarshal = (\<lambda>s. Inr (ex_payload s ''c1''))\<rparr>"

definition ex_request :: "string \<Rightarrow> string \<Rightarrow> string \<Rightarrow> Request" where
  "ex_request auth enc body = \<lparr>rq_Method = ''POST'',
     rq_Header = (\<lambda>n. if n = ''Authorization'' then auth else if n = ''X-CastleRock-Encrypted'' then enc else ''''),
     rq_Body = body\<rparr>"

lemma ex_valid_push: "valid_push ex_wire (NewReceiver '''' ''tok'') (ex_request ''Bearer tok'' '''' ''h1'') (ex_payload ''h1'' ''c1'')"
  by (auto simp: valid_push_def authorised_def body_of_def plain_of_def NewReceiver_def ex_request_def ex_wire_def
      ex_payload_def body_limit_def)

text \<open>
  C4: the leader's store changes exactly when the answer is 202. A request is accepted if and only
  if it is a POST with the right token whose body can be read within the limit, decrypts when a
  secret is set, decodes, and names its host; then the decoded payload is stored. Every other request
  is answered with an error and leaves the store as it was.
\<close>

theorem receiver_accepts_exactly_valid_pushes:
  "(rs_Status (fst (ServeHTTP UpdateHost w r now req st)) = 202 \<longleftrightarrow> (\<exists>p. valid_push w r req p)) \<and>
   (case ServeHTTP UpdateHost w r now req st of (resp, st') \<Rightarrow>
      if rs_Status resp = 202 then \<exists>p. valid_push w r req p \<and> st' = UpdateHost now p st else st' = st)"
proof (cases "\<exists>p. valid_push w r req p")
  case True
  then obtain p where "valid_push w r req p" ..
  then show ?thesis by (auto simp: serve_valid)
next
  case False
  from serve_invalid [OF this, of UpdateHost now st] False show ?thesis by (auto split: prod.split)
qed

text \<open>
  C24: the answers in order of precedence: 405 for another method, 401 without the token, 400 for a
  body that cannot be read (or is over the limit), 403 for a body that is not encrypted with the
  shared secret, 400 for a payload that does not decode or has no host.
\<close>

theorem receiver_error_precedence:
  "ServeHTTP UpdateHost w r now req st =
     (if rq_Method req \<noteq> ''POST'' then (http_error ''Method not allowed'' 405, st)
      else if \<not> authorised r req then (http_error ''Unauthorized'' 401, st)
      else if \<nexists>body. body_of w req body then (http_error ''Bad Request'' 400, st)
      else if \<nexists>body plain. body_of w req body \<and> plain_of w r req body plain then (http_error ''Forbidden'' 403, st)
      else (case w_unmarshal w (THE plain. \<exists>body. body_of w req body \<and> plain_of w r req body plain) of
              Inl err \<Rightarrow> (http_error ''Bad Request'' 400, st)
            | Inr p \<Rightarrow> if pp_HostID p = '''' then (http_error ''Missing HostID'' 400, st)
                       else (\<lparr>rs_Status = 202, rs_Body = ''''\<rparr>, UpdateHost now p st)))"
proof -
  have the: "(THE plain. \<exists>body. body_of w req body \<and> plain_of w r req body plain) = plain"
    if "body_of w req body" "plain_of w r req body plain" for body plain
  proof (rule the_equality)
    fix q assume "\<exists>body. body_of w req body \<and> plain_of w r req body q"
    then obtain b where "body_of w req b" "plain_of w r req b q" by blast
    then show "q = plain" using that body_of_unique [of w req b body] plain_of_unique [of w r req body q plain] by simp
  qed (use that in blast)
  consider "rq_Method req \<noteq> ''POST''" | "rq_Method req = ''POST''" "\<not> authorised r req"
    | "rq_Method req = ''POST''" "authorised r req" "\<nexists>body. body_of w req body"
    | body where "rq_Method req = ''POST''" "authorised r req" "body_of w req body" "\<nexists>plain. plain_of w r req body plain"
    | body plain where "rq_Method req = ''POST''" "authorised r req" "body_of w req body" "plain_of w r req body plain"
    by blast
  then show ?thesis
  proof cases
    case (4 body)
    then have "\<nexists>body plain. body_of w req body \<and> plain_of w r req body plain" using body_of_unique [OF 4(3)] by blast
    then show ?thesis using 4 by (auto simp: serve_not_plain)
  next
    case (5 body plain)
    then show ?thesis unfolding serve_plain [OF 5] the [OF 5(3,4)] by auto
  qed (simp_all add: serve_method serve_auth serve_not_body)
qed

text \<open>
  C10: with a token and a secret configured, nothing enters the store without both: an accepted
  request carried the exact bearer token, was marked as encrypted, and its body was an envelope
  sealed under the shared secret around the stored payload.
\<close>

theorem receiver_requires_credentials:
  assumes "crypto_ok (w_crypto w)" "rc_token r \<noteq> ''''" "rc_sharedSecret r \<noteq> ''''"
    and "rs_Status (fst (ServeHTTP UpdateHost w r now req st)) = 202"
  shows "rq_Header req ''Authorization'' = ''Bearer '' @ rc_token r
       \<and> rq_Header req ''X-CastleRock-Encrypted'' = ''true''
       \<and> (\<exists>p body plain salt nonce. body_of w req body \<and> envelope (w_crypto w) (rc_sharedSecret r) plain salt nonce body \<and>
            w_unmarshal w plain = Inr p \<and> snd (ServeHTTP UpdateHost w r now req st) = UpdateHost now p st)"
proof -
  obtain p where p: "valid_push w r req p" using serve_invalid [of w r req UpdateHost now st] assms(4) by auto
  then obtain body plain where b: "authorised r req" "body_of w req body" "plain_of w r req body plain" "w_unmarshal w plain = Inr p"
    unfolding valid_push_def by blast
  obtain salt nonce where "envelope (w_crypto w) (rc_sharedSecret r) plain salt nonce body"
    using b(3) assms(3) Decrypt_iff [OF assms(1)] by (auto simp: plain_of_def)
  moreover have "rq_Header req ''X-CastleRock-Encrypted'' = ''true''" "rq_Header req ''Authorization'' = ''Bearer '' @ rc_token r"
    using b(1,3) assms(2,3) by (auto simp: plain_of_def authorised_def)
  moreover have "snd (ServeHTTP UpdateHost w r now req st) = UpdateHost now p st" by (simp add: serve_valid [OF p])
  ultimately show ?thesis using b(2,4) by blast
qed

definition ex_sealed :: string where
  "ex_sealed = replicate 16 (CHR ''0'') @ replicate 12 (CHR ''1'') @ replicate 12 (CHR ''1'') @ ''1h''"

theorem receiver_requires_credentials_witness:
  "\<exists>p body plain salt nonce. body_of ex_wire (ex_request ''Bearer tok'' ''true'' ex_sealed) body \<and>
     envelope ex_crypto ''s'' plain salt nonce body \<and> w_unmarshal ex_wire plain = Inr p \<and>
     snd (ServeHTTP UpdateHost ex_wire (NewReceiver ''s'' ''tok'') 0 (ex_request ''Bearer tok'' ''true'' ex_sealed) NewMemoryStore)
       = UpdateHost 0 p NewMemoryStore"
proof -
  have d: "Decrypt ex_crypto ex_sealed ''s'' = Inr ''h1''" by code_simp
  have "valid_push ex_wire (NewReceiver ''s'' ''tok'') (ex_request ''Bearer tok'' ''true'' ex_sealed) (ex_payload ''h1'' ''c1'')"
    unfolding valid_push_def using d
    by (auto simp: authorised_def body_of_def plain_of_def NewReceiver_def ex_request_def ex_wire_def ex_payload_def
        body_limit_def ex_sealed_def)
  then have s: "rs_Status (fst (ServeHTTP UpdateHost ex_wire (NewReceiver ''s'' ''tok'') 0
      (ex_request ''Bearer tok'' ''true'' ex_sealed) NewMemoryStore)) = 202" by (simp add: serve_valid)
  have c: "crypto_ok (w_crypto ex_wire)" "w_crypto ex_wire = ex_crypto" by (simp_all add: ex_wire_def ex_crypto_ok)
  have r: "rc_token (NewReceiver ''s'' ''tok'') \<noteq> ''''" "rc_sharedSecret (NewReceiver ''s'' ''tok'') \<noteq> ''''"
    "rc_sharedSecret (NewReceiver ''s'' ''tok'') = ''s''" by (simp_all add: NewReceiver_def)
  show ?thesis using receiver_requires_credentials [OF c(1) r(1,2) s] unfolding c(2) r(3) by blast
qed

text \<open>
  Whatever the leader was sent, what it shows is trustworthy: after any sequence of requests,
  every metric returned by the store was in a valid push received at most thirty seconds ago.
\<close>

theorem leader_shows_only_accepted_metrics:
  assumes "store_visits (serve_all UpdateHost w r reqs NewMemoryStore) rs" "x \<in> set (GetAllMetrics now rs)"
  shows "\<exists>(t, req) \<in> set reqs. \<exists>p. valid_push w r req p \<and> x \<in> set (pp_Metrics p) \<and> time_sub now t \<le> 30 * second"
  using mem.served_metrics [OF assms] by blast

theorem leader_shows_only_accepted_metrics_witness:
  "\<exists>(t, req) \<in> set [(0, ex_request ''Bearer tok'' '''' ''h1''), (1, ex_request '''' '''' ''h2'')].
     \<exists>p. valid_push ex_wire (NewReceiver '''' ''tok'') req p \<and> ex_metric ''h1'' ''c1'' \<in> set (pp_Metrics p) \<and>
         time_sub second t \<le> 30 * second"
proof -
  let ?r = "NewReceiver '''' ''tok''"
    and ?reqs = "[(0, ex_request ''Bearer tok'' '''' ''h1''), (1, ex_request '''' '''' ''h2'')]"
    and ?rs = "replicate 2 [] @ [(''h1'', \<lparr>LastUpdate = 0, Payload = ex_payload ''h1'' ''c1''\<rparr>)] # replicate 13 []"
  have "\<nexists>p. valid_push ex_wire ?r (ex_request '''' '''' ''h2'') p"
    by (simp add: valid_push_def authorised_def ex_request_def NewReceiver_def)
  then have "serve_all UpdateHost ex_wire ?r ?reqs NewMemoryStore = UpdateHost 0 (ex_payload ''h1'' ''c1'') NewMemoryStore"
    by (simp add: serve_valid [OF ex_valid_push] serve_invalid)
  moreover have "store_visits (UpdateHost 0 (ex_payload ''h1'' ''c1'') NewMemoryStore) ?rs"
    by (simp add: store_visits_def UpdateHost_def Let_def ex_getShard ex_payload_def NewMemoryStore_def numeral_eq_Suc is_range_def)
  moreover have "ex_metric ''h1'' ''c1'' \<in> set (GetAllMetrics second ?rs)"
    by (simp add: GetAllMetrics_flat flat_collect_def fresh_def time_sub_def duration_defs ex_payload_def)
  ultimately show ?thesis
    using leader_shows_only_accepted_metrics [of ex_wire ?r ?reqs ?rs "ex_metric ''h1'' ''c1''" second] by simp
qed

end
