(* ===== verification/Config.thy ===== *)
theory Config
  imports Models
begin

text \<open>
  \<^verbatim>\<open>internal/config/config.go\<close>: the configuration record, its defaults, the environment overrides
  and \<open>Load\<close>. The environment is a function from names to values with \<open>os.Getenv\<close>'s empty string
  for an unset name; the file read, the YAML decoder, the host name and the two parsers of
  durations and floats are parameters.
\<close>

section \<open>The configuration records\<close>

record PruneConfig =
  pr_Enabled :: bool
  pr_TriggerDiskPercent :: float64

record PrometheusConfig =
  pm_Enabled :: bool
  pm_Port :: int

record StatsConfig =
  st_Interval :: duration
  st_IncludeContainers :: "string list"

record ClusterConfig =
  cl_Mode :: string
  cl_LeaderURL :: string
  cl_HostID :: string
  cl_SharedSecret :: string
  cl_AuthToken :: string

record AlertRule =
  ar_Name :: string
  ar_Metric :: string
  ar_Operator :: string
  ar_Threshold :: float64
  ar_Duration :: duration
  ar_Severity :: string

record AlertsConfig =
  al_Enabled :: bool
  al_Rules :: "AlertRule list"

record Config =
  LogLevel :: string
  Language :: string
  Prometheus :: PrometheusConfig
  Stats :: StatsConfig
  Cluster :: ClusterConfig
  Alerts :: AlertsConfig
  Prune :: PruneConfig

definition DefaultConfig :: Config where
  "DefaultConfig = \<lparr>
     LogLevel = ''info'',
     Language = ''en'',
     Prometheus = \<lparr>pm_Enabled = True, pm_Port = 9110\<rparr>,
     Stats = \<lparr>st_Interval = 5 * second, st_IncludeContainers = []\<rparr>,
     Cluster = \<lparr>cl_Mode = ''standalone'', cl_LeaderURL = ''http://127.0.0.1:9110/api/v1/push'',
                cl_HostID = '''', cl_SharedSecret = '''', cl_AuthToken = ''''\<rparr>,
     Alerts = \<lparr>al_Enabled = True, al_Rules =
       [\<lparr>ar_Name = ''High CPU'', ar_Metric = ''cpu_percent'', ar_Operator = ''>'',
         ar_Threshold = Fin 80, ar_Duration = 2 * minute, ar_Severity = ''critical''\<rparr>,
        \<lparr>ar_Name = ''High Memory'', ar_Metric = ''memory_percent'', ar_Operator = ''>'',
         ar_Threshold = Fin 85, ar_Duration = 2 * minute, ar_Severity = ''critical''\<rparr>]\<rparr>,
     Prune = \<lparr>pr_Enabled = False, pr_TriggerDiskPercent = Fin 85\<rparr>\<rparr>"

section \<open>Environment overrides\<close>

type_synonym env = "string \<Rightarrow> string"

text \<open>
  \<open>strconv.Atoi\<close>: an optional sign and at least one decimal digit, within int64.
\<close>

definition atoi :: "string \<Rightarrow> int option" where
  "atoi s =
     (let (neg, ds) = (case s of c # t \<Rightarrow> if c = CHR ''-'' then (True, t)
                                          else if c = CHR ''+'' then (False, t) else (False, s)
                       | [] \<Rightarrow> (False, s));
          n = int (digits_val 0 ds); v = (if neg then - n else n)
      in if ds \<noteq> [] \<and> list_all is_digit ds \<and> - (2 ^ 63) \<le> v \<and> v < 2 ^ 63 then Some v else None)"

definition env_true :: "string \<Rightarrow> bool" where
  "env_true v \<longleftrightarrow> v = ''true'' \<or> v = ''1''"

definition applyGeneralEnv :: "env \<Rightarrow> Config \<Rightarrow> Config" where
  "applyGeneralEnv env cfg =
     (let cfg = (let v = env ''CASTLE_ROCK_LOG_LEVEL'' in
                 if v \<noteq> '''' then cfg\<lparr>LogLevel := v\<rparr> else cfg);
          cfg = (let v = env ''CASTLE_ROCK_LANGUAGE'' in
                 if v \<noteq> '''' then cfg\<lparr>Language := v\<rparr> else cfg)
      in cfg)"

definition applyPrometheusEnv :: "env \<Rightarrow> Config \<Rightarrow> Config" where
  "applyPrometheusEnv env cfg =
     (let cfg = (let v = env ''CASTLE_ROCK_PROMETHEUS_PORT'' in
                 if v \<noteq> '''' then
                   (case atoi v of Some port \<Rightarrow> cfg\<lparr>Prometheus := (Prometheus cfg)\<lparr>pm_Port := port\<rparr>\<rparr>
                    | None \<Rightarrow> cfg)
                 else cfg);
          cfg = (let v = env ''CASTLE_ROCK_PROMETHEUS_ENABLED'' in
                 if v \<noteq> '''' then cfg\<lparr>Prometheus := (Prometheus cfg)\<lparr>pm_Enabled := env_true v\<rparr>\<rparr>
                 else cfg)
      in cfg)"

fun trim_nonempty :: "string list \<Rightarrow> string list" where
  "trim_nonempty [] = []"
| "trim_nonempty (p # ps) =
     (let trimmed = trim_space p
      in if trimmed \<noteq> '''' then trimmed # trim_nonempty ps else trim_nonempty ps)"

definition applyStatsEnv :: "(string \<Rightarrow> duration option) \<Rightarrow> env \<Rightarrow> Config \<Rightarrow> Config" where
  "applyStatsEnv ParseDuration env cfg =
     (let cfg = (let v = env ''CASTLE_ROCK_STATS_INTERVAL'' in
                 if v \<noteq> '''' then
                   (case ParseDuration v of Some d \<Rightarrow> cfg\<lparr>Stats := (Stats cfg)\<lparr>st_Interval := d\<rparr>\<rparr>
                    | None \<Rightarrow> cfg)
                 else cfg);
          cfg = (let v = env ''CASTLE_ROCK_STATS_INCLUDE_CONTAINERS'' in
                 if v \<noteq> '''' then
                   cfg\<lparr>Stats := (Stats cfg)\<lparr>st_IncludeContainers := trim_nonempty (split_on (CHR '','') v)\<rparr>\<rparr>
                 else cfg)
      in cfg)"

definition applyClusterEnv :: "env \<Rightarrow> Config \<Rightarrow> Config" where
  "applyClusterEnv env cfg =
     (let cfg = (let v = env ''CASTLE_ROCK_CLUSTER_MODE'' in
                 if v \<noteq> '''' then cfg\<lparr>Cluster := (Cluster cfg)\<lparr>cl_Mode := v\<rparr>\<rparr> else cfg);
          cfg = (let v = env ''CASTLE_ROCK_CLUSTER_LEADER_URL'' in
                 if v \<noteq> '''' then cfg\<lparr>Cluster := (Cluster cfg)\<lparr>cl_LeaderURL := v\<rparr>\<rparr> else cfg);
          cfg = (let v = env ''CASTLE_ROCK_CLUSTER_HOST_ID'' in
                 if v \<noteq> '''' then cfg\<lparr>Cluster := (Cluster cfg)\<lparr>cl_HostID := v\<rparr>\<rparr> else cfg);
          cfg = (let v = env ''CASTLE_ROCK_CLUSTER_SHARED_SECRET'' in
                 if v \<noteq> '''' then cfg\<lparr>Cluster := (Cluster cfg)\<lparr>cl_SharedSecret := v\<rparr>\<rparr> else cfg);
          cfg = (let v = env ''CASTLE_ROCK_CLUSTER_AUTH_TOKEN'' in
                 if v \<noteq> '''' then cfg\<lparr>Cluster := (Cluster cfg)\<lparr>cl_AuthToken := v\<rparr>\<rparr> else cfg)
      in cfg)"

definition applyAlertsAndPruneEnv :: "(string \<Rightarrow> float64 option) \<Rightarrow> env \<Rightarrow> Config \<Rightarrow> Config" where
  "applyAlertsAndPruneEnv ParseFloat env cfg =
     (let cfg = (let v = env ''CASTLE_ROCK_ALERTS_ENABLED'' in
                 if v \<noteq> '''' then cfg\<lparr>Alerts := (Alerts cfg)\<lparr>al_Enabled := env_true v\<rparr>\<rparr> else cfg);
          cfg = (let v = env ''CASTLE_ROCK_PRUNE_ENABLED'' in
                 if v \<noteq> '''' then cfg\<lparr>Prune := (Prune cfg)\<lparr>pr_Enabled := env_true v\<rparr>\<rparr> else cfg);
          cfg = (let v = env ''CASTLE_ROCK_PRUNE_DISK_TRIGGER'' in
                 if v \<noteq> '''' then
                   (case ParseFloat v of
                      Some th \<Rightarrow> cfg\<lparr>Prune := (Prune cfg)\<lparr>pr_TriggerDiskPercent := th\<rparr>\<rparr>
                    | None \<Rightarrow> cfg)
                 else cfg)
      in cfg)"

definition applyEnvOverrides ::
  "(string \<Rightarrow> duration option) \<Rightarrow> (string \<Rightarrow> float64 option) \<Rightarrow> env \<Rightarrow> Config \<Rightarrow> Config" where
  "applyEnvOverrides ParseDuration ParseFloat env cfg =
     applyAlertsAndPruneEnv ParseFloat env
       (applyClusterEnv env
         (applyStatsEnv ParseDuration env
           (applyPrometheusEnv env
             (applyGeneralEnv env cfg))))"

section \<open>Load\<close>

datatype read_result = NotExist | ReadError error | FileData string

text \<open>
  \<open>yaml.Unmarshal\<close> overwrites the fields the document names: given the data and the configuration
  to fill, it returns the filled configuration, and an error message if it failed. \<open>Load\<close> returns
  the configuration together with the error.
\<close>

record load_env =
  le_read :: "string \<Rightarrow> read_result"
  le_unmarshal :: "string \<Rightarrow> Config \<Rightarrow> Config \<times> error option"
  le_env :: env
  le_hostname :: "error + string"
  le_ParseDuration :: "string \<Rightarrow> duration option"
  le_ParseFloat :: "string \<Rightarrow> float64 option"

definition Load :: "load_env \<Rightarrow> string \<Rightarrow> Config \<times> error option" where
  "Load w path =
     (let cfg = DefaultConfig;
          overrides = applyEnvOverrides (le_ParseDuration w) (le_ParseFloat w) (le_env w)
      in case le_read w path of
           NotExist \<Rightarrow> (overrides cfg, None)
         | ReadError e \<Rightarrow> (cfg, Some (''config.Load: error reading '' @ path @ '': '' @ e))
         | FileData data \<Rightarrow>
             (case le_unmarshal w data cfg of
                (cfg, Some e) \<Rightarrow> (cfg, Some (''config.Load: error parsing YAML: '' @ e))
              | (cfg, None) \<Rightarrow>
                  (let cfg = overrides cfg
                   in if cl_HostID (Cluster cfg) = '''' then
                        (case le_hostname w of
                           Inr h \<Rightarrow> (cfg\<lparr>Cluster := (Cluster cfg)\<lparr>cl_HostID := h\<rparr>\<rparr>, None)
                         | Inl _ \<Rightarrow> (cfg\<lparr>Cluster := (Cluster cfg)\<lparr>cl_HostID := ''unknown_host''\<rparr>\<rparr>, None))
                      else (cfg, None))))"

lemmas env_step_defs =
  applyGeneralEnv_def applyPrometheusEnv_def applyStatsEnv_def applyClusterEnv_def
  applyAlertsAndPruneEnv_def

section \<open>Parsing and printing numbers\<close>

lemma is_digit_not_sign: "is_digit c \<Longrightarrow> c \<noteq> CHR ''-'' \<and> c \<noteq> CHR ''+''"
  by (auto simp: is_digit_def)

lemma nat_str_Cons: obtains c t where "nat_str n = c # t" "is_digit c"
  using nat_str_digits [of n] by (cases "nat_str n") auto

lemma atoi_int_str: "- (2 ^ 63) \<le> i \<Longrightarrow> i < 2 ^ 63 \<Longrightarrow> atoi (int_str i) = Some i"
proof (cases "i < 0")
  case False
  assume b: "- (2 ^ 63) \<le> i" "i < 2 ^ 63"
  obtain c t where c: "nat_str (nat i) = c # t" "is_digit c" by (rule nat_str_Cons)
  have "c # t \<noteq> []" "list_all is_digit (c # t)" "int (digits_val 0 (c # t)) = i"
    using False nat_str_digits [of "nat i"] digits_val_nat_str [of "nat i"] unfolding c(1) by simp_all
  then show ?thesis
    using False b c is_digit_not_sign [OF c(2)] by (simp add: atoi_def int_str_def Let_def del: digits_val.simps)
qed (simp add: atoi_def int_str_def Let_def nat_str_digits)

section \<open>Environment overrides, field by field\<close>

definition env_or :: "env \<Rightarrow> string \<Rightarrow> (string \<Rightarrow> 'a option) \<Rightarrow> 'a \<Rightarrow> 'a" where
  "env_or env name parse old =
     (if env name = '''' then old else case parse (env name) of Some v \<Rightarrow> v | None \<Rightarrow> old)"

lemma Config_eqI:
  fixes c d :: Config
  assumes "LogLevel c = LogLevel d" "Language c = Language d" "Prometheus c = Prometheus d"
    "Stats c = Stats d" "Cluster c = Cluster d" "Alerts c = Alerts d" "Prune c = Prune d"
  shows "c = d"
  using assms by simp

text \<open>Each group of overrides is an update of its record.\<close>

lemma applyGeneralEnv_alt:
  "applyGeneralEnv env cfg =
     cfg\<lparr>LogLevel := env_or env ''CASTLE_ROCK_LOG_LEVEL'' Some (LogLevel cfg),
         Language := env_or env ''CASTLE_ROCK_LANGUAGE'' Some (Language cfg)\<rparr>"
  by (simp add: applyGeneralEnv_def env_or_def)

lemma applyPrometheusEnv_alt:
  "applyPrometheusEnv env cfg =
     cfg\<lparr>Prometheus := \<lparr>
       pm_Enabled = env_or env ''CASTLE_ROCK_PROMETHEUS_ENABLED'' (Some \<circ> env_true) (pm_Enabled (Prometheus cfg)),
       pm_Port = env_or env ''CASTLE_ROCK_PROMETHEUS_PORT'' atoi (pm_Port (Prometheus cfg))\<rparr>\<rparr>"
  by (simp add: applyPrometheusEnv_def env_or_def Let_def split: option.split)

lemma applyStatsEnv_alt:
  "applyStatsEnv pd env cfg =
     cfg\<lparr>Stats := \<lparr>
       st_Interval = env_or env ''CASTLE_ROCK_STATS_INTERVAL'' pd (st_Interval (Stats cfg)),
       st_IncludeContainers =
         env_or env ''CASTLE_ROCK_STATS_INCLUDE_CONTAINERS'' (Some \<circ> trim_nonempty \<circ> split_on (CHR '',''))
           (st_IncludeContainers (Stats cfg))\<rparr>\<rparr>"
  by (simp add: applyStatsEnv_def env_or_def Let_def split: option.split)

lemma cluster_step:
  "(let v = env n in if v \<noteq> '''' then cfg\<lparr>Cluster := f v\<rparr> else cfg) =
   cfg\<lparr>Cluster := (if env n = '''' then Cluster cfg else f (env n))\<rparr>"
  by simp

lemma applyClusterEnv_alt:
  "applyClusterEnv env cfg =
     cfg\<lparr>Cluster := \<lparr>
       cl_Mode = env_or env ''CASTLE_ROCK_CLUSTER_MODE'' Some (cl_Mode (Cluster cfg)),
       cl_LeaderURL = env_or env ''CASTLE_ROCK_CLUSTER_LEADER_URL'' Some (cl_LeaderURL (Cluster cfg)),
       cl_HostID = env_or env ''CASTLE_ROCK_CLUSTER_HOST_ID'' Some (cl_HostID (Cluster cfg)),
       cl_SharedSecret = env_or env ''CASTLE_ROCK_CLUSTER_SHARED_SECRET'' Some (cl_SharedSecret (Cluster cfg)),
       cl_AuthToken = env_or env ''CASTLE_ROCK_CLUSTER_AUTH_TOKEN'' Some (cl_AuthToken (Cluster cfg))\<rparr>\<rparr>"
  unfolding applyClusterEnv_def cluster_step Let_def
  by (rule Config_eqI) (simp_all add: env_or_def)

lemma applyAlertsAndPruneEnv_alt:
  "applyAlertsAndPruneEnv pf env cfg =
     cfg\<lparr>Alerts := \<lparr>
           al_Enabled = env_or env ''CASTLE_ROCK_ALERTS_ENABLED'' (Some \<circ> env_true) (al_Enabled (Alerts cfg)),
           al_Rules = al_Rules (Alerts cfg)\<rparr>,
         Prune := \<lparr>
           pr_Enabled = env_or env ''CASTLE_ROCK_PRUNE_ENABLED'' (Some \<circ> env_true) (pr_Enabled (Prune cfg)),
           pr_TriggerDiskPercent =
             env_or env ''CASTLE_ROCK_PRUNE_DISK_TRIGGER'' pf (pr_TriggerDiskPercent (Prune cfg))\<rparr>\<rparr>"
  by (simp add: applyAlertsAndPruneEnv_def env_or_def Let_def split: option.split)

lemmas env_step_alts =
  applyGeneralEnv_alt applyPrometheusEnv_alt applyStatsEnv_alt applyClusterEnv_alt
  applyAlertsAndPruneEnv_alt

lemma applyEnvOverrides_host:
  "cl_HostID (Cluster (applyEnvOverrides pd pf env cfg)) =
   env_or env ''CASTLE_ROCK_CLUSTER_HOST_ID'' Some (cl_HostID (Cluster cfg))"
  by (simp add: applyEnvOverrides_def env_step_alts)

section \<open>The settings\<close>

text \<open>
  The settings that the environment can override, with the variable of each, and the value of a
  setting in a configuration. This is the documented interface of the configuration, stated apart
  from the functions that implement it.
\<close>

datatype setting =
    SLogLevel | SLanguage | SPort | SPrometheus | SInterval | SInclude | SMode | SLeaderURL | SHostID | SSecret | SToken
  | SAlerts | SPrune | SDiskTrigger

datatype setting_value = VText string | VFlag bool | VNumber int | VSpan duration | VLevel float64 | VNames "string list"

fun variable :: "setting \<Rightarrow> string" where
  "variable SLogLevel = ''CASTLE_ROCK_LOG_LEVEL''"
| "variable SLanguage = ''CASTLE_ROCK_LANGUAGE''"
| "variable SPort = ''CASTLE_ROCK_PROMETHEUS_PORT''"
| "variable SPrometheus = ''CASTLE_ROCK_PROMETHEUS_ENABLED''"
| "variable SInterval = ''CASTLE_ROCK_STATS_INTERVAL''"
| "variable SInclude = ''CASTLE_ROCK_STATS_INCLUDE_CONTAINERS''"
| "variable SMode = ''CASTLE_ROCK_CLUSTER_MODE''"
| "variable SLeaderURL = ''CASTLE_ROCK_CLUSTER_LEADER_URL''"
| "variable SHostID = ''CASTLE_ROCK_CLUSTER_HOST_ID''"
| "variable SSecret = ''CASTLE_ROCK_CLUSTER_SHARED_SECRET''"
| "variable SToken = ''CASTLE_ROCK_CLUSTER_AUTH_TOKEN''"
| "variable SAlerts = ''CASTLE_ROCK_ALERTS_ENABLED''"
| "variable SPrune = ''CASTLE_ROCK_PRUNE_ENABLED''"
| "variable SDiskTrigger = ''CASTLE_ROCK_PRUNE_DISK_TRIGGER''"

fun setting_of :: "setting \<Rightarrow> Config \<Rightarrow> setting_value" where
  "setting_of SLogLevel c = VText (LogLevel c)"
| "setting_of SLanguage c = VText (Language c)"
| "setting_of SPort c = VNumber (pm_Port (Prometheus c))"
| "setting_of SPrometheus c = VFlag (pm_Enabled (Prometheus c))"
| "setting_of SInterval c = VSpan (st_Interval (Stats c))"
| "setting_of SInclude c = VNames (st_IncludeContainers (Stats c))"
| "setting_of SMode c = VText (cl_Mode (Cluster c))"
| "setting_of SLeaderURL c = VText (cl_LeaderURL (Cluster c))"
| "setting_of SHostID c = VText (cl_HostID (Cluster c))"
| "setting_of SSecret c = VText (cl_SharedSecret (Cluster c))"
| "setting_of SToken c = VText (cl_AuthToken (Cluster c))"
| "setting_of SAlerts c = VFlag (al_Enabled (Alerts c))"
| "setting_of SPrune c = VFlag (pr_Enabled (Prune c))"
| "setting_of SDiskTrigger c = VLevel (pr_TriggerDiskPercent (Prune c))"

text \<open>
  The meaning of a value of a variable. A number, an interval or a level may be malformed; every text
  is a switch, on for \<open>true\<close> and \<open>1\<close> and off for anything else.
\<close>

definition env_parsed :: "load_env \<Rightarrow> setting \<Rightarrow> string \<Rightarrow> setting_value option" where
  "env_parsed w x v =
     (if x = SPort then map_option VNumber (atoi v)
      else if x = SInterval then map_option VSpan (le_ParseDuration w v)
      else if x = SDiskTrigger then map_option VLevel (le_ParseFloat w v)
      else if x = SInclude then Some (VNames (filter (\<lambda>s. s \<noteq> '''') (map trim_space (split_on (CHR '','') v))))
      else if x \<in> {SPrometheus, SAlerts, SPrune} then Some (VFlag (v \<in> {''true'', ''1''}))
      else Some (VText v))"

text \<open>What the environment says of a setting: nothing when the variable is empty or malformed.\<close>

definition from_env :: "load_env \<Rightarrow> setting \<Rightarrow> setting_value option" where
  "from_env w x = (if le_env w (variable x) = '''' then None else env_parsed w x (le_env w (variable x)))"

definition host_name :: "load_env \<Rightarrow> string" where
  "host_name w = (case le_hostname w of Inr h \<Rightarrow> h | Inl e \<Rightarrow> ''unknown_host'')"

lemma trim_nonempty_filter: "trim_nonempty ps = filter (\<lambda>s. s \<noteq> []) (map trim_space ps)"
  by (induction ps) (simp_all add: Let_def)

abbreviation overrides :: "load_env \<Rightarrow> Config \<Rightarrow> Config" where
  "overrides w \<equiv> applyEnvOverrides (le_ParseDuration w) (le_ParseFloat w) (le_env w)"

lemma overrides_setting:
  "setting_of x (overrides w cfg) = (case from_env w x of Some v \<Rightarrow> v | None \<Rightarrow> setting_of x cfg)"
  by (cases x) (simp_all add: applyEnvOverrides_def env_step_alts from_env_def env_parsed_def env_or_def env_true_def
      trim_nonempty_filter comp_def split: option.split)

lemma overrides_rules: "al_Rules (Alerts (overrides w cfg)) = al_Rules (Alerts cfg)"
  by (simp add: applyEnvOverrides_def env_step_alts)

lemma from_env_host: "from_env w SHostID = Some v \<Longrightarrow> v \<noteq> VText ''''"
  by (auto simp: from_env_def env_parsed_def split: if_splits)

lemma setting_of_host: "setting_of x (c\<lparr>Cluster := (Cluster c)\<lparr>cl_HostID := h\<rparr>\<rparr>) = (if x = SHostID then VText h else setting_of x c)"
  by (cases x) simp_all

lemma Load_file:
  assumes "le_read w path = FileData data" "Load w path = (c, None)"
  shows "\<exists>fcfg. le_unmarshal w data DefaultConfig = (fcfg, None) \<and>
     c = (let o1 = overrides w fcfg in
          if setting_of SHostID o1 = VText '''' then o1\<lparr>Cluster := (Cluster o1)\<lparr>cl_HostID := host_name w\<rparr>\<rparr> else o1)"
  using assms by (auto simp: Load_def Let_def host_name_def split: prod.splits option.splits sum.splits if_splits)

section \<open>Properties\<close>

text \<open>
  C29: the documented precedence of \<open>Load\<close>: environment before file before defaults. When \<open>Load\<close>
  succeeds, a setting has the value of its variable where that is set and well-formed (a switch is on
  for true and 1 and off for every other text); else the value of the file where the file names it;
  else the default. The host ID is the one exception: with a file, an empty one becomes the name of
  the host. The alert rules are those of the file or the defaults. \<open>Load\<close> succeeds exactly when the
  file is missing or decodes. That the YAML decoder leaves the settings alone that the document does
  not name is a hypothesis.
\<close>

theorem load_precedence:
  fixes named :: "string \<Rightarrow> setting set"
  assumes yaml: "\<And>data cfg x. x \<notin> named data \<Longrightarrow> setting_of x (fst (le_unmarshal w data cfg)) = setting_of x cfg"
  shows "(snd (Load w path) = None \<longleftrightarrow>
        le_read w path = NotExist \<or> (\<exists>data. le_read w path = FileData data \<and> snd (le_unmarshal w data DefaultConfig) = None))
    \<and> (le_read w path = NotExist \<longrightarrow>
        (\<forall>x. setting_of x (fst (Load w path)) = (case from_env w x of Some v \<Rightarrow> v | None \<Rightarrow> setting_of x DefaultConfig)) \<and>
        al_Rules (Alerts (fst (Load w path))) = al_Rules (Alerts DefaultConfig))
    \<and> (\<forall>data fcfg c. le_read w path = FileData data \<and> le_unmarshal w data DefaultConfig = (fcfg, None) \<and> Load w path = (c, None) \<longrightarrow>
        (\<forall>x. setting_of x c =
           (case from_env w x of
              Some v \<Rightarrow> v
            | None \<Rightarrow>
                if x = SHostID \<and> cl_HostID (Cluster fcfg) = '''' then VText (host_name w)
                else if x \<in> named data then setting_of x fcfg
                else setting_of x DefaultConfig)) \<and>
        al_Rules (Alerts c) = al_Rules (Alerts fcfg))"
proof (intro conjI allI impI; (elim conjE)?)
  show "snd (Load w path) = None \<longleftrightarrow>
        le_read w path = NotExist \<or> (\<exists>data. le_read w path = FileData data \<and> snd (le_unmarshal w data DefaultConfig) = None)"
    by (auto simp: Load_def Let_def split: read_result.split prod.split option.split sum.split)
next
  fix x assume "le_read w path = NotExist"
  then have "fst (Load w path) = overrides w DefaultConfig" by (simp add: Load_def Let_def)
  then show "setting_of x (fst (Load w path)) = (case from_env w x of Some v \<Rightarrow> v | None \<Rightarrow> setting_of x DefaultConfig)"
    "al_Rules (Alerts (fst (Load w path))) = al_Rules (Alerts DefaultConfig)"
    by (simp_all only: overrides_setting overrides_rules)
next
  fix data fcfg c x
  assume f: "le_read w path = FileData data" "le_unmarshal w data DefaultConfig = (fcfg, None)" "Load w path = (c, None)"
  have c: "c = (let o1 = overrides w fcfg in
      if setting_of SHostID o1 = VText '''' then o1\<lparr>Cluster := (Cluster o1)\<lparr>cl_HostID := host_name w\<rparr>\<rparr> else o1)"
    using Load_file [OF f(1,3)] f(2) by auto
  have e: "setting_of SHostID (overrides w fcfg) = VText '''' \<longleftrightarrow> from_env w SHostID = None \<and> cl_HostID (Cluster fcfg) = ''''"
    unfolding overrides_setting using from_env_host [of w] by (auto split: option.split)
  have s: "setting_of x c = (case from_env w x of Some v \<Rightarrow> v
      | None \<Rightarrow> if x = SHostID \<and> cl_HostID (Cluster fcfg) = '''' then VText (host_name w) else setting_of x fcfg)"
    unfolding c Let_def e by (auto simp: setting_of_host overrides_setting simp del: setting_of.simps split: option.split)
  have "x \<notin> named data \<Longrightarrow> setting_of x fcfg = setting_of x DefaultConfig" using yaml [of x data DefaultConfig] f(2) by simp
  then show "setting_of x c = (case from_env w x of Some v \<Rightarrow> v
      | None \<Rightarrow> if x = SHostID \<and> cl_HostID (Cluster fcfg) = '''' then VText (host_name w)
                else if x \<in> named data then setting_of x fcfg else setting_of x DefaultConfig)"
    unfolding s by (auto split: option.split)
  show "al_Rules (Alerts c) = al_Rules (Alerts fcfg)" by (simp add: c Let_def overrides_rules)
qed

text \<open>A file that sets log level and port, under an environment that sets the log level and a malformed port.\<close>

definition ex_precedence :: load_env where
  "ex_precedence =
     \<lparr>le_read = (\<lambda>_. FileData ''f''), le_unmarshal = (\<lambda>_ c. (c\<lparr>LogLevel := ''warn'', Prometheus := (Prometheus c)\<lparr>pm_Port := 8000\<rparr>\<rparr>, None)),
      le_env = (\<lambda>n. if n = ''CASTLE_ROCK_LOG_LEVEL'' then ''debug'' else if n = ''CASTLE_ROCK_PROMETHEUS_PORT'' then ''x''
                    else if n = ''CASTLE_ROCK_ALERTS_ENABLED'' then ''yes'' else ''''),
      le_hostname = Inr ''node1'', le_ParseDuration = (\<lambda>_. None), le_ParseFloat = (\<lambda>_. None)\<rparr>"

theorem load_precedence_witness:
  "setting_of SLogLevel (fst (Load ex_precedence ''c'')) = VText ''debug'' \<and> setting_of SPort (fst (Load ex_precedence ''c'')) = VNumber 8000 \<and>
   setting_of SLanguage (fst (Load ex_precedence ''c'')) = VText ''en'' \<and> setting_of SHostID (fst (Load ex_precedence ''c'')) = VText ''node1'' \<and>
   setting_of SAlerts (fst (Load ex_precedence ''c'')) = VFlag False"
proof -
  let ?w = ex_precedence and ?named = "\<lambda>data :: string. {SLogLevel, SPort}"
  let ?fcfg = "DefaultConfig\<lparr>LogLevel := ''warn'', Prometheus := (Prometheus DefaultConfig)\<lparr>pm_Port := 8000\<rparr>\<rparr>"
  have "setting_of x (fst (le_unmarshal ?w data cfg)) = setting_of x cfg" if "x \<notin> ?named data" for x data cfg
    using that by (cases x) (simp_all add: ex_precedence_def)
  note p = load_precedence [of ?named ?w, OF this, of "''c''"]
  have f: "le_read ?w ''c'' = FileData ''f''" "le_unmarshal ?w ''f'' DefaultConfig = (?fcfg, None)" by (simp_all add: ex_precedence_def)
  then have "snd (Load ?w ''c'') = None" using p by auto
  then have "Load ?w ''c'' = (fst (Load ?w ''c''), None)" by (metis prod.collapse)
  then have s: "setting_of x (fst (Load ?w ''c'')) = (case from_env ?w x of Some v \<Rightarrow> v
      | None \<Rightarrow> if x = SHostID \<and> cl_HostID (Cluster ?fcfg) = '''' then VText (host_name ?w)
                else if x \<in> ?named ''f'' then setting_of x ?fcfg else setting_of x DefaultConfig)" for x
    using p f by blast
  have "from_env ?w SLogLevel = Some (VText ''debug'')" "from_env ?w SPort = None" "from_env ?w SLanguage = None"
    "from_env ?w SHostID = None" "from_env ?w SAlerts = Some (VFlag False)" "host_name ?w = ''node1''"
    by (simp_all add: from_env_def env_parsed_def ex_precedence_def host_name_def atoi_def is_digit_def)
  then show ?thesis by (simp add: s) (simp add: DefaultConfig_def)
qed

text \<open>
  A port written in decimal into the environment is the port the exporter gets, for every
  value of Go's 64-bit int.
\<close>

theorem env_port_roundtrip:
  assumes "- (2 ^ 63) \<le> p" "p < 2 ^ 63"
    and "env ''CASTLE_ROCK_PROMETHEUS_PORT'' = int_str p"
  shows "pm_Port (Prometheus (applyEnvOverrides pd pf env cfg)) = p"
proof -
  have "int_str p \<noteq> []" by (simp add: int_str_def)
  then show ?thesis using assms atoi_int_str by (simp add: applyEnvOverrides_def env_step_alts env_or_def)
qed

theorem env_port_roundtrip_witness:
  "pm_Port (Prometheus (applyEnvOverrides (\<lambda>_. None) (\<lambda>_. None) (\<lambda>_. int_str 9200) DefaultConfig)) = 9200"
  by (rule env_port_roundtrip) simp_all

text \<open>
  C30: With a configuration file, \<open>Load\<close> never returns an empty host ID (it falls back to the host
  name, then to \<open>unknown_host\<close>); without one, the host ID is exactly the environment's, so it is
  empty when the variable is unset: the fallback is skipped on that path.
\<close>

theorem load_host_id:
  assumes "le_hostname w \<noteq> Inr ''''"
  shows "(\<forall>data cfg. le_read w path = FileData data \<and> Load w path = (cfg, None) \<longrightarrow> cl_HostID (Cluster cfg) \<noteq> '''')
       \<and> (le_read w path = NotExist \<longrightarrow>
            cl_HostID (Cluster (fst (Load w path))) = le_env w ''CASTLE_ROCK_CLUSTER_HOST_ID'')"
proof (intro conjI allI impI)
  fix data cfg
  assume "le_read w path = FileData data \<and> Load w path = (cfg, None)"
  then show "cl_HostID (Cluster cfg) \<noteq> ''''"
    using assms by (auto simp: Load_def Let_def split: prod.splits option.splits if_splits sum.splits)
next
  assume "le_read w path = NotExist"
  then show "cl_HostID (Cluster (fst (Load w path))) = le_env w ''CASTLE_ROCK_CLUSTER_HOST_ID''"
    by (simp add: Load_def Let_def applyEnvOverrides_host env_or_def DefaultConfig_def)
qed

definition ex_load_env :: "read_result \<Rightarrow> load_env" where
  "ex_load_env f = \<lparr>le_read = (\<lambda>_. f), le_unmarshal = (\<lambda>_ c. (c, None)), le_env = (\<lambda>_. ''''),
     le_hostname = Inr ''node1'', le_ParseDuration = (\<lambda>_. None), le_ParseFloat = (\<lambda>_. None)\<rparr>"

theorem load_host_id_witness:
  "cl_HostID (Cluster (fst (Load (ex_load_env NotExist) ''config.yml''))) = ''''
   \<and> cl_HostID (Cluster (fst (Load (ex_load_env (FileData '''')) ''config.yml''))) \<noteq> ''''"
proof
  have h: "le_hostname (ex_load_env f) \<noteq> Inr ''''" for f by (simp add: ex_load_env_def)
  show "cl_HostID (Cluster (fst (Load (ex_load_env NotExist) ''config.yml''))) = ''''"
    using load_host_id [OF h, of NotExist "''config.yml''"] by (simp add: ex_load_env_def)
  have "snd (Load (ex_load_env (FileData '''')) ''config.yml'') = None"
    by (simp add: Load_def Let_def ex_load_env_def)
  moreover have "le_read (ex_load_env (FileData '''')) ''config.yml'' = FileData ''''" by (simp add: ex_load_env_def)
  ultimately show "cl_HostID (Cluster (fst (Load (ex_load_env (FileData '''')) ''config.yml''))) \<noteq> ''''"
    using load_host_id [OF h, of "FileData ''''" "''config.yml''"] by (metis prod.collapse)
qed

end
