(* ===== verification/Discovery.thy ===== *)
theory Discovery
  imports Prelude
begin

text \<open>
  \<^verbatim>\<open>internal/cluster/discovery.go\<close>: how a leader announces itself and a worker finds it. The mDNS library
  and the resolver are parameters: \<open>'z\<close> is a service of the library and \<open>'s\<close> a running server.
\<close>

section \<open>The advertiser\<close>

definition ServiceType :: string where "ServiceType = ''_castlerock._tcp''"

text \<open>
  \<open>md_service\<close> is \<open>mdns.NewMDNSService\<close> with instance, service, domain, host name, port, addresses and
  TXT records; \<open>md_server\<close> is \<open>mdns.NewServer\<close> on that zone. \<open>md_lookup\<close> is \<open>net.LookupIP\<close>, whose error
  is ignored: the addresses are then empty.
\<close>

record ('z, 's) mdns =
  md_lookup :: "string \<Rightarrow> error + string list"
  md_service :: "string \<Rightarrow> string \<Rightarrow> string \<Rightarrow> string \<Rightarrow> int \<Rightarrow> string list \<Rightarrow> string list \<Rightarrow> error + 'z"
  md_server :: "'z \<Rightarrow> error + 's"
  md_shutdown :: "'s \<Rightarrow> error option"

record 's Advertiser =
  ad_server :: 's

definition NewAdvertiser :: "('z, 's) mdns \<Rightarrow> int \<Rightarrow> error + 's Advertiser" where
  "NewAdvertiser md port =
     (let ips = (case md_lookup md ''localhost'' of Inl err \<Rightarrow> [] | Inr ips \<Rightarrow> ips);
          info = [''Castle Rock Observability Leader'']
      in case md_service md ''castlerock-leader'' ServiceType '''' '''' port ips info of
           Inl err \<Rightarrow> Inl err
         | Inr service \<Rightarrow>
             (case md_server md service of
                Inl err \<Rightarrow> Inl err
              | Inr server \<Rightarrow> Inr \<lparr>ad_server = server\<rparr>))"

definition Advertiser_Close :: "('z, 's) mdns \<Rightarrow> 's Advertiser \<Rightarrow> error option" where
  "Advertiser_Close md a = md_shutdown md (ad_server a)"

section \<open>Finding the leader\<close>

text \<open>
  What the \<open>select\<close> of \<open>DiscoverLeader\<close> receives first: an entry of the query with its IPv4 address and
  port, the end of the query (the closed channel gives nil), the end of the context, or the timer.
\<close>

datatype mdns_event = Entry string int | NilEntry | CtxDone error | SearchTimeout

definition pushPath :: string where "pushPath = ''/api/v1/push''"

definition DiscoverLeader :: "mdns_event \<Rightarrow> error + string" where
  "DiscoverLeader ev =
     (case ev of
        Entry addr port \<Rightarrow> Inr (''http://'' @ addr @ '':'' @ int_str port @ pushPath)
      | NilEntry \<Rightarrow> Inl ''mDNS: leader not found''
      | CtxDone err \<Rightarrow> Inl err
      | SearchTimeout \<Rightarrow> Inl ''mDNS: timeout searching for leader'')"

text \<open>
  The announcement carries the addresses of the name localhost: the advertiser is the same for every
  pair of hosts on which that name resolves alike, and their own addresses do not occur in it.
\<close>

lemma advertised_addresses:
  assumes "md_lookup md ''localhost'' = Inr ips" and "NewAdvertiser md port = Inr a"
  obtains z where "md_service md ''castlerock-leader'' ServiceType '''' '''' port ips [''Castle Rock Observability Leader''] = Inr z"
    and "md_server md z = Inr (ad_server a)"
  using assms by (auto simp: NewAdvertiser_def Let_def split: sum.splits)

lemma DiscoverLeader_Inr:
  "DiscoverLeader ev = Inr url \<longleftrightarrow> (\<exists>addr port. ev = Entry addr port \<and> url = ''http://'' @ addr @ '':'' @ int_str port @ pushPath)"
  by (auto simp: DiscoverLeader_def split: mdns_event.split)

end
