(* ===== verification/Sender.thy ===== *)
theory Sender
  imports Receiver Config Discovery
begin

text \<open>
  \<^verbatim>\<open>internal/cluster/sender.go\<close>: the worker's push loop. The network, the
  clock and the Docker client are a state \<open>'w\<close> that every call threads; the record \<open>net\<close> holds the
  calls the code makes on it.
\<close>

section \<open>The code\<close>

text \<open>
  \<open>n_do\<close> is \<open>client.Do\<close>: the status of the response, or \<open>None\<close> for an error. \<open>n_wait\<close> is the \<open>select\<close>
  on the backoff timer and the context: \<open>True\<close> when the timer fired. \<open>n_url_ok\<close> says whether
  \<open>http.NewRequestWithContext\<close> accepts the URL.
\<close>

record 'w net =
  n_url_ok :: "string \<Rightarrow> bool"
  n_do :: "string \<Rightarrow> Request \<Rightarrow> 'w \<Rightarrow> int option \<times> 'w"
  n_wait :: "duration \<Rightarrow> 'w \<Rightarrow> bool \<times> 'w"

datatype push_end = NotSent error | Delivered | Cancelled | Exhausted

definition maxRetries :: nat where "maxRetries = 3"

definition pushHeader :: "bool \<Rightarrow> string \<Rightarrow> string \<Rightarrow> string" where
  "pushHeader encrypted authToken =
     (let h = (\<lambda>_. '''');
          h = (if encrypted then h(''Content-Type'' := ''application/octet-stream'', ''X-CastleRock-Encrypted'' := ''true'')
               else h(''Content-Type'' := ''application/json''));
          h = h(''Content-Encoding'' := ''gzip'')
      in if authToken \<noteq> '''' then h(''Authorization'' := ''Bearer '' @ authToken) else h)"

definition pushRequest :: "bool \<Rightarrow> string \<Rightarrow> string \<Rightarrow> Request" where
  "pushRequest encrypted authToken compressedData =
     \<lparr>rq_Method = ''POST'', rq_Header = pushHeader encrypted authToken, rq_Body = compressedData\<rparr>"

definition push_ok :: "int option \<Rightarrow> bool" where
  "push_ok s \<longleftrightarrow> s = Some 200 \<or> s = Some 202"

definition attempt :: "'w net \<Rightarrow> string \<Rightarrow> Request \<Rightarrow> 'w \<Rightarrow> bool \<times> 'w" where
  "attempt net url req w =
     (if \<not> n_url_ok net url then (False, w)
      else case n_do net url req w of (s, w) \<Rightarrow> (push_ok s, w))"

function retryLoop :: "'w net \<Rightarrow> string \<Rightarrow> Request \<Rightarrow> nat \<Rightarrow> duration \<Rightarrow> 'w \<Rightarrow> push_end \<times> 'w" where
  "retryLoop net url req i backoff w =
     (if i \<le> maxRetries then
        (case attempt net url req w of
           (True, w) \<Rightarrow> (Delivered, w)
         | (False, w) \<Rightarrow>
             if i < maxRetries then
               (case n_wait net backoff w of
                  (True, w) \<Rightarrow> retryLoop net url req (i + 1) (backoff * 2) w
                | (False, w) \<Rightarrow> (Cancelled, w))
             else retryLoop net url req (i + 1) backoff w)
      else (Exhausted, w))"
  by pat_completeness auto
termination
  by (relation "measure (\<lambda>(net, url, req, i, backoff, w). Suc maxRetries - i)") auto

declare retryLoop.simps [simp del]

text \<open>
  \<open>sendPushPayload\<close>: the last component counts \<open>metrics.ClusterPushFailures\<close>. Compressing into a
  \<open>bytes.Buffer\<close> cannot fail.
\<close>

definition sendPushPayload ::
  "'r wire \<Rightarrow> 'w net \<Rightarrow> string \<Rightarrow> string \<Rightarrow> string \<Rightarrow> PushPayload \<Rightarrow> 'r \<Rightarrow> 'w \<Rightarrow> nat \<Rightarrow> push_end \<times> 'r \<times> 'w \<times> nat" where
  "sendPushPayload wire net url secret authToken payload rng w failures =
     (case w_marshal wire payload of
        Inl err \<Rightarrow> (NotSent err, rng, w, failures)
      | Inr data \<Rightarrow>
          let (sealed, rng) = (if secret \<noteq> '''' then Encrypt (w_crypto wire) data secret rng else (Inr data, rng));
              encrypted = (secret \<noteq> '''')
          in case sealed of
               Inl err \<Rightarrow> (NotSent err, rng, w, failures)
             | Inr data \<Rightarrow>
                 let compressedData = w_gzip wire data;
                     (res, w) = retryLoop net url (pushRequest encrypted authToken compressedData) 0 (1 * second) w
                 in (res, rng, w, if res = Exhausted then failures + 1 else failures))"

text \<open>
  The worker's state: the leader's address, the random source, the push failures, and the world.
  \<open>d_list\<close> and \<open>d_stats\<close> are the two calls on the Docker client, \<open>d_stats\<close> in the order the range
  over the stats map visits it; \<open>d_mdns\<close> is what the mDNS query delivers.
\<close>

record 'w node =
  d_net :: "'w net"
  d_list :: "'w \<Rightarrow> (error + ContainerInfo list) \<times> 'w"
  d_stats :: "ContainerInfo list \<Rightarrow> 'w \<Rightarrow> (error + stats_range) \<times> 'w"
  d_mdns :: "'w \<Rightarrow> mdns_event \<times> 'w"

record ('r, 'w) worker =
  wk_leaderURL :: string
  wk_rng :: 'r
  wk_world :: 'w
  wk_failures :: nat

definition buildPayload :: "string \<Rightarrow> ContainerInfo list \<Rightarrow> stats_range \<Rightarrow> PushPayload" where
  "buildPayload hostID containers metricsMap =
     \<lparr>pp_HostID = hostID,
      pp_Containers = map (\<lambda>c. c\<lparr>ci_HostID := hostID\<rparr>) containers,
      pp_Metrics = map (\<lambda>(k, m). m\<lparr>cm_HostID := hostID\<rparr>) metricsMap\<rparr>"

definition discover :: "'w node \<Rightarrow> ('r, 'w) worker \<Rightarrow> ('r, 'w) worker" where
  "discover n k =
     (case d_mdns n (wk_world k) of
        (ev, w) \<Rightarrow>
          (case DiscoverLeader ev of
             Inr url \<Rightarrow> k\<lparr>wk_leaderURL := url, wk_world := w\<rparr>
           | Inl err \<Rightarrow> k\<lparr>wk_world := w\<rparr>))"

definition senderTick :: "'r wire \<Rightarrow> 'w node \<Rightarrow> Config \<Rightarrow> ('r, 'w) worker \<Rightarrow> ('r, 'w) worker" where
  "senderTick wire n cfg k =
     (case d_list n (wk_world k) of
        (Inl err, w) \<Rightarrow> k\<lparr>wk_world := w\<rparr>
      | (Inr containers, w) \<Rightarrow>
          (case d_stats n containers w of
             (Inl err, w) \<Rightarrow> k\<lparr>wk_world := w\<rparr>
           | (Inr metricsMap, w) \<Rightarrow>
               let payload = buildPayload (cl_HostID (Cluster cfg)) containers metricsMap
               in if wk_leaderURL k \<noteq> '''' then
                    (case sendPushPayload wire (d_net n) (wk_leaderURL k) (cl_SharedSecret (Cluster cfg))
                            (cl_AuthToken (Cluster cfg)) payload (wk_rng k) w (wk_failures k) of
                       (res, rng, w, failures) \<Rightarrow> k\<lparr>wk_rng := rng, wk_world := w, wk_failures := failures\<rparr>)
                  else discover n (k\<lparr>wk_world := w\<rparr>)))"

datatype sender_event = Tick | Done

fun senderLoop :: "'r wire \<Rightarrow> 'w node \<Rightarrow> Config \<Rightarrow> sender_event list \<Rightarrow> ('r, 'w) worker \<Rightarrow> ('r, 'w) worker" where
  "senderLoop wire n cfg [] k = k"
| "senderLoop wire n cfg (Done # es) k = k"
| "senderLoop wire n cfg (Tick # es) k = senderLoop wire n cfg es (senderTick wire n cfg k)"

text \<open>\<open>time.NewTicker\<close> panics on an interval that is not positive.\<close>

definition StartSender ::
  "'r wire \<Rightarrow> 'w node \<Rightarrow> Config \<Rightarrow> sender_event list \<Rightarrow> 'r \<Rightarrow> 'w \<Rightarrow> ('r, 'w) worker outcome" where
  "StartSender wire n cfg events rng w =
     (let k = \<lparr>wk_leaderURL = cl_LeaderURL (Cluster cfg), wk_rng = rng, wk_world = w, wk_failures = 0\<rparr>
      in if cl_Mode (Cluster cfg) \<noteq> ''worker'' then Ret k
         else
           let k = (if wk_leaderURL k = '''' then discover n k else k)
           in if st_Interval (Stats cfg) \<le> 0 then Panic
              else Ret (senderLoop wire n cfg events k))"

section \<open>The retry loop\<close>

text \<open>A network that records what the loop did: the answers it got and the waits it started.\<close>

datatype net_event = Sent "int option" | Waited duration

definition logged :: "'w net \<Rightarrow> ('w \<times> net_event list) net" where
  "logged net =
     \<lparr>n_url_ok = n_url_ok net,
      n_do = (\<lambda>url req (w, l). case n_do net url req w of (s, w) \<Rightarrow> (s, w, l @ [Sent s])),
      n_wait = (\<lambda>d (w, l). case n_wait net d w of (b, w) \<Rightarrow> (b, w, l @ [Waited d]))\<rparr>"

fun burst :: "nat \<Rightarrow> int option list \<Rightarrow> net_event list" where
  "burst k [] = []"
| "burst k (s # fs) = Sent s # Waited (2 ^ k * second) # burst (Suc k) fs"

text \<open>What the events of a push may be, from attempt \<open>i\<close> on, for each outcome.\<close>

fun push_trace :: "nat \<Rightarrow> push_end \<Rightarrow> net_event list \<Rightarrow> bool" where
  "push_trace i Delivered l \<longleftrightarrow>
     (\<exists>fs s. i + length fs \<le> maxRetries \<and> list_all (\<lambda>x. \<not> push_ok x) fs \<and> push_ok s \<and> l = burst i fs @ [Sent s])"
| "push_trace i Exhausted l \<longleftrightarrow>
     (\<exists>fs s. i + length fs = maxRetries \<and> list_all (\<lambda>x. \<not> push_ok x) fs \<and> \<not> push_ok s \<and> l = burst i fs @ [Sent s])"
| "push_trace i Cancelled l \<longleftrightarrow>
     (\<exists>fs. fs \<noteq> [] \<and> i + length fs \<le> maxRetries \<and> list_all (\<lambda>x. \<not> push_ok x) fs \<and> l = burst i fs)"
| "push_trace i (NotSent e) l \<longleftrightarrow> False"

lemma push_trace_Cons:
  assumes "push_trace (Suc i) res l" "i < maxRetries" "\<not> push_ok s"
  shows "push_trace i res (Sent s # Waited (2 ^ i * second) # l)"
proof (cases res)
  case Delivered
  then obtain fs t where f: "Suc i + length fs \<le> maxRetries" "list_all (\<lambda>x. \<not> push_ok x) fs" "push_ok t"
      "l = burst (Suc i) fs @ [Sent t]" using assms(1) by auto
  then show ?thesis using Delivered assms by (auto intro!: exI [of _ "s # fs"])
next
  case Exhausted
  then obtain fs t where f: "Suc i + length fs = maxRetries" "list_all (\<lambda>x. \<not> push_ok x) fs" "\<not> push_ok t"
      "l = burst (Suc i) fs @ [Sent t]" using assms(1) by auto
  then show ?thesis using Exhausted assms by (auto intro!: exI [of _ "s # fs"])
next
  case Cancelled
  then obtain fs where f: "fs \<noteq> []" "Suc i + length fs \<le> maxRetries" "list_all (\<lambda>x. \<not> push_ok x) fs"
      "l = burst (Suc i) fs" using assms(1) by auto
  then show ?thesis using Cancelled assms by (auto intro!: exI [of _ "s # fs"])
qed (use assms in simp)

lemma attempt_logged:
  assumes "n_url_ok net url"
  obtains s w' where "attempt (logged net) url req (w, l) = (push_ok s, w', l @ [Sent s])"
  using assms by (cases "n_do net url req w") (auto simp: attempt_def logged_def)

text \<open>One round of the loop.\<close>

lemma retryLoop_round:
  assumes "i \<le> maxRetries" "attempt net url req w = (ok, v)"
  shows "retryLoop net url req i backoff w =
     (if ok then (Delivered, v)
      else if i = maxRetries then (Exhausted, v)
      else (case n_wait net backoff v of
              (True, u) \<Rightarrow> retryLoop net url req (Suc i) (backoff * 2) u
            | (False, u) \<Rightarrow> (Cancelled, u)))"
proof -
  have "retryLoop net url req (Suc maxRetries) b v = (Exhausted, v)" for b by (simp add: retryLoop.simps)
  then show ?thesis using assms by (auto simp: retryLoop.simps [of _ _ _ i] split: prod.split bool.split)
qed

lemma push_trace_last: "push_trace maxRetries (if push_ok s then Delivered else Exhausted) [Sent s]"
  by auto

lemma push_trace_first: "i \<le> maxRetries \<Longrightarrow> push_ok s \<Longrightarrow> push_trace i Delivered [Sent s]"
  by (auto intro!: exI [of _ "[]"])

lemma push_trace_cancel: "i < maxRetries \<Longrightarrow> \<not> push_ok s \<Longrightarrow> push_trace i Cancelled [Sent s, Waited (2 ^ i * second)]"
  by (auto intro!: exI [of _ "[s]"])

lemma retryLoop_trace:
  assumes "n_url_ok net url" "i \<le> maxRetries" "backoff = 2 ^ i * second"
  shows "\<exists>l' res w'. retryLoop (logged net) url req i backoff (w, l) = (res, w', l @ l') \<and> push_trace i res l'"
  using assms(2,3)
proof (induction "maxRetries - i" arbitrary: i backoff w l)
  case 0
  obtain s w' where a: "attempt (logged net) url req (w, l) = (push_ok s, w', l @ [Sent s])"
    using attempt_logged [OF assms(1)] .
  have "i = maxRetries" using 0 by simp
  then show ?case using retryLoop_round [OF 0(2) a, of backoff] push_trace_last [of s] by (cases "push_ok s") auto
next
  case (Suc n)
  then have i: "i < maxRetries" by simp
  obtain s w' where a: "attempt (logged net) url req (w, l) = (push_ok s, w', l @ [Sent s])"
    using attempt_logged [OF assms(1)] .
  note round = retryLoop_round [OF Suc.prems(1) a, of backoff]
  obtain b w'' where wt: "n_wait (logged net) backoff (w', l @ [Sent s]) = (b, w'', l @ [Sent s, Waited backoff])"
    by (cases "n_wait net backoff w'") (simp add: logged_def)
  have "n = maxRetries - Suc i" "Suc i \<le> maxRetries" "backoff * 2 = 2 ^ Suc i * second"
    using Suc.hyps(2) i Suc.prems(2) by simp_all
  then obtain l' res w3 where r: "retryLoop (logged net) url req (Suc i) (backoff * 2) (w'', l @ [Sent s, Waited backoff])
      = (res, w3, (l @ [Sent s, Waited backoff]) @ l')" "push_trace (Suc i) res l'"
    using Suc.hyps(1) by blast
  consider "push_ok s" | "\<not> push_ok s" b | "\<not> push_ok s" "\<not> b" by blast
  then show ?case
  proof cases
    case 1
    then show ?thesis using round push_trace_first [OF Suc.prems(1)] by simp
  next
    case 2
    then show ?thesis using round wt i r(1) push_trace_Cons [OF r(2) i] Suc.prems(2) by simp
  next
    case 3
    then show ?thesis using round wt i push_trace_cancel [OF i] Suc.prems(2) by simp
  qed
qed

text \<open>Recording does not change the loop.\<close>

lemma retryLoop_logged:
  "retryLoop net url req i backoff w =
   (case retryLoop (logged net) url req i backoff (w, l) of (res, w', l') \<Rightarrow> (res, w'))"
proof (induction "Suc maxRetries - i" arbitrary: i backoff w l)
  case 0
  then show ?case by (simp add: retryLoop.simps)
next
  case (Suc n)
  have n: "n = Suc maxRetries - Suc i" and i: "i \<le> maxRetries" using Suc.hyps(2) by simp_all
  obtain b v l1 where a: "attempt net url req w = (b, v)" "attempt (logged net) url req (w, l) = (b, v, l1)"
    by (cases "n_url_ok net url"; cases "n_do net url req w") (auto simp: attempt_def logged_def)
  obtain c u where wt: "n_wait net backoff v = (c, u)" "n_wait (logged net) backoff (v, l1) = (c, u, l1 @ [Waited backoff])"
    by (cases "n_wait net backoff v") (auto simp: logged_def)
  have ih: "retryLoop net url req (Suc i) bk x =
      (case retryLoop (logged net) url req (Suc i) bk (x, m) of (res, w', l') \<Rightarrow> (res, w'))" for bk x m
    by (rule Suc.hyps(1) [OF n])
  show ?case
    using ih [of "backoff * 2" u "l1 @ [Waited backoff]"] ih [of backoff v l1] i
    by (auto simp: retryLoop.simps [of _ _ _ i] a wt split: bool.split)
qed

section \<open>Worker against leader\<close>

text \<open>
  A leader as the world of a worker: the receiver and its store, and a clock that moves on by the
  backoff at every wait. The network delivers each request to the receiver.
\<close>

record leader =
  ld_store :: MemoryStore
  ld_clock :: time

definition leader_net :: "'r wire \<Rightarrow> Receiver \<Rightarrow> leader net" where
  "leader_net wire r =
     \<lparr>n_url_ok = (\<lambda>_. True),
      n_do = (\<lambda>url req w. case ServeHTTP UpdateHost wire r (ld_clock w) req (ld_store w) of
                (resp, st) \<Rightarrow> (Some (rs_Status resp), w\<lparr>ld_store := st\<rparr>)),
      n_wait = (\<lambda>d w. (True, w\<lparr>ld_clock := ld_clock w + d\<rparr>))\<rparr>"

text \<open>What the codecs promise: gzip and the JSON codec give back what they were given.\<close>

definition wire_ok :: "'r wire \<Rightarrow> bool" where
  "wire_ok w \<longleftrightarrow> crypto_ok (w_crypto w) \<and> (\<forall>d. w_gunzip w (w_gzip w d, False) = Inr (Inr d))"

lemma pushHeader_simps:
  "pushHeader e t ''Content-Encoding'' = ''gzip''"
  "pushHeader e t ''X-CastleRock-Encrypted'' = (if e then ''true'' else '''')"
  "pushHeader e t ''Authorization'' = (if t = '''' then '''' else ''Bearer '' @ t)"
  by (simp_all add: pushHeader_def Let_def)

lemma pushRequest_body:
  assumes "wire_ok wire" "length (w_gzip wire d) \<le> body_limit"
  shows "body_of wire (pushRequest e t (w_gzip wire d)) b \<longleftrightarrow> b = d"
  using assms by (auto simp: body_of_def pushRequest_def pushHeader_simps maxBytesReader_def wire_ok_def)

text \<open>The request of a worker that shares the leader's secret and token carries its payload.\<close>

lemma pushRequest_valid:
  assumes "wire_ok wire" "length (w_gzip wire d) \<le> body_limit" "w_unmarshal wire plain = Inr p"
    and "if rc_sharedSecret r = '''' then d = plain else Decrypt (w_crypto wire) d (rc_sharedSecret r) = Inr plain"
    and "authToken = rc_token r"
  shows "valid_push wire r (pushRequest (rc_sharedSecret r \<noteq> '''') authToken (w_gzip wire d)) q \<longleftrightarrow> q = p \<and> pp_HostID p \<noteq> ''''"
proof -
  let ?req = "pushRequest (rc_sharedSecret r \<noteq> '''') authToken (w_gzip wire d)"
  have "rq_Method ?req = ''POST''" "authorised r ?req"
    using assms(5) by (auto simp: authorised_def pushRequest_def pushHeader_simps)
  moreover have "plain_of wire r ?req d x \<longleftrightarrow> x = plain" for x
    using assms(4) by (auto simp: plain_of_def pushRequest_def pushHeader_simps)
  ultimately show ?thesis
    unfolding valid_push_def pushRequest_body [OF assms(1,2)] using assms(3) by auto
qed

lemma retryLoop_delivers:
  assumes "valid_push wire r req p"
  shows "retryLoop (leader_net wire r) url req 0 backoff w =
         (Delivered, w\<lparr>ld_store := UpdateHost (ld_clock w) p (ld_store w)\<rparr>)"
  by (subst retryLoop.simps)
    (simp add: attempt_def leader_net_def serve_valid [OF assms] push_ok_def)

lemma attempt_rejected:
  assumes "\<nexists>p. valid_push wire r req p"
  shows "attempt (leader_net wire r) url req w = (False, w)"
  using serve_invalid [OF assms, of UpdateHost "ld_clock w" "ld_store w"]
  by (auto simp: attempt_def leader_net_def push_ok_def split: prod.splits)

lemma leader_wait: "n_wait (leader_net wire r) d w = (True, w\<lparr>ld_clock := ld_clock w + d\<rparr>)"
  by (simp add: leader_net_def)

lemma retryLoop_rejected:
  assumes "\<nexists>p. valid_push wire r req p"
  shows "retryLoop (leader_net wire r) url req 0 (1 * second) w = (Exhausted, w\<lparr>ld_clock := ld_clock w + 7 * second\<rparr>)"
  by (simp add: retryLoop.simps attempt_rejected [OF assms] maxRetries_def leader_wait)

text \<open>Encoding a payload for the leader.\<close>

definition encoded :: "'r wire \<Rightarrow> string \<Rightarrow> PushPayload \<Rightarrow> 'r \<Rightarrow> string \<Rightarrow> 'r \<Rightarrow> bool" where
  "encoded wire secret payload rng d rng' \<longleftrightarrow>
     (\<exists>data. w_marshal wire payload = Inr data \<and>
        (if secret = '''' then (Inr d, rng') = (Inr data :: error + string, rng)
         else Encrypt (w_crypto wire) data secret rng = (Inr d, rng')))"

lemma sendPushPayload_encoded:
  assumes "encoded wire secret payload rng d rng'"
  shows "sendPushPayload wire net url secret authToken payload rng w failures =
     (case retryLoop net url (pushRequest (secret \<noteq> '''') authToken (w_gzip wire d)) 0 (1 * second) w of
        (res, w) \<Rightarrow> (res, rng', w, if res = Exhausted then failures + 1 else failures))"
  using assms by (cases "secret = ''''") (auto simp: encoded_def sendPushPayload_def Let_def split: prod.split)

lemma encoded_plain:
  assumes "wire_ok wire" "encoded wire secret payload rng d rng'" "w_marshal wire payload = Inr data"
  shows "if secret = '''' then d = data else Decrypt (w_crypto wire) d secret = Inr data"
  using assms Decrypt_Encrypt [of "w_crypto wire" data secret rng d rng']
  by (auto simp: encoded_def wire_ok_def split: if_splits)

section \<open>Properties\<close>

text \<open>
  C20: a push makes at most four attempts, waiting 1, 2 and 4 seconds between them, and stops at the
  first answer 200 or 202. It ends as delivered after that answer, as exhausted after four failures,
  or as cancelled during a wait; there is no other outcome and the loop always ends.
\<close>

theorem push_retries_with_backoff:
  assumes "n_url_ok net url"
  shows "\<exists>res w' l. retryLoop (logged net) url req 0 (1 * second) (w, []) = (res, w', l)
       \<and> retryLoop net url req 0 (1 * second) w = (res, w') \<and> push_trace 0 res l"
proof -
  obtain l res w' where r: "retryLoop (logged net) url req 0 (1 * second) (w, []) = (res, w', [] @ l)" "push_trace 0 res l"
    using retryLoop_trace [OF assms, of 0 "1 * second" req w "[]"] by auto
  moreover have "retryLoop net url req 0 (1 * second) w = (res, w')"
    using retryLoop_logged [of net url req 0 "1 * second" w "[]"] r by simp
  ultimately show ?thesis by auto
qed

definition down_net :: "unit net" where
  "down_net = \<lparr>n_url_ok = (\<lambda>_. True), n_do = (\<lambda>_ _ w. (None, w)), n_wait = (\<lambda>_ w. (True, w))\<rparr>"

theorem push_retries_with_backoff_witness:
  "push_trace 0 Exhausted [Sent None, Waited second, Sent None, Waited (2 * second), Sent None, Waited (4 * second), Sent None]"
proof -
  have "retryLoop (logged down_net) ''u'' req 0 (1 * second) ((), []) =
      (Exhausted, (), [Sent None, Waited second, Sent None, Waited (2 * second), Sent None, Waited (4 * second), Sent None])"
    for req by (simp add: retryLoop.simps attempt_def logged_def down_net_def push_ok_def maxRetries_def)
  moreover have "n_url_ok down_net ''u''" by (simp add: down_net_def)
  ultimately show ?thesis
    using push_retries_with_backoff [of down_net "''u''" "pushRequest False '''' ''''" "()"] by auto
qed

text \<open>
  The failure counter counts exactly the pushes given up after all attempts; a push that was
  delivered, cancelled or could not be encoded leaves it unchanged.
\<close>

theorem push_failures_counted:
  "case sendPushPayload wire net url secret authToken payload rng w failures of
     (res, rng', w', failures') \<Rightarrow> failures' = (if res = Exhausted then failures + 1 else failures)"
  by (auto simp: sendPushPayload_def Let_def split: sum.split prod.split if_split)

text \<open>
  C9: worker to leader, end to end. When worker and leader share secret and token and the payload
  encodes to at most 5 MiB, a push with a host ID is delivered at the first attempt and the leader's
  store holds exactly that payload for the host; a push without a host ID is refused four times over
  seven seconds, counted as a failure, and never stored.
\<close>

theorem push_reaches_the_leader:
  assumes "wire_ok wire" "encoded wire (rc_sharedSecret r) payload rng d rng'"
    and "length (w_gzip wire d) \<le> body_limit"
    and "w_marshal wire payload = Inr data" "w_unmarshal wire data = Inr payload"
  shows "sendPushPayload wire (leader_net wire r) url (rc_sharedSecret r) (rc_token r) payload rng w failures =
     (if pp_HostID payload \<noteq> ''''
      then (Delivered, rng', w\<lparr>ld_store := UpdateHost (ld_clock w) payload (ld_store w)\<rparr>, failures)
      else (Exhausted, rng', w\<lparr>ld_clock := ld_clock w + 7 * second\<rparr>, failures + 1))"
proof -
  let ?req = "pushRequest (rc_sharedSecret r \<noteq> '''') (rc_token r) (w_gzip wire d)"
  note valid = pushRequest_valid [OF assms(1,3,5) encoded_plain [OF assms(1,2,4)] refl]
  note send = sendPushPayload_encoded [OF assms(2)]
  show ?thesis
  proof (cases "pp_HostID payload = ''''")
    case False
    then show ?thesis using retryLoop_delivers [of wire r ?req payload] valid unfolding send by simp
  next
    case True
    then have "\<nexists>p. valid_push wire r ?req p" using valid by simp
    then show ?thesis using True retryLoop_rejected [of wire r ?req url w] unfolding send by simp
  qed
qed

lemma ex_wire_ok: "wire_ok ex_wire"
  by (simp add: wire_ok_def ex_wire_def ex_crypto_ok)

theorem push_reaches_the_leader_witness:
  "sendPushPayload ex_wire (leader_net ex_wire (NewReceiver ''s'' ''tok'')) ''u'' ''s'' ''tok'' (ex_payload ''h1'' ''c1'') 0
     \<lparr>ld_store = NewMemoryStore, ld_clock = 5\<rparr> 0 =
   (Delivered, 2, \<lparr>ld_store = UpdateHost 5 (ex_payload ''h1'' ''c1'') NewMemoryStore, ld_clock = 5\<rparr>, 0)"
proof -
  let ?r = "NewReceiver ''s'' ''tok''"
  have "Encrypt ex_crypto ''h1'' ''s'' 0 = (Inr ex_sealed, 2)" by code_simp
  then have "encoded ex_wire (rc_sharedSecret ?r) (ex_payload ''h1'' ''c1'') 0 ex_sealed 2"
    by (simp add: encoded_def ex_wire_def ex_payload_def NewReceiver_def)
  moreover have "length (w_gzip ex_wire ex_sealed) \<le> body_limit" by (simp add: ex_wire_def ex_sealed_def body_limit_def)
  moreover have "w_marshal ex_wire (ex_payload ''h1'' ''c1'') = Inr ''h1''" "w_unmarshal ex_wire ''h1'' = Inr (ex_payload ''h1'' ''c1'')"
    by (simp_all add: ex_wire_def ex_payload_def)
  ultimately show ?thesis
    using push_reaches_the_leader [OF ex_wire_ok, of ?r "ex_payload ''h1'' ''c1''" 0 ex_sealed 2 "''h1''" "''u''" _ 0]
    by (simp add: NewReceiver_def ex_payload_def)
qed

text \<open>
  A tick labels its whole payload with the worker's host ID and loses nothing: the payload's
  host, every container and every metric carry the configured ID, and up to that label they are the
  containers and metrics the Docker client returned, in order.
\<close>

theorem payload_carries_host:
  "pp_HostID (buildPayload host cs ms) = host
   \<and> map ci_HostID (pp_Containers (buildPayload host cs ms)) = replicate (length cs) host
   \<and> map cm_HostID (pp_Metrics (buildPayload host cs ms)) = replicate (length ms) host
   \<and> map ci_ID (pp_Containers (buildPayload host cs ms)) = map ci_ID cs
   \<and> map cm_ContainerID (pp_Metrics (buildPayload host cs ms)) = map (cm_ContainerID \<circ> snd) ms"
  by (simp add: buildPayload_def comp_def case_prod_unfold map_replicate_const)

end
