(* ===== verification/Storage.thy ===== *)
theory Storage
  imports Prelude
begin

text \<open>
  \<^verbatim>\<open>internal/storage/sqlite.go\<close>: the event store with its asynchronous write queue. Saving, the write
  worker and closing run concurrently; the store is a state machine whose steps are a save by some
  caller, one iteration of the worker, and the two halves of \<open>Close\<close>. The database is the list of
  rows inserted.
\<close>

section \<open>The store\<close>

record saveOptions =
  RecordType :: string
  ActionOrSeverity :: string
  Container :: string
  Message :: string

datatype life = Open | Closing | Closed | Panicked

record SQLiteStore =
  saveCh :: "saveOptions list"
  rows :: "(time \<times> saveOptions) list"
  state :: life

definition queueSize :: nat where "queueSize = 500"

definition freshStore :: SQLiteStore where
  "freshStore = \<lparr>saveCh = [], rows = [], state = Open\<rparr>"

text \<open>\<open>NewSQLiteStore\<close>: the data source name, and the answers of the driver to open, ping and create.\<close>

definition sqlite_dsn :: "time \<Rightarrow> string \<Rightarrow> string" where
  "sqlite_dsn now dbPath =
     (if dbPath \<noteq> '':memory:''
      then dbPath @ ''?_pragma=busy_timeout(5000)&_pragma=journal_mode(WAL)&_pragma=synchronous(NORMAL)''
      else ''file:memdb_'' @ int_str now @ ''?mode=memory&cache=shared'')"

record sql_driver =
  sql_Open :: "string \<Rightarrow> error option"
  sql_Ping :: "error option"
  sql_Exec :: "error option"

definition NewSQLiteStore :: "sql_driver \<Rightarrow> time \<Rightarrow> string \<Rightarrow> error + SQLiteStore" where
  "NewSQLiteStore drv now dbPath =
     (case sql_Open drv (sqlite_dsn now dbPath) of
        Some err \<Rightarrow> Inl (''storage: failed to open sqlite: '' @ err)
      | None \<Rightarrow>
          (case sql_Ping drv of
             Some err \<Rightarrow> Inl (''storage: failed to connect to database: '' @ err)
           | None \<Rightarrow>
               (case sql_Exec drv of
                  Some err \<Rightarrow> Inl (''storage: failed to initialize tables: '' @ err)
                | None \<Rightarrow> Inr freshStore)))"

text \<open>
  \<open>save\<close>: a \<open>select\<close> with a default never blocks: it queues the record or drops it. A send on the
  channel that \<open>Close\<close> has closed panics.
\<close>

definition save :: "saveOptions \<Rightarrow> SQLiteStore \<Rightarrow> SQLiteStore" where
  "save opts s =
     (case state s of
        Open \<Rightarrow> if length (saveCh s) < queueSize then s\<lparr>saveCh := saveCh s @ [opts]\<rparr> else s
      | _ \<Rightarrow> s\<lparr>state := Panicked\<rparr>)"

definition SaveEvent :: "string \<Rightarrow> string \<Rightarrow> string \<Rightarrow> SQLiteStore \<Rightarrow> SQLiteStore" where
  "SaveEvent action container message s =
     save \<lparr>RecordType = ''event'', ActionOrSeverity = action, Container = container, Message = message\<rparr> s"

text \<open>One iteration of \<open>writeWorker\<close>; \<open>ok\<close> is whether the insertion succeeds, its error is ignored.\<close>

definition writeWorker :: "time \<Rightarrow> bool \<Rightarrow> SQLiteStore \<Rightarrow> SQLiteStore" where
  "writeWorker now ok s =
     (case saveCh s of
        [] \<Rightarrow> s
      | opts # q \<Rightarrow> s\<lparr>saveCh := q, rows := (if ok then rows s @ [(now, opts)] else rows s)\<rparr>)"

text \<open>
  \<open>Close\<close>: it closes the channel, then waits until the worker has drained it and closes the
  database. A second call does nothing.
\<close>

definition closeBegin :: "SQLiteStore \<Rightarrow> SQLiteStore" where
  "closeBegin s = (if state s = Open then s\<lparr>state := Closing\<rparr> else s)"

definition closeEnd :: "SQLiteStore \<Rightarrow> SQLiteStore" where
  "closeEnd s = (if state s = Closing \<and> saveCh s = [] then s\<lparr>state := Closed\<rparr> else s)"

text \<open>
  \<open>GetRecent\<close> over what the query returns: an error, or the rows, each of which scans or fails.
  \<open>parse\<close> is \<open>time.Parse\<close> with the layout of the source followed by \<open>Local()\<close>.
\<close>

record EventRecord =
  er_ID :: int
  er_Timestamp :: time
  er_Type :: string
  er_Action :: string
  er_Container :: string
  er_Message :: string

type_synonym scanned = "int \<times> string \<times> string \<times> string \<times> string \<times> string"

definition toRecord :: "(string \<Rightarrow> time option) \<Rightarrow> time \<Rightarrow> scanned \<Rightarrow> EventRecord" where
  "toRecord parse now r =
     (case r of (i, tsStr, ty, ac, co, ms) \<Rightarrow>
        \<lparr>er_ID = i, er_Timestamp = (case parse tsStr of Some t \<Rightarrow> t | None \<Rightarrow> now), er_Type = ty, er_Action = ac,
         er_Container = co, er_Message = ms\<rparr>)"

fun scanRows :: "(string \<Rightarrow> time option) \<Rightarrow> time \<Rightarrow> (error + scanned) list \<Rightarrow> EventRecord list \<Rightarrow> error + EventRecord list" where
  "scanRows parse now [] results = Inr results"
| "scanRows parse now (Inl err # rs) results = Inl err"
| "scanRows parse now (Inr r # rs) results = scanRows parse now rs (results @ [toRecord parse now r])"

definition GetRecent ::
  "(int \<Rightarrow> error + (error + scanned) list) \<Rightarrow> (string \<Rightarrow> time option) \<Rightarrow> time \<Rightarrow> int \<Rightarrow> error + EventRecord list" where
  "GetRecent query parse now limit =
     (case query limit of Inl err \<Rightarrow> Inl err | Inr rs \<Rightarrow> scanRows parse now rs [])"

section \<open>Runs\<close>

datatype action = Save saveOptions | Work time bool | CloseBegin | CloseEnd

fun act :: "action \<Rightarrow> SQLiteStore \<Rightarrow> SQLiteStore" where
  "act (Save o1) s = save o1 s"
| "act (Work now ok) s = writeWorker now ok s"
| "act CloseBegin s = closeBegin s"
| "act CloseEnd s = closeEnd s"

text \<open>
  Reachable states with two history variables: the saves that were accepted so far, because the queue
  had room and the store was not closed, and the insertions that the worker has attempted, each with
  its time and its success. The worker has nothing to do on an empty queue.
\<close>

inductive reach :: "saveOptions list \<Rightarrow> (time \<times> bool) list \<Rightarrow> SQLiteStore \<Rightarrow> bool" where
  reach_new: "reach [] [] freshStore"
| reach_save: "reach acc ws s \<Longrightarrow> state s = Open \<Longrightarrow> length (saveCh s) < 500 \<Longrightarrow> reach (acc @ [o1]) ws (act (Save o1) s)"
| reach_drop: "reach acc ws s \<Longrightarrow> \<not> (state s = Open \<and> length (saveCh s) < 500) \<Longrightarrow> reach acc ws (act (Save o1) s)"
| reach_work: "reach acc ws s \<Longrightarrow> saveCh s \<noteq> [] \<Longrightarrow> reach acc (ws @ [(now, ok)]) (act (Work now ok) s)"
| reach_close_begin: "reach acc ws s \<Longrightarrow> reach acc ws (act CloseBegin s)"
| reach_close_end: "reach acc ws s \<Longrightarrow> reach acc ws (act CloseEnd s)"

lemmas step_defs = save_def writeWorker_def closeBegin_def closeEnd_def freshStore_def queueSize_def

text \<open>The rows that the attempts \<open>ws\<close> write of the records \<open>q\<close>: one attempt per record, in order.\<close>

definition written :: "saveOptions list \<Rightarrow> (time \<times> bool) list \<Rightarrow> (time \<times> saveOptions) list" where
  "written q ws = map (\<lambda>(o1, t, ok). (t, o1)) (filter (\<lambda>(o1, t, ok). ok) (zip q ws))"

lemma written_Nil [simp]: "written [] ws = []" "written q [] = []"
  by (simp_all add: written_def)

lemma written_Cons [simp]: "written (o1 # q) ((t, ok) # ws) = (if ok then [(t, o1)] else []) @ written q ws"
  by (simp add: written_def)

lemma written_append: "length q = length ws \<Longrightarrow> written (q @ q') (ws @ ws') = written q ws @ written q' ws'"
  by (simp add: written_def)

lemma written_more: "length ws \<le> length q \<Longrightarrow> written (q @ q') ws = written q ws"
  by (simp add: written_def zip_append1)

lemma written_all: "length ws \<le> length q \<Longrightarrow> list_all snd ws \<Longrightarrow> map snd (written q ws) = take (length ws) q"
proof (induction ws arbitrary: q)
  case (Cons w ws)
  then show ?case by (cases q; cases w) auto
qed simp

lemma reach_queue_bounded: "reach acc ws s \<Longrightarrow> length (saveCh s) \<le> 500"
  by (induction rule: reach.induct) (auto simp: step_defs split: life.split list.split)

lemma written_snoc:
  assumes "drop (length ws) acc = x # q"
  shows "written acc (ws @ [(now, ok)]) = written acc ws @ (if ok then [(now, x)] else [])"
proof -
  have l: "length ws < length acc" using assms by (metis drop_all list.distinct(1) not_le)
  have acc: "acc = take (length ws) acc @ x # q" using assms by (metis append_take_drop_id)
  have w: "length (take (length ws) acc) = length ws" using l by simp
  have "written acc (ws @ [(now, ok)]) = written (take (length ws) acc) ws @ written (x # q) [(now, ok)]"
    using written_append [OF w] acc by metis
  moreover have "written acc ws = written (take (length ws) acc) ws"
    using written_more [of ws "take (length ws) acc" "x # q"] w acc by (metis order_refl)
  ultimately show ?thesis by simp
qed

lemma reach_fifo: "reach acc ws s \<Longrightarrow> length ws \<le> length acc \<and> saveCh s = drop (length ws) acc \<and> rows s = written acc ws"
proof (induction rule: reach.induct)
  case (reach_save acc ws s o1)
  then show ?case by (simp add: step_defs written_more)
next
  case (reach_work acc ws s now ok)
  obtain x q where q: "saveCh s = x # q" using reach_work.hyps(2) by (cases "saveCh s") auto
  then have d: "drop (length ws) acc = x # q" using reach_work.IH by simp
  then have "length ws < length acc" "drop (Suc (length ws)) acc = q"
    by (metis drop_all list.distinct(1) not_le, metis drop_Suc list.sel(3) tl_drop)
  moreover have "rows s = written acc ws" using reach_work.IH by simp
  moreover have "act (Work now ok) s = s\<lparr>saveCh := q, rows := rows s @ (if ok then [(now, x)] else [])\<rparr>"
    using q by (simp add: writeWorker_def)
  ultimately show ?case using written_snoc [OF d] by simp
qed (auto simp: step_defs split: life.split)

lemma reach_closed_empty: "reach acc ws s \<Longrightarrow> state s = Closed \<Longrightarrow> saveCh s = []"
  by (induction rule: reach.induct) (auto simp: step_defs split: life.splits list.split if_splits)

text \<open>The worker's iterations with the given times and results.\<close>

definition works :: "(time \<times> bool) list \<Rightarrow> SQLiteStore \<Rightarrow> SQLiteStore" where
  "works ws = fold (\<lambda>(now, ok). writeWorker now ok) ws"

lemma works_eq: "length ws \<le> length (saveCh s) \<Longrightarrow>
   works ws s = s\<lparr>saveCh := drop (length ws) (saveCh s), rows := rows s @ written (saveCh s) ws\<rparr>"
proof (induction ws arbitrary: s)
  case (Cons w ws)
  then obtain t ok x q where w: "w = (t, ok)" and q: "saveCh s = x # q" by (cases w; cases "saveCh s") auto
  then show ?case using Cons.prems Cons.IH [of "writeWorker t ok s"] by (simp add: works_def writeWorker_def)
qed (simp add: works_def)

section \<open>Reading back\<close>

lemma scanRows_Inr:
  "scanRows parse now rs acc = Inr out \<longleftrightarrow> (\<exists>ss. rs = map Inr ss \<and> out = acc @ map (toRecord parse now) ss)"
proof (induction rs arbitrary: acc)
  case Nil
  then show ?case by auto
next
  case (Cons r rs)
  then show ?case by (cases r) (auto simp: Cons_eq_map_conv)
qed

lemma scanRows_Inl:
  "scanRows parse now rs acc = Inl err \<longleftrightarrow> (\<exists>ss rest. rs = map Inr ss @ Inl err # rest)"
proof (induction rs arbitrary: acc)
  case Nil
  then show ?case by auto
next
  case (Cons r rs)
  show ?case
  proof (cases r)
    case (Inl e)
    then have "(\<exists>ss rest. r # rs = map Inr ss @ Inl err # rest) \<longleftrightarrow> e = err"
      by (auto simp: Cons_eq_append_conv intro: exI [of _ "[]"])
    with Inl show ?thesis by simp
  next
    case (Inr x)
    have "(\<exists>ss rest. r # rs = map Inr ss @ Inl err # rest) \<longleftrightarrow> (\<exists>ss rest. rs = map Inr ss @ Inl err # rest)"
    proof
      assume "\<exists>ss rest. r # rs = map Inr ss @ Inl err # rest"
      then show "\<exists>ss rest. rs = map Inr ss @ Inl err # rest"
        using Inr by (auto simp: Cons_eq_append_conv Cons_eq_map_conv)
    next
      assume "\<exists>ss rest. rs = map Inr ss @ Inl err # rest"
      then obtain ss rest where "r # rs = map Inr (x # ss) @ Inl err # rest" using Inr by auto
      then show "\<exists>ss rest. r # rs = map Inr ss @ Inl err # rest" by blast
    qed
    with Inr Cons.IH show ?thesis by simp
  qed
qed

section \<open>Properties\<close>

text \<open>
  Reading the history returns one record per row in the order of the query when every row scans,
  and otherwise the first error, with no partial result.
\<close>

theorem recent_events_all_or_error:
  "(GetRecent query parse now limit = Inr out \<longleftrightarrow>
      (\<exists>ss. query limit = Inr (map Inr ss) \<and> out = map (toRecord parse now) ss)) \<and>
   (GetRecent query parse now limit = Inl err \<longleftrightarrow>
      query limit = Inl err \<or> (\<exists>ss rest. query limit = Inr (map Inr ss @ Inl err # rest)))"
  by (cases "query limit") (simp_all add: GetRecent_def scanRows_Inr scanRows_Inl)

text \<open>
  C19: the store keeps order, bounds memory and loses only what the database refuses. In every reachable
  state the queue holds at most 500 records; the worker has attempted exactly one insertion for each of
  the first accepted saves, in order, and the queue holds all later ones; the rows are the attempted
  saves with the time of the attempt, less those whose insertion failed. So, as long as no insertion
  fails, rows and queue together are all accepted saves; and once \<open>Close\<close> has returned, an insertion
  has been attempted for every accepted save.
\<close>

theorem store_fifo_bounded:
  assumes "reach acc ws s"
  shows "length (saveCh s) \<le> 500 \<and> length ws \<le> length acc
     \<and> saveCh s = drop (length ws) acc \<and> rows s = written acc ws
     \<and> (list_all snd ws \<longrightarrow> map snd (rows s) @ saveCh s = acc)
     \<and> (state s = Closed \<longrightarrow> length ws = length acc)"
  using reach_queue_bounded [OF assms] reach_fifo [OF assms] reach_closed_empty [OF assms] written_all [of ws acc]
  by auto

definition ex_save :: "string \<Rightarrow> saveOptions" where
  "ex_save name = \<lparr>RecordType = ''event'', ActionOrSeverity = ''start'', Container = name, Message = ''''\<rparr>"

text \<open>Two saves, of which the database refuses the first.\<close>

lemma ex_closed:
  "reach [ex_save ''web'', ex_save ''db''] [(7, False), (8, True)] \<lparr>saveCh = [], rows = [(8, ex_save ''db'')], state = Closed\<rparr>"
proof -
  let ?s = "act (Save (ex_save ''db'')) (act (Save (ex_save ''web'')) freshStore)"
  have "reach (([] @ [ex_save ''web'']) @ [ex_save ''db'']) [] ?s"
    by (intro reach_save reach_new) (simp_all add: step_defs)
  then have "reach [ex_save ''web'', ex_save ''db''] [] (act CloseBegin ?s)" by (simp add: reach_close_begin del: act.simps)
  then have "reach [ex_save ''web'', ex_save ''db''] (([] @ [(7, False)]) @ [(8, True)]) (act (Work 8 True) (act (Work 7 False) (act CloseBegin ?s)))"
    by (intro reach_work) (simp_all add: step_defs)
  then have "reach [ex_save ''web'', ex_save ''db''] [(7, False), (8, True)] (act CloseEnd (act (Work 8 True) (act (Work 7 False) (act CloseBegin ?s))))"
    by (simp add: reach_close_end del: act.simps)
  then show ?thesis by (simp add: step_defs)
qed

theorem store_fifo_bounded_witness:
  "written [ex_save ''web'', ex_save ''db''] [(7, False), (8, True)] = [(8, ex_save ''db'')]"
  using store_fifo_bounded [OF ex_closed] by simp

text \<open>
  C40: closing terminates, whatever the database answers: once \<open>Close\<close> has closed the channel, one worker
  iteration per queued record empties the queue and lets \<open>Close\<close> return, with a row for each record whose
  insertion succeeded; until the last of them \<open>Close\<close> waits. A save that comes after \<open>Close\<close> has begun
  panics instead of being dropped.
\<close>

theorem close_drains_and_returns:
  assumes "state s = Open"
  shows "(\<forall>ws. length ws = length (saveCh s) \<longrightarrow>
        closeEnd (works ws (closeBegin s)) = \<lparr>saveCh = [], rows = rows s @ written (saveCh s) ws, state = Closed\<rparr>)
     \<and> (\<forall>ws. length ws < length (saveCh s) \<longrightarrow> state (closeEnd (works ws (closeBegin s))) = Closing)
     \<and> state (SaveEvent action container message (closeBegin s)) = Panicked"
  using assms by (simp add: works_eq closeBegin_def closeEnd_def SaveEvent_def save_def)

theorem close_drains_and_returns_witness:
  "closeEnd (works [(7, False), (8, True)] (closeBegin (save (ex_save ''db'') (save (ex_save ''web'') freshStore)))) =
     \<lparr>saveCh = [], rows = [(8, ex_save ''db'')], state = Closed\<rparr>
   \<and> state (closeEnd (works [(7, False)] (closeBegin (save (ex_save ''db'') (save (ex_save ''web'') freshStore))))) = Closing"
proof -
  let ?s = "save (ex_save ''db'') (save (ex_save ''web'') freshStore)"
  have s: "state ?s = Open" "saveCh ?s = [ex_save ''web'', ex_save ''db'']" "rows ?s = []"
    by (simp_all add: step_defs)
  from close_drains_and_returns [OF s(1)] s(2,3) show ?thesis by simp
qed

end
