(* ===== verification/Logger.thy ===== *)
theory Logger
  imports Models
begin

text \<open>
  \<^verbatim>\<open>internal/logger/logger.go\<close>: the pretty log handler, the level names, the container table printed to
  the terminal, and \<open>Redact\<close>. Terminal output is the string written; box-drawing and emoji
  characters are their UTF-8 bytes. The rendering of a time stamp and of an attribute value are
  parameters.
\<close>

section \<open>The log handler\<close>

definition esc :: "string \<Rightarrow> string" where "esc s = CHR 0x1B # s"

definition colorReset :: string where "colorReset = esc ''[0m''"
definition colorBold :: string where "colorBold = esc ''[1m''"
definition colorDim :: string where "colorDim = esc ''[2m''"
definition colorItalic :: string where "colorItalic = esc ''[3m''"
definition colorRed :: string where "colorRed = esc ''[31m''"
definition colorGreen :: string where "colorGreen = esc ''[32m''"
definition colorMagenta :: string where "colorMagenta = esc ''[35m''"
definition colorCyan :: string where "colorCyan = esc ''[36m''"
definition colorWhite :: string where "colorWhite = esc ''[37m''"
definition colorBrightRed :: string where "colorBrightRed = esc ''[91m''"
definition colorBrightGreen :: string where "colorBrightGreen = esc ''[92m''"
definition colorBrightYellow :: string where "colorBrightYellow = esc ''[93m''"
definition colorBrightCyan :: string where "colorBrightCyan = esc ''[96m''"

lemmas color_defs =
  colorReset_def colorBold_def colorDim_def colorItalic_def colorRed_def colorGreen_def colorMagenta_def
  colorCyan_def colorWhite_def colorBrightRed_def colorBrightGreen_def colorBrightYellow_def
  colorBrightCyan_def esc_def

text \<open>An attribute: its key and the text of its value, \<open>None\<close> for the nil value of \<open>slog.Attr{}\<close>.\<close>

record Attr =
  at_Key :: string
  at_Value :: "string option"

record PrettyHandler =
  h_level :: int
  h_attrs :: "Attr list"
  h_group :: string

definition LevelDebug :: int where "LevelDebug = -4"
definition LevelInfo :: int where "LevelInfo = 0"
definition LevelWarn :: int where "LevelWarn = 4"
definition LevelError :: int where "LevelError = 8"

lemmas level_defs = LevelDebug_def LevelInfo_def LevelWarn_def LevelError_def

definition NewPrettyHandler :: "int option \<Rightarrow> PrettyHandler" where
  "NewPrettyHandler opts =
     \<lparr>h_level = (case opts of None \<Rightarrow> LevelInfo | Some l \<Rightarrow> l), h_attrs = [], h_group = ''''\<rparr>"

definition Enabled :: "PrettyHandler \<Rightarrow> int \<Rightarrow> bool" where
  "Enabled h level \<longleftrightarrow> level \<ge> h_level h"

definition formatLevel :: "int \<Rightarrow> string \<times> string" where
  "formatLevel level =
     (if level < LevelInfo then (''DEBUG'', colorBrightCyan)
      else if level < LevelWarn then (''INFO'', colorBrightGreen)
      else if level < LevelError then (''WARN'', colorBrightYellow)
      else (''ERROR'', colorBrightRed))"

definition appendAttr :: "PrettyHandler \<Rightarrow> string \<Rightarrow> Attr \<Rightarrow> string" where
  "appendAttr h b a =
     (if a = \<lparr>at_Key = '''', at_Value = None\<rparr> then b
      else
        let key = (if h_group h \<noteq> '''' then h_group h @ ''.'' @ at_Key a else at_Key a);
            val = (case at_Value a of Some v \<Rightarrow> v | None \<Rightarrow> ''<nil>'')
        in b @ '' '' @ colorCyan @ key @ colorReset @ ''='' @ colorWhite @ val @ colorReset)"

definition vbar :: string where "vbar = [CHR 0xE2, CHR 0x94, CHR 0x82]"

text \<open>The verbs \<open>%-5s\<close>, \<open>%-14s\<close> and \<open>%-16s\<close> on ASCII text.\<close>

definition pad_right :: "nat \<Rightarrow> string \<Rightarrow> string" where
  "pad_right n s = s @ replicate (n - length s) (CHR '' '')"

text \<open>\<open>Handle\<close> returns the line it writes.\<close>

definition Handle :: "PrettyHandler \<Rightarrow> string \<Rightarrow> int \<Rightarrow> string \<Rightarrow> Attr list \<Rightarrow> string" where
  "Handle h timeStr level msg attrs =
     (let (levelStr, levelColor) = formatLevel level;
          b = colorDim @ timeStr @ colorReset @ '' '';
          b = b @ levelColor @ pad_right 5 levelStr @ colorReset @ '' '';
          b = b @ colorDim @ vbar @ colorReset @ '' '';
          b = b @ colorBold @ msg @ colorReset;
          b = foldl (appendAttr h) b (h_attrs h);
          b = foldl (appendAttr h) b attrs
      in b @ [CHR 0x0A])"

definition WithAttrs :: "PrettyHandler \<Rightarrow> Attr list \<Rightarrow> PrettyHandler" where
  "WithAttrs h attrs = h\<lparr>h_attrs := h_attrs h @ attrs\<rparr>"

definition WithGroup :: "PrettyHandler \<Rightarrow> string \<Rightarrow> PrettyHandler" where
  "WithGroup h name = h\<lparr>h_group := (if h_group h \<noteq> '''' then h_group h @ ''.'' @ name else name)\<rparr>"

definition Setup :: "(string \<Rightarrow> string) \<Rightarrow> string \<Rightarrow> PrettyHandler" where
  "Setup uni level =
     (let l = to_lower uni level;
          slogLevel = (if l = ''debug'' then LevelDebug
                       else if l = ''warn'' \<or> l = ''warning'' then LevelWarn
                       else if l = ''error'' then LevelError
                       else LevelInfo)
      in NewPrettyHandler (Some slogLevel))"

section \<open>Terminal tables\<close>

record ContainerDisplay =
  cd_HostID :: string
  cd_ID :: string
  cd_Name :: string
  cd_Image :: string
  cd_Status :: string
  cd_State :: string
  cd_Command :: string
  cd_Ports :: string
  cd_Created :: string
  cd_Networks :: "string list"
  cd_Labels :: "(string \<times> string) list"
  cd_SizeRw :: string
  cd_Env :: "string list"
  cd_HealthStatus :: string
  cd_HealthLog :: string
  cd_Mounts :: "string list"
  cd_RestartPolicy :: string
  cd_RestartCount :: int
  cd_CPULimit :: float64
  cd_MemoryLimit :: int
  cd_Entrypoint :: string

definition nl :: string where "nl = [CHR 0x0A]"

definition printField :: "string \<Rightarrow> string \<Rightarrow> string" where
  "printField key value =
     ''  '' @ colorDim @ vbar @ colorReset @ ''  '' @ colorCyan @ pad_right 14 (key @ '':'') @ colorReset @ '' '' @
     colorWhite @ value @ colorReset @ nl"

definition printLabel :: "string \<times> string \<Rightarrow> string" where
  "printLabel kv =
     ''  '' @ colorDim @ vbar @ colorReset @ ''     '' @ colorItalic @ fst kv @ colorReset @ ''='' @
     colorDim @ snd kv @ colorReset @ nl"

definition hline :: "nat \<Rightarrow> string" where
  "hline n = concat (replicate n [CHR 0xE2, CHR 0x94, CHR 0x80])"

definition colorBrightBlue :: string where "colorBrightBlue = esc ''[94m''"
definition colorBrightWhite :: string where "colorBrightWhite = esc ''[97m''"

text \<open>
  The banner: \<open>arch\<close> is the operating system and architecture, \<open>pid\<close> the process ID. A row of the box
  has its text between two coloured bars.
\<close>

definition bannerRow :: "string \<Rightarrow> string" where
  "bannerRow text = colorBold @ colorBrightBlue @ vbar @ colorReset @ text @ colorBold @ colorBrightBlue @ vbar @ colorReset @ nl"

definition bannerLine :: "string \<Rightarrow> string \<Rightarrow> string" where
  "bannerLine left right = colorBold @ colorBrightBlue @ left @ hline 57 @ right @ colorReset @ nl"

definition PrintBanner :: "string \<Rightarrow> int \<Rightarrow> string \<Rightarrow> string \<Rightarrow> string" where
  "PrintBanner arch pid version goVersion =
     nl @ bannerLine ([CHR 0xE2, CHR 0x94, CHR 0x8C]) ([CHR 0xE2, CHR 0x94, CHR 0x90]) @
     bannerRow ((''    '' @ [CHR 0xF0, CHR 0x9F, CHR 0x8F, CHR 0xB0] @ ''  '') @ colorBold @ colorBrightWhite @ ''Castle Rock Agent'' @ colorReset @ replicate 32 (CHR '' '')) @
     bannerRow (''    Real-time Docker observability'' @ replicate 16 (CHR '' '')) @
     bannerLine ([CHR 0xE2, CHR 0x94, CHR 0x9C]) ([CHR 0xE2, CHR 0x94, CHR 0xA4]) @
     bannerRow (''  '' @ colorCyan @ ''Version:'' @ colorReset @ ''    '' @ pad_runes 46 version @ '' '') @
     bannerRow (''  '' @ colorCyan @ ''Go:'' @ colorReset @ ''        '' @ pad_runes 46 goVersion @ '' '') @
     bannerRow (''  '' @ colorCyan @ ''Arch:'' @ colorReset @ ''      '' @ pad_runes 46 arch @ '' '') @
     bannerRow (''  '' @ colorCyan @ ''PID:'' @ colorReset @ ''       '' @ pad_runes 46 (int_str pid) @ '' '') @
     bannerLine ([CHR 0xE2, CHR 0x94, CHR 0x94]) ([CHR 0xE2, CHR 0x94, CHR 0x98])"

text \<open>\<open>uptime\<close> is the printed duration since the start, rounded to seconds.\<close>

definition PrintUptime :: "string \<Rightarrow> string" where
  "PrintUptime uptime = ''  '' @ colorCyan @ ''Uptime:'' @ colorReset @ ''          '' @ colorWhite @ uptime @ colorReset @ nl"

definition stateStyle :: "string \<Rightarrow> string \<times> string" where
  "stateStyle state =
     (if state = ''running'' then (colorBrightGreen, [CHR 0xE2, CHR 0x97, CHR 0x8F])
      else if state = ''paused'' then (colorBrightYellow, [CHR 0xE2, CHR 0x97, CHR 0x89])
      else if state = ''restarting'' then (colorBrightCyan, [CHR 0xE2, CHR 0x86, CHR 0xBB])
      else (colorBrightRed, [CHR 0xE2, CHR 0x97, CHR 0x8B]))"

definition printContainer :: "nat \<Rightarrow> ContainerDisplay \<Rightarrow> string" where
  "printContainer i c =
     (let (stateColor, stateIcon) = stateStyle (cd_State c) in
      nl @ ''  '' @ stateColor @ stateIcon @ colorReset @ '' #'' @ nat_str (i + 1) @ '' '' @ colorBold @ cd_Name c @ colorReset @ nl @
      ''  '' @ colorDim @ [CHR 0xE2, CHR 0x94, CHR 0x8C] @ hline 62 @ [CHR 0xE2, CHR 0x94, CHR 0x90] @ colorReset @ nl @
      printField ''ID'' (cd_ID c) @
      printField ''Image'' (cd_Image c) @
      printField ''Status'' (cd_Status c) @
      printField ''State'' (stateColor @ cd_State c @ colorReset) @
      (if cd_Command c \<noteq> '''' then printField ''Command'' (cd_Command c) else '''') @
      (if cd_Ports c \<noteq> '''' then printField ''Ports'' (cd_Ports c) else '''') @
      (if cd_Created c \<noteq> '''' then printField ''Created'' (cd_Created c) else '''') @
      (if length (cd_Networks c) > 0 then printField ''Networks'' (join '', '' (cd_Networks c)) else '''') @
      (if length (cd_Labels c) > 0 then printField ''Labels'' '''' @ concat (map printLabel (cd_Labels c)) else '''') @
      (if cd_SizeRw c \<noteq> '''' then printField ''Size (RW)'' (cd_SizeRw c) else '''') @
      ''  '' @ colorDim @ [CHR 0xE2, CHR 0x94, CHR 0x94] @ hline 62 @ [CHR 0xE2, CHR 0x94, CHR 0x98] @ colorReset @ nl)"

definition PrintContainerTable :: "ContainerDisplay list \<Rightarrow> string" where
  "PrintContainerTable containers =
     (if length containers = 0 then
        nl @ colorDim @ ''  '' @ [CHR 0xF0, CHR 0x9F, CHR 0x93, CHR 0xAD] @ '' No running containers found'' @ colorReset @ nl @ nl
      else
        nl @ colorBold @ colorGreen @ ''  '' @ [CHR 0xF0, CHR 0x9F, CHR 0x90, CHR 0xB3] @ ''  Running Containers ('' @
        nat_str (length containers) @ '')'' @ colorReset @ nl @
        colorDim @ ''  '' @ concat (replicate 67 [CHR 0xE2, CHR 0x95, CHR 0x90]) @ colorReset @ nl @
        concat (map (\<lambda>(i, c). printContainer i c) (enumerate 0 containers)) @ nl)"

definition PrintDockerInfo :: "(string \<rightharpoonup> string) \<Rightarrow> string" where
  "PrintDockerInfo info =
     nl @ colorBold @ colorMagenta @ ''  '' @ [CHR 0xE2, CHR 0x9A, CHR 0x99] @ ''  Docker Engine'' @ colorReset @ nl @
     colorDim @ ''  '' @ hline 47 @ colorReset @ nl @
     concat (map (\<lambda>key. case info key of None \<Rightarrow> ''''
          | Some val \<Rightarrow> ''  '' @ colorCyan @ pad_right 16 (key @ '':'') @ colorReset @ '' '' @ colorWhite @ val @ colorReset @ nl)
        [''Server Version'', ''API Version'', ''OS/Arch'', ''Kernel'', ''Total Memory'', ''Containers'', ''Images'']) @ nl"

definition PrintShutdown :: string where
  "PrintShutdown =
     nl @ colorBold @ colorRed @ ''  '' @ [CHR 0xF0, CHR 0x9F, CHR 0x9B, CHR 0x91] @ ''  Shutting down Castle Rock Agent...'' @ colorReset @ nl @
     colorDim @ ''  '' @ hline 47 @ colorReset @ nl"

section \<open>Redaction\<close>

definition sensitiveKeys :: "string list" where
  "sensitiveKeys = [''PASS'', ''KEY'', ''SECRET'', ''TOKEN'', ''AUTH'', ''URL'', ''URI'', ''PRIVATE'']"

definition Redact :: "(string \<Rightarrow> string) \<Rightarrow> string \<Rightarrow> string" where
  "Redact uni s =
     (let upperS = to_upper uni s;
          assignment = (if str_contains s ''='' then
              (case split_first (CHR ''='') s of
                 (part0, _) \<Rightarrow>
                   (let key = to_upper uni part0
                    in if list_ex (\<lambda>sk. str_contains key sk) sensitiveKeys then Some (part0 @ ''=[REDACTED]'') else None))
            else None)
      in case assignment of
           Some r \<Rightarrow> r
         | None \<Rightarrow>
             if list_ex (\<lambda>sk. str_contains upperS sk \<and> (str_contains s '' '' \<or> str_contains s '':'')) sensitiveKeys
             then ''[REDACTED]'' else s)"

definition sensitive :: "(string \<Rightarrow> string) \<Rightarrow> string \<Rightarrow> bool" where
  "sensitive uni s \<longleftrightarrow> (\<exists>sk \<in> set sensitiveKeys. str_contains (to_upper uni s) sk)"

lemma Redact_assignment:
  "CHR ''='' \<notin> set k \<Longrightarrow> sensitive uni k \<Longrightarrow> Redact uni (k @ CHR ''='' # v) = k @ ''=[REDACTED]''"
  by (simp add: Redact_def Let_def sensitive_def list_ex_iff)

lemma Redact_other:
  assumes "\<nexists>k v. s = k @ CHR ''='' # v \<and> CHR ''='' \<notin> set k \<and> sensitive uni k"
  shows "Redact uni s = (if sensitive uni s \<and> (CHR '' '' \<in> set s \<or> CHR '':'' \<in> set s) then ''[REDACTED]'' else s)"
proof -
  have "\<not> list_ex (\<lambda>sk. str_contains (to_upper uni (fst (split_first (CHR ''='') s))) sk) sensitiveKeys"
    if "CHR ''='' \<in> set s"
    using split_first_cases [of "CHR ''=''" s] that assms by (auto simp: list_ex_iff sensitive_def)
  then show ?thesis
    by (auto simp: Redact_def Let_def sensitive_def list_ex_iff split: prod.split)
qed

lemma sensitive_cases:
  obtains k v where "s = k @ CHR ''='' # v" "CHR ''='' \<notin> set k" "sensitive uni k"
  | "\<nexists>k v. s = k @ CHR ''='' # v \<and> CHR ''='' \<notin> set k \<and> sensitive uni k"
  by blast

lemma Redact_idem: "Redact uni (Redact uni s) = Redact uni s"
proof (rule sensitive_cases [of s uni])
  fix k v assume "s = k @ CHR ''='' # v" "CHR ''='' \<notin> set k" "sensitive uni k"
  then show ?thesis using Redact_assignment [of k uni "''[REDACTED]''"] by (simp add: Redact_assignment)
next
  assume n: "\<nexists>k v. s = k @ CHR ''='' # v \<and> CHR ''='' \<notin> set k \<and> sensitive uni k"
  have "Redact uni ''[REDACTED]'' = ''[REDACTED]''" by code_simp
  then show ?thesis using Redact_other [OF n] by (cases "Redact uni s = s") (auto split: if_splits)
qed

text \<open>Attributes given to the handler in advance are printed before those of the record.\<close>

lemma Handle_WithAttrs: "Handle (WithAttrs h as) t l m bs = Handle h t l m (as @ bs)"
  if "h_attrs h = []"
proof -
  have "appendAttr (h\<lparr>h_attrs := x\<rparr>) = appendAttr h" for x by (simp add: appendAttr_def fun_eq_iff)
  then show ?thesis using that by (simp add: Handle_def WithAttrs_def Let_def split: prod.split)
qed

section \<open>Properties\<close>

text \<open>
  C38: What \<open>Redact\<close> does with a text. An assignment whose name contains a sensitive word keeps the
  name and loses its whole value; any other text that contains a sensitive word and a space or a
  colon is replaced altogether; everything else is unchanged. Redacting twice is redacting once.
\<close>

theorem redact_characterised:
  assumes "CHR ''='' \<notin> set k"
  shows "(sensitive uni k \<longrightarrow> Redact uni (k @ CHR ''='' # v) = k @ ''=[REDACTED]'')
    \<and> (\<not> sensitive uni k \<longrightarrow> Redact uni (k @ CHR ''='' # v) =
         (if sensitive uni (k @ CHR ''='' # v) \<and> (CHR '' '' \<in> set (k @ CHR ''='' # v) \<or> CHR '':'' \<in> set (k @ CHR ''='' # v))
          then ''[REDACTED]'' else k @ CHR ''='' # v))
    \<and> Redact uni k = (if sensitive uni k \<and> (CHR '' '' \<in> set k \<or> CHR '':'' \<in> set k) then ''[REDACTED]'' else k)
    \<and> Redact uni (Redact uni s) = Redact uni s"
proof (intro conjI impI)
  show "sensitive uni k \<Longrightarrow> Redact uni (k @ CHR ''='' # v) = k @ ''=[REDACTED]''"
    using Redact_assignment [OF assms] .
  assume "\<not> sensitive uni k"
  then have "\<nexists>k' v'. k @ CHR ''='' # v = k' @ CHR ''='' # v' \<and> CHR ''='' \<notin> set k' \<and> sensitive uni k'"
    using assms split_first_append by (metis fst_conv)
  then show "Redact uni (k @ CHR ''='' # v) =
      (if sensitive uni (k @ CHR ''='' # v) \<and> (CHR '' '' \<in> set (k @ CHR ''='' # v) \<or> CHR '':'' \<in> set (k @ CHR ''='' # v))
       then ''[REDACTED]'' else k @ CHR ''='' # v)"
    by (rule Redact_other)
next
  have "\<nexists>k' v'. k = k' @ CHR ''='' # v' \<and> CHR ''='' \<notin> set k' \<and> sensitive uni k'" using assms by auto
  then show "Redact uni k = (if sensitive uni k \<and> (CHR '' '' \<in> set k \<or> CHR '':'' \<in> set k) then ''[REDACTED]'' else k)"
    by (rule Redact_other)
qed (rule Redact_idem)

theorem redact_characterised_witness:
  "Redact id ''DB_PASSWORD=hunter2'' = ''DB_PASSWORD=[REDACTED]'' \<and>
   Redact id ''mysql --password hunter2 --port=1'' = ''mysql --password hunter2 --port=[REDACTED]''"
proof -
  have "CHR ''='' \<notin> set ''DB_PASSWORD''" "sensitive id ''DB_PASSWORD''"
    "CHR ''='' \<notin> set ''mysql --password hunter2 --port''" "sensitive id ''mysql --password hunter2 --port''"
    unfolding sensitive_def by code_simp+
  then show ?thesis
    using redact_characterised [of "''DB_PASSWORD''" id "''hunter2''"]
      redact_characterised [of "''mysql --password hunter2 --port''" id "''1''"] by simp
qed

text \<open>
  Attributes a logger carries are printed before those of the record, and a group opened later
  also qualifies the attributes that were added before it: a logger that got attributes first and a
  group afterwards prints the same line as one that got the group first.
\<close>

theorem handler_group_qualifies_all:
  assumes "h_attrs h = []"
  shows "Handle (WithAttrs h as) t l m bs = Handle h t l m (as @ bs)
       \<and> Handle (WithGroup (WithAttrs h as) g) t l m bs = Handle (WithAttrs (WithGroup h g) as) t l m bs"
proof
  show "Handle (WithAttrs h as) t l m bs = Handle h t l m (as @ bs)"
    using assms by (rule Handle_WithAttrs)
  have "WithGroup (WithAttrs h as) g = WithAttrs (WithGroup h g) as"
    by (simp add: WithGroup_def WithAttrs_def)
  then show "Handle (WithGroup (WithAttrs h as) g) t l m bs = Handle (WithAttrs (WithGroup h g) as) t l m bs" by simp
qed

theorem handler_group_qualifies_all_witness:
  "Handle (WithGroup (WithAttrs (NewPrettyHandler None) [\<lparr>at_Key = ''host'', at_Value = Some ''a''\<rparr>]) ''req'') ''t'' 0 ''m'' [] =
   Handle (WithAttrs (WithGroup (NewPrettyHandler None) ''req'') [\<lparr>at_Key = ''host'', at_Value = Some ''a''\<rparr>]) ''t'' 0 ''m'' []"
  using handler_group_qualifies_all [of "NewPrettyHandler None"] by (simp add: NewPrettyHandler_def)

end
