(* ===== verification/Stats.thy ===== *)
theory Stats
  imports Logger
begin

text \<open>
  \<^verbatim>\<open>internal/docker/client.go\<close>, the metrics half: the snapshot the Docker stats API returns, the CPU and
  memory percentages computed from it in double precision, and the collection over all containers,
  whose goroutines finish in any order.
\<close>

section \<open>The stats snapshot\<close>

record NetworkStats =
  ns_RxBytes :: "64 word"
  ns_TxBytes :: "64 word"

record BlkioEntry =
  be_Op :: string
  be_Value :: "64 word"

record CPUStats =
  cs_TotalUsage :: "64 word"
  cs_PercpuUsage :: "64 word list"
  cs_SystemUsage :: "64 word"
  cs_OnlineCPUs :: "32 word"

record StatsJSON =
  sj_CPUStats :: CPUStats
  sj_PreCPUStats :: CPUStats
  sj_MemUsage :: "64 word"
  sj_MemLimit :: "64 word"
  sj_Networks :: "(string \<times> NetworkStats) list"
  sj_Blkio :: "BlkioEntry list"

definition numCPUs :: "CPUStats \<Rightarrow> float64" where
  "numCPUs c =
     (let n = f64_of_int (int (unat (cs_OnlineCPUs c)));
          n = (if f_eq n (Fin 0) then f64_of_int (int (length (cs_PercpuUsage c))) else n)
      in if f_eq n (Fin 0) then Fin 1 else n)"

definition calculateCPUPercent :: "StatsJSON option \<Rightarrow> float64" where
  "calculateCPUPercent stats =
     (case stats of
        None \<Rightarrow> Fin 0
      | Some s \<Rightarrow>
          let cpuDelta = f_sub (f64_of_uint64 (cs_TotalUsage (sj_CPUStats s))) (f64_of_uint64 (cs_TotalUsage (sj_PreCPUStats s)));
              systemDelta = f_sub (f64_of_uint64 (cs_SystemUsage (sj_CPUStats s))) (f64_of_uint64 (cs_SystemUsage (sj_PreCPUStats s)))
          in if f_lt (Fin 0) systemDelta \<and> f_lt (Fin 0) cpuDelta then
               f_mul (f_mul (f_div cpuDelta systemDelta) (numCPUs (sj_CPUStats s))) (Fin 100)
             else Fin 0)"

definition memPercent :: "64 word \<Rightarrow> 64 word \<Rightarrow> float64" where
  "memPercent memUsage memLimit =
     (if memLimit > 0 then f_mul (f_div (f64_of_uint64 memUsage) (f64_of_uint64 memLimit)) (Fin 100) else Fin 0)"

fun sumBlkio :: "BlkioEntry list \<Rightarrow> 64 word \<times> 64 word \<Rightarrow> 64 word \<times> 64 word" where
  "sumBlkio [] acc = acc"
| "sumBlkio (bio # bs) (blockRead, blockWrite) =
     (if be_Op bio = ''read'' \<or> be_Op bio = ''Read'' then sumBlkio bs (blockRead + be_Value bio, blockWrite)
      else if be_Op bio = ''write'' \<or> be_Op bio = ''Write'' then sumBlkio bs (blockRead, blockWrite + be_Value bio)
      else sumBlkio bs (blockRead, blockWrite))"

fun sumNetworks :: "(string \<times> NetworkStats) list \<Rightarrow> 64 word \<times> 64 word \<Rightarrow> 64 word \<times> 64 word" where
  "sumNetworks [] acc = acc"
| "sumNetworks ((name, net) # ns) (netRx, netTx) = sumNetworks ns (netRx + ns_RxBytes net, netTx + ns_TxBytes net)"

text \<open>
  \<open>getContainerStats\<close>: \<open>api\<close> is the answer of the daemon, an error of the call, or the body whose
  decoding may fail.
\<close>

definition getContainerStats :: "(string \<Rightarrow> error + (error + StatsJSON)) \<Rightarrow> string \<Rightarrow> error + ContainerMetrics" where
  "getContainerStats api containerID =
     (case api containerID of
        Inl err \<Rightarrow> Inl (''stats: '' @ err)
      | Inr (Inl err) \<Rightarrow> Inl (''decode stats: '' @ err)
      | Inr (Inr statsJSON) \<Rightarrow>
          let cpuPercent = calculateCPUPercent (Some statsJSON);
              (netRx, netTx) = sumNetworks (sj_Networks statsJSON) (0, 0);
              (blockRead, blockWrite) = sumBlkio (sj_Blkio statsJSON) (0, 0)
          in Inr \<lparr>cm_HostID = '''', cm_ContainerID = '''', cm_ContainerName = '''', cm_Image = '''',
                  cm_CPUPercent = cpuPercent, cm_MemoryUsage = sj_MemUsage statsJSON, cm_MemoryLimit = sj_MemLimit statsJSON,
                  cm_MemoryPercent = memPercent (sj_MemUsage statsJSON) (sj_MemLimit statsJSON),
                  cm_NetworkRx = netRx, cm_NetworkTx = netTx, cm_BlockRead = blockRead, cm_BlockWrite = blockWrite\<rparr>)"

definition isMonitored :: "string list \<Rightarrow> string \<Rightarrow> bool" where
  "isMonitored includeContainers name \<longleftrightarrow>
     length includeContainers = 0 \<or> list_ex (\<lambda>inc. str_contains name inc) includeContainers"

text \<open>
  \<open>GetAllContainerStats\<close> starts one goroutine per monitored container. Each writes one entry under
  the lock, so the result is that of the goroutines' writes in the order they take it: \<open>sched\<close> is
  that order.
\<close>

definition statsWorker ::
  "(string \<Rightarrow> error + (error + StatsJSON)) \<Rightarrow> ContainerInfo \<Rightarrow> stats \<Rightarrow> stats" where
  "statsWorker api ctr results =
     (case getContainerStats api (ci_ID ctr) of
        Inl err \<Rightarrow> results
      | Inr st \<Rightarrow>
          let cid = (if length (ci_ID ctr) > 12 then take 12 (ci_ID ctr) else ci_ID ctr);
              st = st\<lparr>cm_ContainerID := cid, cm_ContainerName := ci_Name ctr, cm_Image := ci_Image ctr\<rparr>
          in results(cm_ContainerID st \<mapsto> st))"

definition GetAllContainerStats ::
  "(ContainerInfo list \<Rightarrow> ContainerInfo list) \<Rightarrow> string list \<Rightarrow> (string \<Rightarrow> error + (error + StatsJSON)) \<Rightarrow>
   ContainerInfo list \<Rightarrow> stats" where
  "GetAllContainerStats sched includes api containers =
     fold (statsWorker api) (sched (filter (\<lambda>c. isMonitored includes (ci_Name c)) containers)) Map.empty"

section \<open>Doubles that are integers\<close>

definition is_int_rat :: "rat \<Rightarrow> bool" where "is_int_rat x \<longleftrightarrow> (\<exists>i. x = of_int i)"

lemma rnd64_is_int: "is_int_rat x \<Longrightarrow> is_int_rat (rnd64 x)"
proof -
  assume "is_int_rat x"
  then obtain i where i: "x = of_int i" by (auto simp: is_int_rat_def)
  show ?thesis
  proof (cases "\<bar>i\<bar> < 2 ^ 53")
    case True
    then show ?thesis using rnd64_of_int i by (auto simp: is_int_rat_def)
  next
    case False
    have "(2::rat) ^ 53 \<le> of_int \<bar>i\<bar>"
    proof -
      have "(of_int (2 ^ 53) :: rat) \<le> of_int \<bar>i\<bar>" using False by (simp only: of_int_le_iff)
      then show ?thesis by simp
    qed
    then have big: "pow2 53 \<le> \<bar>x\<bar>" by (simp add: i power_int_def)
    have pos: "0 < \<bar>x\<bar>" using big pow2_pos [of 53] by linarith
    have "53 < ilog2 \<bar>x\<bar> + 1"
      using ilog2_bounds(2) [OF pos] big by (intro pow2_less_imp) linarith
    then have "0 \<le> ulp_exp x" by (simp add: ulp_exp_def)
    then have "rnd64 x = of_int (rhe (x / pow2 (ulp_exp x)) * 2 ^ nat (ulp_exp x))"
      using pos by (simp add: rnd64_def pow2_int)
    then show ?thesis unfolding is_int_rat_def by blast
  qed
qed

lemma u64_is_int: "is_int_rat (u64_rat w)"
  unfolding is_int_rat_def u64_rat_def by (rule exI [of _ "int (unat w)"]) simp

lemma int_rat_diff: "is_int_rat x \<Longrightarrow> is_int_rat y \<Longrightarrow> is_int_rat (x - y)"
  by (auto simp: is_int_rat_def) (metis of_int_diff)

lemma int_rat_pos: "is_int_rat x \<Longrightarrow> 0 < x \<Longrightarrow> 1 \<le> x"
  by (auto simp: is_int_rat_def)

text \<open>Bounded operands give bounded, finite results.\<close>

lemma pow2_bound: "x \<le> 2 ^ k \<Longrightarrow> k \<le> 900 \<Longrightarrow> rnd64 x \<le> 2 ^ k"
proof -
  assume "x \<le> 2 ^ k"
  then have "rnd64 x \<le> rnd64 (2 ^ k)" by (rule rnd64_mono)
  then show ?thesis using rnd64_pow2 [of "int k"] by (simp add: power_int_def)
qed

lemma f64_of_rat_bounded:
  assumes "0 \<le> x" "x \<le> 2 ^ k" "k \<le> 900"
  shows "f64_of_rat x = Fin (rnd64 x)" "0 \<le> rnd64 x" "rnd64 x \<le> 2 ^ k"
proof -
  have "(2::rat) ^ k \<le> 2 ^ 1000" using assms(3) by (intro power_increasing) auto
  then show "f64_of_rat x = Fin (rnd64 x)" using assms by (intro f64_of_rat_Fin) linarith
  show "0 \<le> rnd64 x" using assms by (simp add: rnd64_nonneg)
  show "rnd64 x \<le> 2 ^ k" using assms by (intro pow2_bound)
qed

lemma u64_sub:
  obtains d where "f_sub (f64_of_uint64 a) (f64_of_uint64 b) = Fin d" "is_int_rat d" "d \<le> 2 ^ 64"
    "d = rnd64 (rnd64 (u64_rat a) - rnd64 (u64_rat b))"
proof -
  let ?x = "rnd64 (u64_rat a) - rnd64 (u64_rat b)"
  have b: "\<bar>?x\<bar> \<le> 2 ^ 64"
    using rnd64_u64_bounds [of a] rnd64_u64_bounds [of b] by linarith
  have "f_sub (f64_of_uint64 a) (f64_of_uint64 b) = Fin (rnd64 ?x)"
  proof -
    have "\<bar>?x\<bar> \<le> 2 ^ 1000"
      using b power_increasing [of 64 1000 "2 :: rat"] by linarith
    then show ?thesis by (simp add: f_sub_def f64_of_uint64_Fin f64_of_rat_Fin)
  qed
  moreover have "is_int_rat (rnd64 ?x)"
    by (intro rnd64_is_int int_rat_diff u64_is_int)
  moreover have "rnd64 ?x \<le> 2 ^ 64" using b by (intro pow2_bound) auto
  ultimately show thesis using that by blast
qed

lemma numCPUs_bounds:
  assumes "length (cs_PercpuUsage c) < 2 ^ 32"
  obtains n where "numCPUs c = Fin (of_int n)" "1 \<le> n" "n < 2 ^ 32"
proof -
  define k l where "k = unat (cs_OnlineCPUs c)" and "l = length (cs_PercpuUsage c)"
  have n: "numCPUs c = (let n = f64_of_int (int k); n = (if f_eq n (Fin 0) then f64_of_int (int l) else n)
      in if f_eq n (Fin 0) then Fin 1 else n)"
    unfolding numCPUs_def k_def l_def ..
  have k: "k < 2 ^ 32" using unsigned_less [of "cs_OnlineCPUs c", where 'a = nat] by (simp add: k_def)
  have l: "l < 2 ^ 32" using assms by (simp add: l_def)
  have e: "f64_of_int (int k) = Fin (of_int (int k))" "f64_of_int (int l) = Fin (of_int (int l))"
    using k l by (intro f64_of_int_exact; simp)+
  consider "k \<noteq> 0" | "k = 0" "l \<noteq> 0" | "k = 0" "l = 0" by blast
  then show thesis
  proof cases
    case 1
    then show thesis using that [of "int k"] k e by (simp add: n Let_def)
  next
    case 2
    then show thesis using that [of "int l"] l e by (simp add: n Let_def)
  next
    case 3
    then show thesis using that [of 1] e by (simp add: n Let_def)
  qed
qed

lemma f_mul_bounded:
  assumes "0 \<le> x" "x \<le> 2 ^ i" "0 \<le> y" "y \<le> 2 ^ j" "i + j \<le> 900"
  shows "f_mul (Fin x) (Fin y) = Fin (rnd64 (x * y))" "0 \<le> rnd64 (x * y)" "rnd64 (x * y) \<le> 2 ^ (i + j)"
proof -
  have "x * y \<le> 2 ^ i * 2 ^ j" using assms by (intro mult_mono) auto
  then have "x * y \<le> 2 ^ (i + j)" by (simp add: power_add)
  then show "f_mul (Fin x) (Fin y) = Fin (rnd64 (x * y))" "0 \<le> rnd64 (x * y)" "rnd64 (x * y) \<le> 2 ^ (i + j)"
    using f64_of_rat_bounded [of "x * y" "i + j"] assms by simp_all
qed

lemma f_div_bounded:
  assumes "0 \<le> x" "x \<le> 2 ^ i" "1 \<le> y" "i \<le> 900"
  shows "f_div (Fin x) (Fin y) = Fin (rnd64 (x / y))" "0 \<le> rnd64 (x / y)" "rnd64 (x / y) \<le> 2 ^ i"
proof -
  have "x / y \<le> x" using assms by (simp add: divide_le_eq mult_le_cancel_left1)
  then have "x / y \<le> 2 ^ i" using assms(2) by linarith
  then show "f_div (Fin x) (Fin y) = Fin (rnd64 (x / y))" "0 \<le> rnd64 (x / y)" "rnd64 (x / y) \<le> 2 ^ i"
    using f64_of_rat_bounded [of "x / y" i] assms by simp_all
qed

text \<open>The percentage as a sequence of rounded operations.\<close>

lemma calculateCPUPercent_cases:
  assumes "length (cs_PercpuUsage (sj_CPUStats s)) < 2 ^ 32"
  obtains "calculateCPUPercent (Some s) = Fin 0"
  | c d n where "calculateCPUPercent (Some s) = Fin (rnd64 (rnd64 (rnd64 (c / d) * of_int n) * 100))"
      "0 \<le> rnd64 (rnd64 (rnd64 (c / d) * of_int n) * 100)"
      "f_sub (f64_of_uint64 (cs_TotalUsage (sj_CPUStats s))) (f64_of_uint64 (cs_TotalUsage (sj_PreCPUStats s))) = Fin c"
      "f_sub (f64_of_uint64 (cs_SystemUsage (sj_CPUStats s))) (f64_of_uint64 (cs_SystemUsage (sj_PreCPUStats s))) = Fin d"
      "numCPUs (sj_CPUStats s) = Fin (of_int n)" "1 \<le> n" "n < 2 ^ 32" "0 < c" "1 \<le> d"
proof -
  obtain c where c: "f_sub (f64_of_uint64 (cs_TotalUsage (sj_CPUStats s))) (f64_of_uint64 (cs_TotalUsage (sj_PreCPUStats s))) = Fin c"
      "is_int_rat c" "c \<le> 2 ^ 64" using u64_sub by metis
  obtain d where d: "f_sub (f64_of_uint64 (cs_SystemUsage (sj_CPUStats s))) (f64_of_uint64 (cs_SystemUsage (sj_PreCPUStats s))) = Fin d"
      "is_int_rat d" using u64_sub by metis
  obtain n where n: "numCPUs (sj_CPUStats s) = Fin (of_int n)" "1 \<le> n" "n < 2 ^ 32"
    using numCPUs_bounds [OF assms] .
  show thesis
  proof (cases "0 < d \<and> 0 < c")
    case False
    then have "calculateCPUPercent (Some s) = Fin 0" using c d by (auto simp: calculateCPUPercent_def Let_def)
    then show thesis by (rule that(1))
  next
    case True
    have d1: "1 \<le> d" using int_rat_pos [OF d(2)] True by simp
    have "(of_int n :: rat) \<le> of_int (2 ^ 32)" using n(3) unfolding of_int_le_iff by simp
    then have nb: "0 \<le> (of_int n :: rat)" "(of_int n :: rat) \<le> 2 ^ 32" using n(2) by simp_all
    have cb: "0 \<le> c" "c \<le> 2 ^ 64" "(64 :: nat) \<le> 900" using c(3) True by simp_all
    note q = f_div_bounded [OF cb(1,2) d1 cb(3)]
    have "(64 :: nat) + 32 \<le> 900" by simp
    note m = f_mul_bounded [OF q(2,3) nb this]
    have h: "(0::rat) \<le> 100" "(100::rat) \<le> 2 ^ 7" "64 + 32 + 7 \<le> (900::nat)" by simp_all
    note r = f_mul_bounded [OF m(2,3) h]
    have "calculateCPUPercent (Some s) = Fin (rnd64 (rnd64 (rnd64 (c / d) * of_int n) * 100))"
      using c(1) d(1) n(1) True by (simp add: calculateCPUPercent_def Let_def q(1) m(1) r(1) del: f_div.simps f_mul.simps)
    then show thesis using that(2) [of c d n] c(1) d(1) n True d1 r(2) by blast
  qed
qed

lemma memPercent_bounds:
  obtains p where "memPercent u l = Fin p" "0 \<le> p" "u \<le> l \<Longrightarrow> p \<le> 100"
proof (cases "l > 0")
  case False
  then show thesis using that [of 0] by (simp add: memPercent_def)
next
  case True
  let ?u = "rnd64 (u64_rat u)" and ?l = "rnd64 (u64_rat l)"
  have "0 < u64_rat l" using True u64_rat_bounds(1) [of l] u64_rat_eq_0 [of l] by (simp add: word_neq_0_conv [symmetric] le_less)
  then have "1 \<le> u64_rat l" using int_rat_pos [OF u64_is_int] by simp
  then have l1: "1 \<le> ?l" using rnd64_ge_int [of 1 "u64_rat l"] by simp
  have cb: "0 \<le> ?u" "?u \<le> 2 ^ 64" "(64 :: nat) \<le> 900" using rnd64_u64_bounds [of u] by simp_all
  note q = f_div_bounded [OF cb(1,2) l1 cb(3)]
  have h: "(0::rat) \<le> 100" "(100::rat) \<le> 2 ^ 7" "64 + 7 \<le> (900::nat)" by simp_all
  note r = f_mul_bounded [OF q(2,3) h]
  have eq: "memPercent u l = Fin (rnd64 (rnd64 (?u / ?l) * 100))"
    using True by (simp add: memPercent_def f64_of_uint64_Fin q(1) r(1) del: f_div.simps f_mul.simps)
  have "rnd64 (rnd64 (?u / ?l) * 100) \<le> 100" if "u \<le> l"
  proof -
    have "?u \<le> ?l" using that by (intro rnd64_mono) (simp add: u64_rat_le)
    then have "?u / ?l \<le> of_int 1" using l1 by simp
    then have "rnd64 (?u / ?l) \<le> of_int 1" by (rule rnd64_le_int) simp
    then have "rnd64 (?u / ?l) * 100 \<le> of_int 100" by simp
    then show ?thesis using rnd64_le_int [of "rnd64 (?u / ?l) * 100" 100] by simp
  qed
  then show thesis using that eq r(2) by blast
qed

text \<open>Counters below two to the 53 are exact doubles.\<close>

lemma u64_sub_exact:
  assumes "unat a < 2 ^ 53" "unat b < 2 ^ 53"
  shows "f_sub (f64_of_uint64 a) (f64_of_uint64 b) = Fin (u64_rat a - u64_rat b)"
proof -
  have e: "rnd64 (u64_rat w) = u64_rat w" if "unat w < 2 ^ 53" for w
  proof -
    have "int (unat w) < int (2 ^ 53)" using that unfolding of_nat_less_iff by simp
    then have "rnd64 (of_int (int (unat w))) = of_int (int (unat w))" by (intro rnd64_of_int) simp
    then show ?thesis by (simp add: u64_rat_def)
  qed
  have "\<bar>int (unat a) - int (unat b)\<bar> < int (2 ^ 53)"
  proof -
    have "int (unat a) < int (2 ^ 53)" "int (unat b) < int (2 ^ 53)"
      using assms unfolding of_nat_less_iff by simp_all
    then show ?thesis by linarith
  qed
  then have "rnd64 (of_int (int (unat a) - int (unat b))) = of_int (int (unat a) - int (unat b))"
    by (intro rnd64_of_int) simp
  then have "rnd64 (u64_rat a - u64_rat b) = u64_rat a - u64_rat b" by (simp add: u64_rat_def)
  moreover obtain d where "f_sub (f64_of_uint64 a) (f64_of_uint64 b) = Fin d" "d = rnd64 (rnd64 (u64_rat a) - rnd64 (u64_rat b))"
    using u64_sub by metis
  ultimately show ?thesis using e assms by simp
qed

section \<open>Collecting all containers\<close>

definition short_id :: "string \<Rightarrow> string" where "short_id i = (if length i > 12 then take 12 i else i)"

definition collected :: "(string \<Rightarrow> error + (error + StatsJSON)) \<Rightarrow> ContainerInfo \<Rightarrow> ContainerMetrics option" where
  "collected api ctr =
     (case getContainerStats api (ci_ID ctr) of
        Inl err \<Rightarrow> None
      | Inr st \<Rightarrow> Some (st\<lparr>cm_ContainerID := short_id (ci_ID ctr), cm_ContainerName := ci_Name ctr, cm_Image := ci_Image ctr\<rparr>))"

lemma statsWorker_collected:
  "statsWorker api ctr results =
   (case collected api ctr of None \<Rightarrow> results | Some st \<Rightarrow> results(short_id (ci_ID ctr) \<mapsto> st))"
  by (simp add: statsWorker_def collected_def short_id_def Let_def split: sum.split)

lemma collected_id: "collected api ctr = Some st \<Longrightarrow> cm_ContainerID st = short_id (ci_ID ctr)"
  by (auto simp: collected_def split: sum.splits)

lemma fold_statsWorker_keyed: "stats_keyed st \<Longrightarrow> stats_keyed (fold (statsWorker api) xs st)"
proof (induction xs arbitrary: st)
  case (Cons x xs)
  have "stats_keyed (statsWorker api x st)"
    using Cons.prems collected_id [of api x] by (auto simp: statsWorker_collected stats_keyed_def split: option.split)
  then show ?case using Cons.IH by simp
qed simp

lemma fold_statsWorker_other:
  "k \<notin> (short_id \<circ> ci_ID) ` set xs \<Longrightarrow> fold (statsWorker api) xs st k = st k"
  by (induction xs arbitrary: st) (auto simp: statsWorker_collected split: option.split)

lemma fold_statsWorker_at:
  assumes "distinct (map (short_id \<circ> ci_ID) xs)" "c \<in> set xs" "st (short_id (ci_ID c)) = None"
  shows "fold (statsWorker api) xs st (short_id (ci_ID c)) = collected api c"
  using assms
proof (induction xs arbitrary: st)
  case Nil
  then show ?case by simp
next
  case (Cons x xs)
  show ?case
  proof (cases "x = c")
    case True
    then have "short_id (ci_ID c) \<notin> (short_id \<circ> ci_ID) ` set xs" using Cons.prems(1) by simp
    then have "fold (statsWorker api) xs (statsWorker api c st) (short_id (ci_ID c)) = statsWorker api c st (short_id (ci_ID c))"
      by (rule fold_statsWorker_other)
    then show ?thesis using True Cons.prems(3) by (simp add: statsWorker_collected [of api c st] split: option.split)
  next
    case False
    then have c: "c \<in> set xs" using Cons.prems(2) by simp
    then have "short_id (ci_ID x) \<noteq> short_id (ci_ID c)" using Cons.prems(1) by force
    then have "statsWorker api x st (short_id (ci_ID c)) = None"
      using Cons.prems(3) by (simp add: statsWorker_collected split: option.split)
    then show ?thesis using Cons.IH [OF _ c] Cons.prems(1) by simp
  qed
qed

section \<open>Properties\<close>

text \<open>
  C22: the metrics read from a Docker snapshot are always finite and never negative, whatever the
  counters, and the memory percentage is at most 100 when the usage is within the limit.
\<close>

theorem container_stats_finite:
  assumes "getContainerStats api cid = Inr m"
    and "\<And>s. api cid = Inr (Inr s) \<Longrightarrow> length (cs_PercpuUsage (sj_CPUStats s)) < 2 ^ 32"
  shows "\<exists>c p. cm_CPUPercent m = Fin c \<and> 0 \<le> c \<and> cm_MemoryPercent m = Fin p \<and> 0 \<le> p \<and>
               (cm_MemoryUsage m \<le> cm_MemoryLimit m \<longrightarrow> p \<le> 100)"
proof -
  obtain s where s: "api cid = Inr (Inr s)" "cm_CPUPercent m = calculateCPUPercent (Some s)"
      "cm_MemoryPercent m = memPercent (sj_MemUsage s) (sj_MemLimit s)"
      "cm_MemoryUsage m = sj_MemUsage s" "cm_MemoryLimit m = sj_MemLimit s"
    using assms(1) by (auto simp: getContainerStats_def Let_def split: sum.splits prod.splits)
  have "\<exists>c. calculateCPUPercent (Some s) = Fin c \<and> 0 \<le> c"
    using calculateCPUPercent_cases [OF assms(2) [OF s(1)]] by (metis order_refl)
  moreover obtain p where "memPercent (sj_MemUsage s) (sj_MemLimit s) = Fin p" "0 \<le> p"
      "sj_MemUsage s \<le> sj_MemLimit s \<Longrightarrow> p \<le> 100" using memPercent_bounds [of "sj_MemUsage s" "sj_MemLimit s"] by metis
  ultimately show ?thesis unfolding s(2-5) by blast
qed

definition ex_cpu :: "64 word \<Rightarrow> 64 word \<Rightarrow> CPUStats" where
  "ex_cpu tot sys = \<lparr>cs_TotalUsage = tot, cs_PercpuUsage = [], cs_SystemUsage = sys, cs_OnlineCPUs = 2\<rparr>"

definition ex_snapshot :: StatsJSON where
  "ex_snapshot = \<lparr>sj_CPUStats = ex_cpu 600 2000, sj_PreCPUStats = ex_cpu 100 1000, sj_MemUsage = 512, sj_MemLimit = 1024,
     sj_Networks = [(''eth0'', \<lparr>ns_RxBytes = 7, ns_TxBytes = 9\<rparr>)], sj_Blkio = [\<lparr>be_Op = ''Read'', be_Value = 3\<rparr>]\<rparr>"

theorem container_stats_finite_witness:
  "\<exists>m c p. getContainerStats (\<lambda>_. Inr (Inr ex_snapshot)) ''c1'' = Inr m \<and> cm_CPUPercent m = Fin c \<and> 0 \<le> c \<and>
     cm_MemoryPercent m = Fin p \<and> 0 \<le> p"
proof -
  obtain m where m: "getContainerStats (\<lambda>_. Inr (Inr ex_snapshot)) ''c1'' = Inr m"
    by (simp add: getContainerStats_def Let_def case_prod_unfold)
  have "length (cs_PercpuUsage (sj_CPUStats s)) < 2 ^ 32" if "(\<lambda>_. Inr (Inr ex_snapshot)) ''c1'' = Inr (Inr s)"
    for s using that by (auto simp: ex_snapshot_def ex_cpu_def)
  from container_stats_finite [OF m this] m show ?thesis by blast
qed

text \<open>
  C21: the CPU percentage stays between 0 and 100 per CPU: for counters that are exact in double
  precision and a container that used no more CPU time than the system had, it is at most 100 times
  the number of CPUs.
\<close>

theorem cpu_percent_bounds:
  assumes "length (cs_PercpuUsage (sj_CPUStats s)) < 2 ^ 32"
    and "unat (cs_TotalUsage (sj_CPUStats s)) < 2 ^ 53" "unat (cs_TotalUsage (sj_PreCPUStats s)) < 2 ^ 53"
    and "unat (cs_SystemUsage (sj_CPUStats s)) < 2 ^ 53" "unat (cs_SystemUsage (sj_PreCPUStats s)) < 2 ^ 53"
    and "int (unat (cs_TotalUsage (sj_CPUStats s))) - int (unat (cs_TotalUsage (sj_PreCPUStats s)))
       \<le> int (unat (cs_SystemUsage (sj_CPUStats s))) - int (unat (cs_SystemUsage (sj_PreCPUStats s)))"
  shows "\<exists>x n. calculateCPUPercent (Some s) = Fin x \<and> numCPUs (sj_CPUStats s) = Fin (of_int n) \<and> 1 \<le> n \<and>
               0 \<le> x \<and> x \<le> of_int (100 * n)"
proof (rule calculateCPUPercent_cases [OF assms(1)])
  obtain n where "numCPUs (sj_CPUStats s) = Fin (of_int n)" "1 \<le> n" using numCPUs_bounds [OF assms(1)] by metis
  moreover assume "calculateCPUPercent (Some s) = Fin 0"
  ultimately show ?thesis by auto
next
  fix c d n
  assume *: "calculateCPUPercent (Some s) = Fin (rnd64 (rnd64 (rnd64 (c / d) * of_int n) * 100))"
      "0 \<le> rnd64 (rnd64 (rnd64 (c / d) * of_int n) * 100)"
      "f_sub (f64_of_uint64 (cs_TotalUsage (sj_CPUStats s))) (f64_of_uint64 (cs_TotalUsage (sj_PreCPUStats s))) = Fin c"
      "f_sub (f64_of_uint64 (cs_SystemUsage (sj_CPUStats s))) (f64_of_uint64 (cs_SystemUsage (sj_PreCPUStats s))) = Fin d"
      "numCPUs (sj_CPUStats s) = Fin (of_int n)" "1 \<le> n" "n < 2 ^ 32" "0 < c" "1 \<le> d"
  have "(of_int (int (unat (cs_TotalUsage (sj_CPUStats s))) - int (unat (cs_TotalUsage (sj_PreCPUStats s)))) :: rat)
      \<le> of_int (int (unat (cs_SystemUsage (sj_CPUStats s))) - int (unat (cs_SystemUsage (sj_PreCPUStats s))))"
    using assms(6) unfolding of_int_le_iff .
  then have "c \<le> d"
    using *(3,4) u64_sub_exact [OF assms(2,3)] u64_sub_exact [OF assms(4,5)] by (simp add: u64_rat_def)
  then have "c / d \<le> of_int 1" using *(9) by simp
  then have "rnd64 (c / d) \<le> of_int 1" by (rule rnd64_le_int) simp
  then have "rnd64 (c / d) * of_int n \<le> of_int n" using *(6) by (simp add: mult_le_cancel_right1)
  then have "rnd64 (rnd64 (c / d) * of_int n) \<le> of_int n" by (rule rnd64_le_int) (use *(6,7) in simp)
  then have "rnd64 (rnd64 (c / d) * of_int n) * 100 \<le> of_int (100 * n)" by simp
  then have "rnd64 (rnd64 (rnd64 (c / d) * of_int n) * 100) \<le> of_int (100 * n)"
    by (rule rnd64_le_int) (use *(6,7) in simp)
  then show ?thesis using * by blast
qed

theorem cpu_percent_bounds_witness:
  "\<exists>x n. calculateCPUPercent (Some ex_snapshot) = Fin x \<and> numCPUs (sj_CPUStats ex_snapshot) = Fin (of_int n) \<and> 1 \<le> n \<and>
         0 \<le> x \<and> x \<le> of_int (100 * n)"
  by (rule cpu_percent_bounds) (simp_all add: ex_snapshot_def ex_cpu_def)

text \<open>
  C39: the concurrent collection has one result whatever the order in which its goroutines finish:
  for containers with different short IDs the map holds, under each short ID, the metrics of the
  monitored container if its snapshot was read, and nothing else; every value carries its key.
\<close>

theorem collection_is_schedule_independent:
  assumes "mset (sched (filter (\<lambda>c. isMonitored inc (ci_Name c)) cs)) = mset (filter (\<lambda>c. isMonitored inc (ci_Name c)) cs)"
    and "distinct (map (short_id \<circ> ci_ID) cs)"
  shows "stats_keyed (GetAllContainerStats sched inc api cs) \<and>
     GetAllContainerStats sched inc api cs k =
       (case List.find (\<lambda>c. short_id (ci_ID c) = k \<and> isMonitored inc (ci_Name c)) cs of
          None \<Rightarrow> None | Some c \<Rightarrow> collected api c)"
proof
  let ?ms = "filter (\<lambda>c. isMonitored inc (ci_Name c)) cs"
  have set: "set (sched ?ms) = set ?ms" using assms(1) by (metis set_mset_mset)
  have "distinct (map (short_id \<circ> ci_ID) ?ms)" using assms(2) by (rule distinct_map_filter)
  then have d: "distinct (map (short_id \<circ> ci_ID) (sched ?ms))"
    using assms(1) by (metis mset_map mset_eq_imp_distinct_iff)
  show "stats_keyed (GetAllContainerStats sched inc api cs)"
    unfolding GetAllContainerStats_def by (rule fold_statsWorker_keyed) simp
  show "GetAllContainerStats sched inc api cs k =
       (case List.find (\<lambda>c. short_id (ci_ID c) = k \<and> isMonitored inc (ci_Name c)) cs of
          None \<Rightarrow> None | Some c \<Rightarrow> collected api c)"
  proof (cases "List.find (\<lambda>c. short_id (ci_ID c) = k \<and> isMonitored inc (ci_Name c)) cs")
    case None
    then have "k \<notin> (short_id \<circ> ci_ID) ` set (sched ?ms)" unfolding set by (auto simp: find_None_iff)
    then show ?thesis using None by (simp add: GetAllContainerStats_def fold_statsWorker_other)
  next
    case (Some c)
    then have "c \<in> set (sched ?ms)" "short_id (ci_ID c) = k" unfolding set by (auto simp: find_Some_iff)
    then show ?thesis using Some fold_statsWorker_at [OF d, of c Map.empty api] by (simp add: GetAllContainerStats_def)
  qed
qed

definition ex_info :: "string \<Rightarrow> string \<Rightarrow> ContainerInfo" where
  "ex_info cid name = \<lparr>ci_HostID = '''', ci_ID = cid, ci_Name = name, ci_Image = ''nginx'', ci_Status = ''Up'',
     ci_State = ''running'', ci_Ports = ''''\<rparr>"

theorem collection_is_schedule_independent_witness:
  "GetAllContainerStats rev [''web''] (\<lambda>_. Inr (Inr ex_snapshot)) [ex_info ''a'' ''web-1'', ex_info ''b'' ''db''] ''b'' = None"
proof -
  let ?cs = "[ex_info ''a'' ''web-1'', ex_info ''b'' ''db'']"
  have d: "distinct (map (short_id \<circ> ci_ID) ?cs)" by (simp add: short_id_def ex_info_def)
  have "List.find (\<lambda>c. short_id (ci_ID c) = ''b'' \<and> isMonitored [''web''] (ci_Name c)) ?cs = None"
    by (simp add: short_id_def ex_info_def isMonitored_def has_prefix_def)
  then show ?thesis
    using collection_is_schedule_independent [of rev "[''web'']" ?cs "\<lambda>_. Inr (Inr ex_snapshot)" "''b''"] d by simp
qed

end
