(* ===== verification/Docker.thy ===== *)
theory Docker
  imports Stats
begin

text \<open>
  \<^verbatim>\<open>internal/docker/client.go\<close>, the rest of the client: listing and describing containers with the
  metadata cache, log streams, events, clean-up, disk usage, system information and the stress test.
  The Docker daemon is a parameter: each call of the SDK is a function from its arguments to the
  answer, with the daemon's state \<open>'w\<close> threaded where a call changes it. A range over a map in an
  answer of the daemon is the list of its entries in the order they are visited.
\<close>

section \<open>Data of the Docker API\<close>

record Port =
  po_IP :: string
  po_PrivatePort :: nat
  po_PublicPort :: nat
  po_Type :: string

record ApiContainer =
  ac_ID :: string
  ac_Names :: "string list"
  ac_Image :: string
  ac_Status :: string
  ac_State :: string
  ac_Command :: string
  ac_Created :: int
  ac_Ports :: "Port list"
  ac_Labels :: "(string \<times> string) list"
  ac_Networks :: "string list option"

record ContainerConfig =
  cc_User :: string
  cc_Env :: "string list"
  cc_Entrypoint :: "string list"
  cc_Cmd :: "string list"

record Health =
  he_Status :: string
  he_Log :: "string list"

record HostConfig =
  hc_RestartPolicyName :: string
  hc_MaximumRetryCount :: int
  hc_NanoCPUs :: int
  hc_Memory :: int
  hc_Privileged :: bool
  hc_CapAdd :: "string list"
  hc_ReadonlyRootfs :: bool
  hc_SecurityOpt :: "string list"
  hc_NetworkMode :: string

record MountPoint =
  mp_Type :: string
  mp_Source :: string
  mp_Destination :: string

text \<open>\<open>cj_Ports\<close>: \<open>NetworkSettings.Ports\<close>, each port with the host addresses it is bound to.\<close>

record ContainerJSON =
  cj_Config :: "ContainerConfig option"
  cj_Health :: "Health option"
  cj_HostConfig :: "HostConfig option"
  cj_RestartCount :: int
  cj_Mounts :: "MountPoint list"
  cj_Ports :: "(string \<times> string list) list option"

section \<open>Describing containers\<close>

fun formatPortList :: "nat \<Rightarrow> Port list \<Rightarrow> string" where
  "formatPortList i [] = ''''"
| "formatPortList i (p # ps) =
     (if i > 0 then '', '' else '''') @
     (if po_PublicPort p \<noteq> 0 then
        po_IP p @ '':'' @ nat_str (po_PublicPort p) @ ''->'' @ nat_str (po_PrivatePort p) @ ''/'' @ po_Type p
      else nat_str (po_PrivatePort p) @ ''/'' @ po_Type p) @
     formatPortList (i + 1) ps"

definition formatPorts :: "Port list \<Rightarrow> string" where
  "formatPorts ports = (if length ports = 0 then '''' else formatPortList 0 ports)"

definition display_name :: "string list \<Rightarrow> string" where
  "display_name names = (case names of [] \<Rightarrow> '''' | n # _ \<Rightarrow> trim_prefix n ''/'')"

definition toContainerInfo :: "ApiContainer \<Rightarrow> ContainerInfo outcome" where
  "toContainerInfo c =
     bind_outcome (slice_to 12 (ac_ID c)) (\<lambda>short.
       Ret \<lparr>ci_HostID = '''', ci_ID = short, ci_Name = display_name (ac_Names c), ci_Image = ac_Image c,
            ci_Status = ac_Status c, ci_State = ac_State c, ci_Ports = formatPorts (ac_Ports c)\<rparr>)"

text \<open>The pattern \<open>if len(s) > n { s = s[:n-3] + "..." }\<close>.\<close>

definition ellipsis :: "nat \<Rightarrow> string \<Rightarrow> string" where
  "ellipsis n s = (if length s > n then take (n - 3) s @ ''...'' else s)"

text \<open>The rendering of the creation time, which depends on the time zone, is the parameter \<open>fmtTime\<close>.\<close>

definition toContainerDisplay :: "(int \<Rightarrow> string) \<Rightarrow> ApiContainer \<Rightarrow> ContainerDisplay outcome" where
  "toContainerDisplay fmtTime c =
     (let name = display_name (ac_Names c);
          networks = (case ac_Networks c of None \<Rightarrow> [] | Some ns \<Rightarrow> ns);
          labels = filter (\<lambda>(k, v). \<not> has_prefix k ''desktop.docker.'' \<and> \<not> has_prefix k ''org.opencontainers.'') (ac_Labels c);
          created = fmtTime (ac_Created c);
          command = ellipsis 60 (ac_Command c)
      in bind_outcome (slice_to 12 (ac_ID c)) (\<lambda>short.
           Ret \<lparr>cd_HostID = '''', cd_ID = short, cd_Name = name, cd_Image = ac_Image c, cd_Status = ac_Status c,
                cd_State = ac_State c, cd_Command = command, cd_Ports = formatPorts (ac_Ports c), cd_Created = created,
                cd_Networks = networks, cd_Labels = labels, cd_SizeRw = '''', cd_Env = [], cd_HealthStatus = '''',
                cd_HealthLog = '''', cd_Mounts = [], cd_RestartPolicy = '''', cd_RestartCount = 0, cd_CPULimit = Fin 0,
                cd_MemoryLimit = 0, cd_Entrypoint = ''''\<rparr>))"

section \<open>The client and its metadata cache\<close>

record staticContainerData =
  sc_Env :: "string list"
  sc_Entrypoint :: string
  sc_Command :: string
  sc_Mounts :: "string list"
  sc_RestartPolicy :: string
  sc_CPULimit :: float64
  sc_MemoryLimit :: int

record Client =
  includeContainers :: "string list"
  metadataCache :: "string \<rightharpoonup> staticContainerData"
  MetadataCacheHits :: nat
  MetadataCacheMisses :: nat
  MonitoredContainers :: nat

definition NewClient :: Client where
  "NewClient = \<lparr>includeContainers = [], metadataCache = Map.empty, MetadataCacheHits = 0, MetadataCacheMisses = 0,
     MonitoredContainers = 0\<rparr>"

text \<open>\<open>NewClient\<close> of the source: \<open>opts\<close> is the error of the SDK's constructor, if any.\<close>

definition NewClient_env :: "error option \<Rightarrow> error + Client" where
  "NewClient_env opts =
     (case opts of
        Some err \<Rightarrow> Inl (''docker.NewClient: failed to create client: '' @ err)
      | None \<Rightarrow> Inr NewClient)"

definition SetIncludeContainers :: "string list \<Rightarrow> Client \<Rightarrow> Client" where
  "SetIncludeContainers includes c = c\<lparr>includeContainers := includes\<rparr>"

definition fullCommand :: "ContainerConfig \<Rightarrow> string" where
  "fullCommand cfg =
     (let fc = (if length (cc_Entrypoint cfg) > 0 then join '' '' (cc_Entrypoint cfg) else '''')
      in if length (cc_Cmd cfg) > 0 then
           (let cmdStr = join '' '' (cc_Cmd cfg) in if fc \<noteq> '''' then fc @ '' '' @ cmdStr else cmdStr)
         else fc)"

definition enrichConfigDetails :: "(string \<Rightarrow> string) \<Rightarrow> ContainerJSON \<Rightarrow> ContainerDisplay \<Rightarrow> ContainerDisplay" where
  "enrichConfigDetails uni inspect cd =
     (case cj_Config inspect of
        None \<Rightarrow> cd
      | Some cfg \<Rightarrow>
          cd\<lparr>cd_Env := map (Redact uni) (cc_Env cfg),
             cd_Entrypoint := ellipsis 80 (Redact uni (fullCommand cfg))\<rparr>)"

definition enrichHealthDetails :: "ContainerJSON \<Rightarrow> ContainerDisplay \<Rightarrow> ContainerDisplay" where
  "enrichHealthDetails inspect cd =
     (case cj_Health inspect of
        None \<Rightarrow> cd
      | Some h \<Rightarrow>
          let cd = cd\<lparr>cd_HealthStatus := he_Status h\<rparr>
          in if length (he_Log h) > 0 then cd\<lparr>cd_HealthLog := ellipsis 120 (trim_space (last (he_Log h)))\<rparr> else cd)"

definition enrichHostConfigDetails :: "ContainerJSON \<Rightarrow> ContainerDisplay \<Rightarrow> ContainerDisplay" where
  "enrichHostConfigDetails inspect cd =
     (case cj_HostConfig inspect of
        None \<Rightarrow> cd
      | Some hc \<Rightarrow>
          let cd = cd\<lparr>cd_RestartPolicy := hc_RestartPolicyName hc @
                        (if hc_MaximumRetryCount hc > 0 then '':'' @ int_str (hc_MaximumRetryCount hc) else '''')\<rparr>;
              cd = (if hc_NanoCPUs hc > 0 then cd\<lparr>cd_CPULimit := f_div (f64_of_int (hc_NanoCPUs hc)) (Fin 1000000000)\<rparr> else cd);
              cd = (if hc_Memory hc > 0 then cd\<lparr>cd_MemoryLimit := hc_Memory hc\<rparr> else cd)
          in if cj_RestartCount inspect > 0 then cd\<lparr>cd_RestartCount := cj_RestartCount inspect\<rparr> else cd)"

definition arrow :: string where "arrow = [CHR 0xE2, CHR 0x86, CHR 0x92]"

definition enrichMountDetails :: "ContainerJSON \<Rightarrow> ContainerDisplay \<Rightarrow> ContainerDisplay" where
  "enrichMountDetails inspect cd =
     cd\<lparr>cd_Mounts := cd_Mounts cd @
          map (\<lambda>mt. ellipsis 80 (mp_Source mt @ '' '' @ arrow @ '' '' @ mp_Destination mt @ '' ('' @ mp_Type mt @ '')''))
            (cj_Mounts inspect)\<rparr>"

definition enrichContainerDetails ::
  "(string \<Rightarrow> string) \<Rightarrow> (string \<Rightarrow> error + ContainerJSON) \<Rightarrow> string \<Rightarrow> Client \<times> ContainerDisplay \<Rightarrow> Client \<times> ContainerDisplay" where
  "enrichContainerDetails uni ContainerInspect i st =
     (let (c, cd) = st
      in case metadataCache c i of
           Some cached \<Rightarrow>
             (c\<lparr>MetadataCacheHits := MetadataCacheHits c + 1\<rparr>,
              cd\<lparr>cd_Env := sc_Env cached, cd_Entrypoint := sc_Entrypoint cached,
                 cd_Command := (if sc_Command cached \<noteq> '''' then sc_Command cached else cd_Command cd),
                 cd_Mounts := sc_Mounts cached, cd_RestartPolicy := sc_RestartPolicy cached,
                 cd_CPULimit := sc_CPULimit cached, cd_MemoryLimit := sc_MemoryLimit cached\<rparr>)
         | None \<Rightarrow>
             let c = c\<lparr>MetadataCacheMisses := MetadataCacheMisses c + 1\<rparr>
             in (case ContainerInspect i of
                   Inl err \<Rightarrow> (c, cd)
                 | Inr inspect \<Rightarrow>
                     let cd = enrichMountDetails inspect (enrichHostConfigDetails inspect
                                (enrichHealthDetails inspect (enrichConfigDetails uni inspect cd)))
                     in (c\<lparr>metadataCache := (metadataCache c)(i \<mapsto>
                            \<lparr>sc_Env = cd_Env cd, sc_Entrypoint = cd_Entrypoint cd, sc_Command = cd_Command cd,
                             sc_Mounts = cd_Mounts cd, sc_RestartPolicy = cd_RestartPolicy cd,
                             sc_CPULimit = cd_CPULimit cd, sc_MemoryLimit = cd_MemoryLimit cd\<rparr>)\<rparr>, cd)))"

definition ListRunningContainers :: "(bool \<Rightarrow> error + ApiContainer list) \<Rightarrow> Client \<Rightarrow> bool \<Rightarrow> (error + ContainerInfo list) outcome" where
  "ListRunningContainers ContainerList c all_states =
     (case ContainerList all_states of
        Inl err \<Rightarrow> Ret (Inl (''docker.ListRunningContainers: failed to list: '' @ err))
      | Inr containers \<Rightarrow>
          bind_outcome (mapM_outcome toContainerInfo containers) (\<lambda>infos.
            Ret (Inr (filter (\<lambda>info. isMonitored (includeContainers c) (ci_Name info)) infos))))"

text \<open>
  The second pass of \<open>ListRunningContainersDetailed\<close> runs one goroutine per container, each on its
  own slice element; \<open>sched\<close> is the order in which they reach the cache.
\<close>

fun enrichAll ::
  "(string \<Rightarrow> string) \<Rightarrow> (string \<Rightarrow> error + ContainerJSON) \<Rightarrow> string list \<Rightarrow> nat list \<Rightarrow>
   Client \<times> ContainerDisplay list \<Rightarrow> Client \<times> ContainerDisplay list" where
  "enrichAll uni ContainerInspect ids [] st = st"
| "enrichAll uni ContainerInspect ids (i # is) (c, monitored) =
     (case enrichContainerDetails uni ContainerInspect (ids ! i) (c, monitored ! i) of
        (c, cd) \<Rightarrow> enrichAll uni ContainerInspect ids is (c, monitored[i := cd]))"

definition ListRunningContainersDetailed ::
  "(string \<Rightarrow> string) \<Rightarrow> (int \<Rightarrow> string) \<Rightarrow> (nat \<Rightarrow> nat list) \<Rightarrow> (bool \<Rightarrow> error + ApiContainer list) \<Rightarrow>
   (string \<Rightarrow> error + ContainerJSON) \<Rightarrow> bool \<Rightarrow> Client \<Rightarrow> (Client \<times> (error + ContainerDisplay list)) outcome" where
  "ListRunningContainersDetailed uni fmtTime sched ContainerList ContainerInspect all_states c =
     (case ContainerList all_states of
        Inl err \<Rightarrow> Ret (c, Inl (''docker.ListRunningContainersDetailed: failed to list: '' @ err))
      | Inr containers \<Rightarrow>
          bind_outcome (mapM_outcome (\<lambda>ct. bind_outcome (toContainerDisplay fmtTime ct) (\<lambda>cd. Ret (ac_ID ct, cd))) containers) (\<lambda>all.
            let kept = filter (\<lambda>(i, cd). isMonitored (includeContainers c) (cd_Name cd)) all;
                ids = map fst kept; monitored = map snd kept;
                c = c\<lparr>MonitoredContainers := length monitored\<rparr>
            in if length monitored = 0 then Ret (c, Inr monitored)
               else (case enrichAll uni ContainerInspect ids (sched (length monitored)) (c, monitored) of
                       (c, monitored) \<Rightarrow> Ret (c, Inr monitored))))"

section \<open>Logs and events\<close>

definition cleanLogLine :: "string \<Rightarrow> string" where
  "cleanLogLine line =
     (if length line > 8 \<and> (line ! 0 = CHR 0x01 \<or> line ! 0 = CHR 0x02 \<or> line ! 0 = CHR 0x00)
      then trim_space (drop 8 line)
      else trim_space line)"

text \<open>The channel of log lines: a buffer of a hundred, and a send that gives up when it is full.\<close>

definition logBuffer :: nat where "logBuffer = 100"

definition offer :: "string list \<Rightarrow> string \<Rightarrow> string list" where
  "offer ch line = (if length ch < logBuffer then ch @ [line] else ch)"

fun sendLines :: "string list \<Rightarrow> string list \<Rightarrow> string list" where
  "sendLines [] ch = ch"
| "sendLines (line # ls) ch =
     (let cleaned = cleanLogLine line in sendLines ls (if cleaned \<noteq> '''' then offer ch cleaned else ch))"

definition processLogChunk :: "nat \<Rightarrow> string \<Rightarrow> string list \<Rightarrow> string list" where
  "processLogChunk n buf logCh = sendLines (split_on (CHR 0x0A) (take n buf)) logCh"

text \<open>
  The goroutine of \<open>StreamContainerLogs\<close>, interleaved with the reader of the channel: the context
  ends, a read fails, a read returns bytes, or the consumer takes a line. The result is what is left in
  the channel, and whether the goroutine has closed it.
\<close>

datatype log_step = LogCtxDone | LogReadError | LogRead string | LogTaken

fun streamLoop :: "log_step list \<Rightarrow> string list \<Rightarrow> string list \<times> bool" where
  "streamLoop [] ch = (ch, False)"
| "streamLoop (LogCtxDone # es) ch = (ch, True)"
| "streamLoop (LogReadError # es) ch = (ch, True)"
| "streamLoop (LogRead buf # es) ch = streamLoop es (if length buf > 0 then processLogChunk (length buf) buf ch else ch)"
| "streamLoop (LogTaken # es) ch = streamLoop es (tl ch)"

definition StreamContainerLogs :: "(string \<Rightarrow> error option) \<Rightarrow> log_step list \<Rightarrow> string \<Rightarrow> error + string list \<times> bool" where
  "StreamContainerLogs ContainerLogs steps containerID =
     (case ContainerLogs containerID of
        Some err \<Rightarrow> Inl (''docker.StreamContainerLogs: '' @ err)
      | None \<Rightarrow> Inr (streamLoop steps []))"

record ContainerEvent =
  ev_Action :: string
  ev_ContainerID :: string
  ev_ContainerName :: string
  ev_Image :: string

record ApiMessage =
  am_Action :: string
  am_ID :: string
  am_Attributes :: "string \<Rightarrow> string"

datatype event_input = CtxCancelled | ErrsClosed | ErrMsg error | MsgsClosed | Msg ApiMessage

text \<open>
  The goroutine of \<open>WatchEvents\<close> over the inputs its \<open>select\<close> receives: the events it sends and the
  error it reports, if any.
\<close>

fun watchLoop :: "string list \<Rightarrow> event_input list \<Rightarrow> (ContainerEvent list \<times> error option) outcome" where
  "watchLoop includes [] = Ret ([], None)"
| "watchLoop includes (CtxCancelled # es) = Ret ([], None)"
| "watchLoop includes (ErrsClosed # es) = Ret ([], None)"
| "watchLoop includes (ErrMsg err # es) = Ret ([], Some err)"
| "watchLoop includes (MsgsClosed # es) = Ret ([], None)"
| "watchLoop includes (Msg m # es) =
     (let name = am_Attributes m ''name''
      in if \<not> isMonitored includes name then watchLoop includes es
         else bind_outcome (slice_to 12 (am_ID m)) (\<lambda>short.
           bind_outcome (watchLoop includes es) (\<lambda>(evs, err).
             Ret (\<lparr>ev_Action = am_Action m, ev_ContainerID = short, ev_ContainerName = name,
                   ev_Image = am_Attributes m ''image''\<rparr> # evs, err))))"

text \<open>
  \<open>WatchEvents\<close> subscribes with a filter, the pairs of \<open>filters.Arg\<close>, and starts the goroutine on what the
  daemon's stream \<open>Events\<close> then delivers.
\<close>

definition eventFilters :: "(string \<times> string) list" where
  "eventFilters =
     (''type'', ''container'') #
     map (Pair ''event'') [''start'', ''stop'', ''die'', ''create'', ''destroy'', ''pause'', ''unpause'']"

definition WatchEvents ::
  "((string \<times> string) list \<Rightarrow> 'd \<Rightarrow> event_input list \<times> 'd) \<Rightarrow> Client \<Rightarrow> 'd \<Rightarrow> (ContainerEvent list \<times> error option) outcome \<times> 'd" where
  "WatchEvents Events c d = apfst (watchLoop (includeContainers c)) (Events eventFilters d)"

section \<open>Commands, clean-up, disk usage\<close>

definition StopContainer :: "(string \<Rightarrow> int \<Rightarrow> 'w \<Rightarrow> error option \<times> 'w) \<Rightarrow> string \<Rightarrow> 'w \<Rightarrow> error option \<times> 'w" where
  "StopContainer ContainerStop containerID w =
     (case ContainerStop containerID 10 w of
        (Some err, w) \<Rightarrow> (Some (''docker.StopContainer: '' @ err), w)
      | (None, w) \<Rightarrow> (None, w))"

definition RestartContainer :: "(string \<Rightarrow> int \<Rightarrow> 'w \<Rightarrow> error option \<times> 'w) \<Rightarrow> string \<Rightarrow> 'w \<Rightarrow> error option \<times> 'w" where
  "RestartContainer ContainerRestart containerID w =
     (case ContainerRestart containerID 10 w of
        (Some err, w) \<Rightarrow> (Some (''docker.RestartContainer: '' @ err), w)
      | (None, w) \<Rightarrow> (None, w))"

definition InspectContainer :: "(string \<Rightarrow> error + ContainerJSON) \<Rightarrow> string \<Rightarrow> error + ContainerJSON" where
  "InspectContainer ContainerInspect containerID =
     (case ContainerInspect containerID of
        Inl err \<Rightarrow> Inl (''docker.InspectContainer: '' @ err)
      | Inr j \<Rightarrow> Inr j)"

definition PruneUnused ::
  "('w \<Rightarrow> (error + 64 word) \<times> 'w) \<Rightarrow> ('w \<Rightarrow> 'w) \<Rightarrow> ('w \<Rightarrow> (error + 64 word) \<times> 'w) \<Rightarrow> 'w \<Rightarrow> (error + 64 word) \<times> 'w" where
  "PruneUnused ContainersPrune NetworksPrune ImagesPrune w =
     (let total_reclaimed = 0;
          (containersPrune, w) = ContainersPrune w;
          total_reclaimed = (case containersPrune of Inr sp \<Rightarrow> total_reclaimed + sp | Inl _ \<Rightarrow> total_reclaimed);
          w = NetworksPrune w;
          (imagesPrune, w) = ImagesPrune w;
          total_reclaimed = (case imagesPrune of Inr sp \<Rightarrow> total_reclaimed + sp | Inl _ \<Rightarrow> total_reclaimed)
      in (Inr total_reclaimed, w))"

definition PruneImages :: "('w \<Rightarrow> (error + 64 word) \<times> 'w) \<Rightarrow> 'w \<Rightarrow> (error + 64 word) \<times> 'w" where
  "PruneImages ImagesPruneDangling w = ImagesPruneDangling w"

definition PruneVolumes :: "('w \<Rightarrow> (error + 64 word) \<times> 'w) \<Rightarrow> 'w \<Rightarrow> (error + 64 word) \<times> 'w" where
  "PruneVolumes VolumesPrune w = VolumesPrune w"

record Endpoint =
  en_Name :: string
  en_IPv4Address :: string

record NetworkInspect =
  ni_ID :: string
  ni_Name :: string
  ni_Driver :: string
  ni_Containers :: "(string \<times> Endpoint) list"

text \<open>Each goroutine of \<open>ListNetworks\<close> fills its own slot; a failed one leaves it empty.\<close>

definition ListNetworks :: "(error + string list) \<Rightarrow> (string \<Rightarrow> error + NetworkInspect) \<Rightarrow> error + NetworkInspect list" where
  "ListNetworks NetworkList NetworkInsp =
     (case NetworkList of
        Inl err \<Rightarrow> Inl (''docker.ListNetworks: '' @ err)
      | Inr nets \<Rightarrow>
          let results = map (\<lambda>n. case NetworkInsp n of
                Inr insp \<Rightarrow> insp
              | Inl _ \<Rightarrow> \<lparr>ni_ID = '''', ni_Name = '''', ni_Driver = '''', ni_Containers = []\<rparr>) nets
          in Inr (filter (\<lambda>res. ni_ID res \<noteq> '''') results))"

record ImageSummary =
  im_Containers :: "64 word"
  im_Size :: "64 word"
  im_SharedSize :: "64 word"

record VolumeUsage =
  vu_RefCount :: "64 word"
  vu_Size :: "64 word"

record SystemDiskUsage =
  ImagesReclaimable :: "64 word"
  VolumesReclaimable :: "64 word"

fun imagesReclaim :: "ImageSummary list \<Rightarrow> 64 word \<Rightarrow> 64 word" where
  "imagesReclaim [] acc = acc"
| "imagesReclaim (img # is) acc =
     imagesReclaim is (if im_Containers img = 0 then acc + (im_SharedSize img + (im_Size img - im_SharedSize img)) else acc)"

fun volumesReclaim :: "VolumeUsage option list \<Rightarrow> 64 word \<Rightarrow> 64 word" where
  "volumesReclaim [] acc = acc"
| "volumesReclaim (vol # vs) acc =
     volumesReclaim vs (case vol of Some u \<Rightarrow> if vu_RefCount u = 0 then acc + vu_Size u else acc | None \<Rightarrow> acc)"

definition GetDiskUsage :: "(error + ImageSummary list \<times> VolumeUsage option list) \<Rightarrow> error + SystemDiskUsage" where
  "GetDiskUsage DiskUsage =
     (case DiskUsage of
        Inl err \<Rightarrow> Inl (''docker.GetDiskUsage: '' @ err)
      | Inr (images, volumes) \<Rightarrow>
          Inr \<lparr>ImagesReclaimable = imagesReclaim images 0, VolumesReclaimable = volumesReclaim volumes 0\<rparr>)"

record VersionInfo =
  vi_Version :: string
  vi_APIVersion :: string
  vi_Os :: string
  vi_Arch :: string
  vi_KernelVersion :: string

record DaemonInfo =
  di_MemTotal :: int
  di_Containers :: int
  di_Running :: int
  di_Stopped :: int
  di_Paused :: int
  di_Images :: int

definition GetSystemInfo :: "(error + VersionInfo) \<Rightarrow> (error + DaemonInfo) \<Rightarrow> error + (string \<rightharpoonup> string)" where
  "GetSystemInfo ServerVersion Info =
     (case ServerVersion of
        Inl err \<Rightarrow> Inl (''docker.GetSystemInfo: failed to get version: '' @ err)
      | Inr version \<Rightarrow>
          (case Info of
             Inl err \<Rightarrow> Inl (''docker.GetSystemInfo: failed to get info: '' @ err)
           | Inr info \<Rightarrow>
               let memoryGB = f_div (f64_of_int (di_MemTotal info)) (Fin (1024 * 1024 * 1024))
               in Inr [''Server Version'' \<mapsto> vi_Version version,
                       ''API Version'' \<mapsto> vi_APIVersion version,
                       ''OS/Arch'' \<mapsto> vi_Os version @ ''/'' @ vi_Arch version,
                       ''Kernel'' \<mapsto> vi_KernelVersion version,
                       ''Total Memory'' \<mapsto> fmt_f1 memoryGB @ '' GB'',
                       ''Containers'' \<mapsto> int_str (di_Containers info) @ '' total ('' @ int_str (di_Running info) @ '' running, '' @
                          int_str (di_Stopped info) @ '' stopped, '' @ int_str (di_Paused info) @ '' paused)'',
                       ''Images'' \<mapsto> int_str (di_Images info)]))"

section \<open>The stress test\<close>

record 'w stress_api =
  sa_remove :: "string \<Rightarrow> 'w \<Rightarrow> 'w"
  sa_image_present :: "string \<Rightarrow> 'w \<Rightarrow> bool"
  sa_pull :: "string \<Rightarrow> 'w \<Rightarrow> error option \<times> 'w"
  sa_create :: "string \<Rightarrow> string list \<Rightarrow> string \<Rightarrow> 'w \<Rightarrow> (error + string) \<times> 'w"
  sa_start :: "string \<Rightarrow> 'w \<Rightarrow> error option \<times> 'w"

definition stressImage :: string where "stressImage = ''ghcr.io/alexei-led/stress-ng:latest''"
definition stressName :: string where "stressName = ''castle-rock-stress''"

definition stressCmd :: "string \<Rightarrow> int \<Rightarrow> string list option" where
  "stressCmd mode durationSec =
     (if mode = ''cpu'' then Some [''--cpu'', ''2'', ''--timeout'', int_str durationSec @ ''s'']
      else if mode = ''memory'' then
        Some [''--vm'', ''1'', ''--vm-bytes'', ''256M'', ''--vm-hang'', ''0'', ''--timeout'', int_str durationSec @ ''s'']
      else if mode = ''both'' then
        Some [''--cpu'', ''2'', ''--vm'', ''1'', ''--vm-bytes'', ''256M'', ''--vm-hang'', ''0'', ''--timeout'', int_str durationSec @ ''s'']
      else None)"

definition RunStressTest :: "'w stress_api \<Rightarrow> string \<Rightarrow> int \<Rightarrow> 'w \<Rightarrow> error option \<times> 'w" where
  "RunStressTest api mode durationSec w =
     (case stressCmd mode durationSec of
        None \<Rightarrow> (Some (''docker.RunStressTest: invalid mode: '' @ mode), w)
      | Some cmd \<Rightarrow>
          let w = sa_remove api stressName w;
              (pullErr, w) = (if sa_image_present api stressImage w then (None, w) else sa_pull api stressImage w)
          in case pullErr of
               Some e \<Rightarrow> (Some (''docker.RunStressTest: failed to pull image '' @ stressImage @ '': '' @ e), w)
             | None \<Rightarrow>
                 (case sa_create api stressImage cmd stressName w of
                    (Inl e, w) \<Rightarrow> (Some (''docker.RunStressTest: failed to create container: '' @ e), w)
                  | (Inr i, w) \<Rightarrow>
                      (case sa_start api i w of
                         (Some e, w) \<Rightarrow> (Some (''docker.RunStressTest: failed to start container: '' @ e), w)
                       | (None, w) \<Rightarrow> (None, w))))"

section \<open>Listing\<close>

definition info_of :: "ApiContainer \<Rightarrow> ContainerInfo" where
  "info_of c = \<lparr>ci_HostID = '''', ci_ID = take 12 (ac_ID c), ci_Name = display_name (ac_Names c), ci_Image = ac_Image c,
     ci_Status = ac_Status c, ci_State = ac_State c, ci_Ports = formatPorts (ac_Ports c)\<rparr>"

lemma toContainerInfo_Ret: "12 \<le> length (ac_ID c) \<Longrightarrow> toContainerInfo c = Ret (info_of c)"
  by (simp add: toContainerInfo_def info_of_def slice_to_def)

lemma toContainerInfo_Panic: "length (ac_ID c) < 12 \<Longrightarrow> toContainerInfo c = Panic"
  by (simp add: toContainerInfo_def slice_to_def)

lemma ellipsis_length: "3 \<le> n \<Longrightarrow> length (ellipsis n s) \<le> n"
  by (auto simp: ellipsis_def)

section \<open>The metadata cache\<close>

definition redacted :: "(string \<Rightarrow> string) \<Rightarrow> string list \<Rightarrow> bool" where
  "redacted uni env \<longleftrightarrow> list_all (\<lambda>e. Redact uni e = e) env"

definition cache_redacted :: "(string \<Rightarrow> string) \<Rightarrow> Client \<Rightarrow> bool" where
  "cache_redacted uni c \<longleftrightarrow> (\<forall>i st. metadataCache c i = Some st \<longrightarrow> redacted uni (sc_Env st))"

lemma redacted_Nil [simp]: "redacted uni []"
  by (simp add: redacted_def)

lemma redacted_map [simp]: "redacted uni (map (Redact uni) env)"
  by (induction env) (simp_all add: redacted_def Redact_idem)

lemma redacted_value:
  assumes "redacted uni env" "k @ CHR ''='' # v \<in> set env" "CHR ''='' \<notin> set k" "sensitive uni k"
  shows "v = ''[REDACTED]''"
proof -
  have "Redact uni (k @ CHR ''='' # v) = k @ CHR ''='' # v"
    using assms(1,2) by (auto simp: redacted_def list_all_iff)
  then show ?thesis using Redact_assignment [OF assms(3,4), of v] by simp
qed

lemma enrich_frame [simp]:
  "cd_Env (enrichMountDetails j cd) = cd_Env cd"
  "cd_Env (enrichHostConfigDetails j cd) = cd_Env cd"
  "cd_Env (enrichHealthDetails j cd) = cd_Env cd"
  by (simp_all add: enrichMountDetails_def enrichHostConfigDetails_def enrichHealthDetails_def Let_def split: option.split)

lemma enrichConfig_redacted: "redacted uni (cd_Env cd) \<Longrightarrow> redacted uni (cd_Env (enrichConfigDetails uni j cd))"
  by (simp add: enrichConfigDetails_def split: option.split)

lemma enrichContainerDetails_redacted:
  assumes "cache_redacted uni c" "redacted uni (cd_Env cd)" "enrichContainerDetails uni insp i (c, cd) = (c', cd')"
  shows "cache_redacted uni c' \<and> redacted uni (cd_Env cd')"
proof (cases "metadataCache c i")
  case (Some st)
  then have "redacted uni (sc_Env st)" using assms(1) by (auto simp: cache_redacted_def)
  then show ?thesis using assms Some by (auto simp: enrichContainerDetails_def cache_redacted_def)
next
  case None
  then show ?thesis
    using assms enrichConfig_redacted [OF assms(2)]
    by (auto simp: enrichContainerDetails_def Let_def cache_redacted_def split: sum.splits if_splits)
qed

lemma enrichAll_redacted:
  assumes "cache_redacted uni c" "list_all (\<lambda>cd. redacted uni (cd_Env cd)) cds" "list_all (\<lambda>i. i < length cds) is"
    and "enrichAll uni insp ids is (c, cds) = (c', cds')"
  shows "cache_redacted uni c' \<and> list_all (\<lambda>cd. redacted uni (cd_Env cd)) cds'"
  using assms
proof (induction "is" arbitrary: c cds)
  case Nil
  then show ?case by simp
next
  case (Cons i "is")
  obtain c1 cd1 where e: "enrichContainerDetails uni insp (ids ! i) (c, cds ! i) = (c1, cd1)"
    by (cases "enrichContainerDetails uni insp (ids ! i) (c, cds ! i)")
  have i: "i < length cds" using Cons.prems(3) by simp
  have r: "cache_redacted uni c1 \<and> redacted uni (cd_Env cd1)"
    using enrichContainerDetails_redacted [OF Cons.prems(1) _ e] Cons.prems(2) i by (simp add: list_all_length)
  then have "list_all (\<lambda>cd. redacted uni (cd_Env cd)) (cds[i := cd1])"
    using Cons.prems(2) by (auto simp: list_all_iff dest!: subsetD [OF set_update_subset_insert])
  then show ?case using Cons.IH [of c1 "cds[i := cd1]"] Cons.prems(3,4) r e by simp
qed

text \<open>What an inspection leaves alone.\<close>

lemma enrich_cached_fields:
  fixes uni j cd0
  defines "cd1 \<equiv> enrichMountDetails j (enrichHostConfigDetails j (enrichHealthDetails j (enrichConfigDetails uni j cd0)))"
  shows "cd_HostID cd1 = cd_HostID cd0" "cd_ID cd1 = cd_ID cd0" "cd_Name cd1 = cd_Name cd0" "cd_Image cd1 = cd_Image cd0"
    "cd_Status cd1 = cd_Status cd0" "cd_State cd1 = cd_State cd0" "cd_Command cd1 = cd_Command cd0"
    "cd_Ports cd1 = cd_Ports cd0" "cd_Created cd1 = cd_Created cd0" "cd_Networks cd1 = cd_Networks cd0"
    "cd_Labels cd1 = cd_Labels cd0" "cd_SizeRw cd1 = cd_SizeRw cd0"
  unfolding cd1_def
  by (simp_all add: enrichMountDetails_def enrichHostConfigDetails_def enrichHealthDetails_def enrichConfigDetails_def Let_def
      split: option.split)

text \<open>
  What a listing that returns has done: it failed and left the client alone, or it kept the monitored
  entries, each with a twelve-byte ID and an empty environment, and enriched them.
\<close>

lemma toContainerDisplay_fields: "toContainerDisplay f ct = Ret cd \<Longrightarrow> cd_Env cd = [] \<and> length (cd_ID cd) = 12"
  by (auto simp: toContainerDisplay_def Let_def slice_to_def split: if_splits)

lemma detailed_cases:
  assumes "ListRunningContainersDetailed uni f sched lst insp al c = Ret (c', res)"
  obtains (failed) e where "c' = c" "res = Inl e"
  | (listed) kept cds where
      "\<forall>x \<in> set kept. cd_Env (snd x) = [] \<and> length (cd_ID (snd x)) = 12 \<and> isMonitored (includeContainers c) (cd_Name (snd x))"
      "enrichAll uni insp (map fst kept) (if kept = [] then [] else sched (length kept))
         (c\<lparr>MonitoredContainers := length kept\<rparr>, map snd kept) = (c', cds)" "res = Inr cds"
proof (cases "lst al")
  case (Inl e)
  then show ?thesis using assms failed by (auto simp: ListRunningContainersDetailed_def)
next
  case (Inr cts)
  then obtain pairs where m: "mapM_outcome (\<lambda>ct. bind_outcome (toContainerDisplay f ct) (\<lambda>cd. Ret (ac_ID ct, cd))) cts = Ret pairs"
    using assms by (auto simp: ListRunningContainersDetailed_def)
  let ?kept = "filter (\<lambda>(i, cd). isMonitored (includeContainers c) (cd_Name cd)) pairs"
  have "list_all2 (\<lambda>ct x. cd_Env (snd x) = [] \<and> length (cd_ID (snd x)) = 12) cts pairs"
    using m unfolding mapM_outcome_Ret_iff by (rule list_all2_mono) (auto dest: toContainerDisplay_fields)
  then have "\<forall>x \<in> set pairs. cd_Env (snd x) = [] \<and> length (cd_ID (snd x)) = 12"
    by (induction rule: list_all2_induct) simp_all
  then have k: "\<forall>x \<in> set ?kept. cd_Env (snd x) = [] \<and> length (cd_ID (snd x)) = 12 \<and> isMonitored (includeContainers c) (cd_Name (snd x))"
    by auto
  obtain c1 cds where e: "enrichAll uni insp (map fst ?kept) (if ?kept = [] then [] else sched (length ?kept))
      (c\<lparr>MonitoredContainers := length ?kept\<rparr>, map snd ?kept) = (c1, cds)" by fastforce
  then have "c' = c1" "res = Inr cds"
    using assms Inr m by (cases "?kept = []"; auto simp: ListRunningContainersDetailed_def)+
  then show ?thesis using listed [OF k] e by simp
qed

lemma detailed_redacted:
  assumes inv: "cache_redacted uni c" and sched: "\<And>n. set (sched n) \<subseteq> {..<n}"
    and r: "ListRunningContainersDetailed uni f sched lst insp al c = Ret (c', res)"
  shows "cache_redacted uni c' \<and> (\<forall>cds. res = Inr cds \<longrightarrow> list_all (\<lambda>cd. redacted uni (cd_Env cd)) cds)"
  using r
proof (cases rule: detailed_cases)
  case (failed e)
  then show ?thesis using inv by simp
next
  case (listed kept cds)
  have "cache_redacted uni (c\<lparr>MonitoredContainers := length kept\<rparr>)" using inv by (simp add: cache_redacted_def)
  moreover have "list_all (\<lambda>cd. redacted uni (cd_Env cd)) (map snd kept)" using listed(1) by (simp add: list_all_iff)
  moreover have "list_all (\<lambda>i. i < length (map snd kept)) (if kept = [] then [] else sched (length kept))"
    using sched [of "length kept"] by (auto simp: list_all_iff)
  ultimately show ?thesis using enrichAll_redacted listed(2,3) by blast
qed

text \<open>Neither the cache nor an inspection changes the name or the ID of a listed container.\<close>

lemma enrichContainerDetails_frame:
  assumes "enrichContainerDetails uni insp i (c, cd) = (c', cd')"
  shows "cd_Name cd' = cd_Name cd \<and> cd_ID cd' = cd_ID cd \<and> includeContainers c' = includeContainers c"
proof (cases "metadataCache c i")
  case None
  then show ?thesis
    using assms by (cases "insp i") (auto simp: enrichContainerDetails_def Let_def enrich_cached_fields)
next
  case (Some st)
  then show ?thesis using assms by (auto simp: enrichContainerDetails_def)
qed

lemma map_update_same: "f y = f (xs ! i) \<Longrightarrow> map f (xs[i := y]) = map f xs"
  by (cases "i < length xs") (auto simp: list_eq_iff_nth_eq nth_list_update)

lemma enrichAll_frame:
  "enrichAll uni insp ids is (c, cds) = (c', cds') \<Longrightarrow>
   map cd_Name cds' = map cd_Name cds \<and> map cd_ID cds' = map cd_ID cds \<and> includeContainers c' = includeContainers c"
proof (induction "is" arbitrary: c cds)
  case (Cons i "is")
  obtain c1 cd1 where e: "enrichContainerDetails uni insp (ids ! i) (c, cds ! i) = (c1, cd1)" by fastforce
  note f = enrichContainerDetails_frame [OF e]
  have "map cd_Name (cds[i := cd1]) = map cd_Name cds" "map cd_ID (cds[i := cd1]) = map cd_ID cds"
    using f by (auto intro!: map_update_same)
  then show ?case using Cons.IH [of c1 "cds[i := cd1]"] Cons.prems e f by simp
qed simp

lemma detailed_frame:
  assumes "ListRunningContainersDetailed uni f sched lst insp al c = Ret (c', res)"
  shows "includeContainers c' = includeContainers c \<and>
    (\<forall>cds. res = Inr cds \<longrightarrow> list_all (\<lambda>cd. isMonitored (includeContainers c) (cd_Name cd) \<and> length (cd_ID cd) = 12) cds)"
  using assms
proof (cases rule: detailed_cases)
  case (failed e)
  then show ?thesis by simp
next
  case (listed kept cds)
  note f = enrichAll_frame [OF listed(2)]
  have "cd_Name cd \<in> cd_Name ` set (map snd kept)" "cd_ID cd \<in> cd_ID ` set (map snd kept)" if "cd \<in> set cds" for cd
    using that f by (metis imageI set_map)+
  then have "\<forall>cd \<in> set cds. isMonitored (includeContainers c) (cd_Name cd) \<and> length (cd_ID cd) = 12"
    using listed(1) by fastforce
  then show ?thesis using f listed(3) by (simp add: list_all_iff)
qed

section \<open>Log frames\<close>

text \<open>
  A frame of the multiplexed stream: a header of eight bytes whose first names the stream, then the
  text and a newline.
\<close>

definition is_header :: "string \<Rightarrow> bool" where
  "is_header h \<longleftrightarrow> length h = 8 \<and> h ! 0 \<in> {CHR 0x00, CHR 0x01, CHR 0x02}"

definition frame :: "string \<times> string \<Rightarrow> string" where
  "frame f = fst f @ snd f @ [CHR 0x0A]"

lemma split_on_prefix: "c \<notin> set a \<Longrightarrow> split_on c (a @ c # b) = a # split_on c b"
  by (induction a) auto

lemma split_on_frames:
  "list_all (\<lambda>(h, p). CHR 0x0A \<notin> set (h @ p)) fs \<Longrightarrow>
   split_on (CHR 0x0A) (concat (map frame fs)) = map (\<lambda>(h, p). h @ p) fs @ [[]]"
proof (induction fs)
  case (Cons f fs)
  obtain h p where f: "f = (h, p)" by (cases f)
  have "split_on (CHR 0x0A) ((h @ p) @ CHR 0x0A # concat (map frame fs)) = (h @ p) # split_on (CHR 0x0A) (concat (map frame fs))"
    using Cons.prems f by (intro split_on_prefix) simp
  moreover have "concat (map frame (f # fs)) = (h @ p) @ CHR 0x0A # concat (map frame fs)"
    by (simp add: frame_def [of "(h, p)"] f)
  ultimately show ?case using Cons f by simp
qed simp

lemma cleanLogLine_frame: "is_header h \<Longrightarrow> p \<noteq> [] \<Longrightarrow> cleanLogLine (h @ p) = trim_space p"
  by (cases p) (auto simp: cleanLogLine_def is_header_def nth_append)

lemma trim_space_Nil [simp]: "trim_space [] = []"
  by (simp add: trim_space_def space_encodings_def trim_left_by.simps has_prefix_def)

lemma sendLines_append: "sendLines (xs @ ys) ch = sendLines ys (sendLines xs ch)"
  by (induction xs arbitrary: ch) (simp_all add: Let_def)

lemma sendLines_frames:
  "list_all (\<lambda>(h, p). is_header h \<and> p \<noteq> []) fs \<Longrightarrow>
   sendLines (map (\<lambda>(h, p). h @ p) fs) ch = foldl offer ch (filter (\<lambda>l. l \<noteq> []) (map (trim_space \<circ> snd) fs))"
  by (induction fs arbitrary: ch) (auto simp: cleanLogLine_frame Let_def)

lemma foldl_offer: "length ch \<le> logBuffer \<Longrightarrow> foldl offer ch ls = take logBuffer (ch @ ls)"
proof (induction ls arbitrary: ch)
  case (Cons l ls)
  show ?case
  proof (cases "length ch < logBuffer")
    case True
    then have "foldl offer ch (l # ls) = foldl offer (ch @ [l]) ls" by (simp add: offer_def)
    also have "\<dots> = take logBuffer ((ch @ [l]) @ ls)" using True by (intro Cons.IH) simp
    finally show ?thesis by simp
  next
    case False
    then have "foldl offer ch (l # ls) = foldl offer ch ls" by (simp add: offer_def)
    also have "\<dots> = take logBuffer (ch @ ls)" using Cons.prems by (rule Cons.IH)
    finally show ?thesis using False Cons.prems by simp
  qed
qed simp

text \<open>The channel of log lines never holds more than its buffer.\<close>

lemma sendLines_bounded: "length ch \<le> logBuffer \<Longrightarrow> length (sendLines ls ch) \<le> logBuffer"
  by (induction ls arbitrary: ch) (auto simp: Let_def offer_def)

lemma log_channel_bounded: "length ch \<le> logBuffer \<Longrightarrow> length (fst (streamLoop es ch)) \<le> logBuffer"
  by (induction es ch rule: streamLoop.induct) (auto simp: processLogChunk_def sendLines_bounded)

section \<open>Properties\<close>

text \<open>
  No secret of a container's environment reaches the display, not even through the metadata
  cache: starting from a cache of redacted entries (such as the empty one), whatever the daemon
  answers and in whatever order the goroutines run, every shown entry \<open>NAME=value\<close> with a sensitive
  name has the value \<open>[REDACTED]\<close>, and the cache keeps that property.
\<close>

theorem displayed_environment_is_redacted:
  assumes "cache_redacted uni c" "\<And>n. set (sched n) \<subseteq> {..<n}"
    and "ListRunningContainersDetailed uni fmtTime sched lst insp al c = Ret (c', Inr cds)"
    and "cd \<in> set cds" "k @ CHR ''='' # v \<in> set (cd_Env cd)" "CHR ''='' \<notin> set k" "sensitive uni k"
  shows "v = ''[REDACTED]'' \<and> cache_redacted uni c'"
proof -
  have d: "cache_redacted uni c'" "list_all (\<lambda>cd. redacted uni (cd_Env cd)) cds"
    using detailed_redacted [OF assms(1,2,3)] by blast+
  then have "redacted uni (cd_Env cd)" using assms(4) by (auto simp: list_all_iff)
  then show ?thesis using redacted_value assms(5,6,7) d(1) by blast
qed

definition ex_api_container :: ApiContainer where
  "ex_api_container = \<lparr>ac_ID = ''0123456789abcdef'', ac_Names = [''/web''], ac_Image = ''nginx'', ac_Status = ''Up'',
     ac_State = ''running'', ac_Command = ''nginx'', ac_Created = 0, ac_Ports = [], ac_Labels = [], ac_Networks = None\<rparr>"

definition ex_inspect :: ContainerJSON where
  "ex_inspect = \<lparr>cj_Config = Some \<lparr>cc_User = '''', cc_Env = [''API_TOKEN=abc''], cc_Entrypoint = [], cc_Cmd = []\<rparr>,
     cj_Health = None, cj_HostConfig = None, cj_RestartCount = 0, cj_Mounts = [], cj_Ports = None\<rparr>"

definition ex_detailed :: "(Client \<times> (error + ContainerDisplay list)) outcome" where
  "ex_detailed = ListRunningContainersDetailed id (\<lambda>_. '''') (\<lambda>n. [0..<n]) (\<lambda>_. Inr [ex_api_container]) (\<lambda>_. Inr ex_inspect) True NewClient"

theorem displayed_environment_is_redacted_witness:
  "\<exists>c' cd. ex_detailed = Ret (c', Inr [cd]) \<and> ''API_TOKEN=[REDACTED]'' \<in> set (cd_Env cd) \<and> cache_redacted id c'"
proof -
  have "case ex_detailed of Ret (c', Inr [cd]) \<Rightarrow> cd_Env cd = [''API_TOKEN=[REDACTED]''] | _ \<Rightarrow> False" by code_simp
  then obtain c' cd where e: "ex_detailed = Ret (c', Inr [cd])" "cd_Env cd = [''API_TOKEN=[REDACTED]'']"
    by (auto split: outcome.splits prod.splits sum.splits list.splits)
  have c: "cache_redacted id NewClient" by (simp add: cache_redacted_def NewClient_def)
  have s: "set [0..<n] \<subseteq> {..<n}" for n :: nat by auto
  have k: "''API_TOKEN'' @ CHR ''='' # ''[REDACTED]'' \<in> set (cd_Env cd)" "CHR ''='' \<notin> set ''API_TOKEN''" "sensitive id ''API_TOKEN''"
    using e(2) by (simp_all add: sensitive_def) code_simp
  have "cache_redacted id c'"
    using displayed_environment_is_redacted [OF c s e(1) [unfolded ex_detailed_def], of cd "''API_TOKEN''" "''[REDACTED]''"] k by simp
  moreover have "''API_TOKEN=[REDACTED]'' \<in> set (cd_Env cd)" using e(2) by simp
  ultimately show ?thesis using e(1) by blast
qed

text \<open>
  C37: a chunk of the log stream that consists of whole frames with non-empty lines and no newline
  byte in a header is decoded exactly: the channel receives the lines, trimmed and without the
  headers, in order, and what does not fit its buffer is dropped at the end.
\<close>

theorem log_frames_decoded:
  assumes "list_all (\<lambda>(h, p). is_header h \<and> p \<noteq> [] \<and> CHR 0x0A \<notin> set (h @ p)) fs"
    and "take n buf = concat (map frame fs)" "length ch \<le> 100"
  shows "processLogChunk n buf ch = take 100 (ch @ filter (\<lambda>l. l \<noteq> []) (map (trim_space \<circ> snd) fs))"
proof -
  have f: "list_all (\<lambda>(h, p). CHR 0x0A \<notin> set (h @ p)) fs" "list_all (\<lambda>(h, p). is_header h \<and> p \<noteq> []) fs"
    using assms(1) by (auto simp: list_all_iff)
  have "processLogChunk n buf ch = sendLines [[]] (sendLines (map (\<lambda>(h, p). h @ p) fs) ch)"
    unfolding processLogChunk_def assms(2) split_on_frames [OF f(1)] sendLines_append ..
  also have "\<dots> = foldl offer ch (filter (\<lambda>l. l \<noteq> []) (map (trim_space \<circ> snd) fs))"
    unfolding sendLines_frames [OF f(2)] by (simp add: cleanLogLine_def)
  finally show ?thesis using assms(3) by (simp add: foldl_offer logBuffer_def)
qed

definition ex_header :: "nat \<Rightarrow> string" where
  "ex_header n = [CHR 0x01, CHR 0x00, CHR 0x00, CHR 0x00, CHR 0x00, CHR 0x00, CHR 0x00, char_of n]"

theorem log_frames_decoded_witness:
  "processLogChunk 100 (concat (map frame [(ex_header 6, ''hello''), (ex_header 7, '' world'')])) [] = [''hello'', ''world'']"
proof -
  let ?fs = "[(ex_header 6, ''hello''), (ex_header 7, '' world'')]"
  have "list_all (\<lambda>(h, p). is_header h \<and> p \<noteq> [] \<and> CHR 0x0A \<notin> set (h @ p)) ?fs" by code_simp
  moreover have "take 100 (concat (map frame ?fs)) = concat (map frame ?fs)" by (simp add: frame_def ex_header_def)
  ultimately have "processLogChunk 100 (concat (map frame ?fs)) [] = take 100 ([] @ filter (\<lambda>l. l \<noteq> []) (map (trim_space \<circ> snd) ?fs))"
    by (rule log_frames_decoded) simp
  also have "\<dots> = [''hello'', ''world'']" by code_simp
  finally show ?thesis .
qed

text \<open>
  Two framings the decoder does not undo. The frame of an empty log line, and a frame whose
  length has a byte equal to the newline (10 bytes of text, for one), put raw header bytes into the
  channel as if they were a log line.
\<close>

theorem log_header_leaks:
  "processLogChunk 100 (frame (ex_header 1, '''')) [] = [ex_header 1]
   \<and> processLogChunk 100 (frame (ex_header 10, ''nine char'')) [] = [butlast (ex_header 10), ''nine char'']"
  by code_simp

text \<open>
  The listing returns exactly the monitored containers, in the daemon's order, under their
  twelve-character IDs; it panics if and only if the daemon reports an ID shorter than that.
\<close>

theorem list_running_containers_exact:
  assumes "lst al = Inr cts"
  shows "ListRunningContainers lst c al =
     (if list_all (\<lambda>ct. 12 \<le> length (ac_ID ct)) cts
      then Ret (Inr (filter (\<lambda>i. isMonitored (includeContainers c) (ci_Name i)) (map info_of cts)))
      else Panic)"
proof (cases "list_all (\<lambda>ct. 12 \<le> length (ac_ID ct)) cts")
  case True
  then have "mapM_outcome toContainerInfo cts = Ret (map info_of cts)"
    by (intro mapM_outcome_map toContainerInfo_Ret) (simp add: list_all_iff)
  then show ?thesis using True assms by (simp add: ListRunningContainers_def)
next
  case False
  then obtain ct where "ct \<in> set cts" "length (ac_ID ct) < 12" by (auto simp: list_all_iff)
  then have "mapM_outcome toContainerInfo cts = Panic" by (intro mapM_outcome_Panic toContainerInfo_Panic)
  then show ?thesis using False assms by (simp add: ListRunningContainers_def)
qed

theorem list_running_containers_exact_witness:
  "ListRunningContainers (\<lambda>_. Inr [ex_api_container]) NewClient True = Ret (Inr [info_of ex_api_container])"
  using list_running_containers_exact [of "\<lambda>_. Inr [ex_api_container]" True "[ex_api_container]" NewClient]
  by (simp add: ex_api_container_def NewClient_def isMonitored_def)

text \<open>
  A cached container shows the same static details as the inspection that filled the cache, with
  no further inspection: whatever the daemon would now answer, a later refresh of the same listing
  entry gives the first result except for health and restart count, which fall back to the listing's.
\<close>

theorem metadata_cache_hit:
  assumes "metadataCache c i = None" "insp i = Inr j" "enrichContainerDetails uni insp i (c, cd0) = (c1, cd1)"
  shows "enrichContainerDetails uni insp' i (c1, cd0) =
     (c1\<lparr>MetadataCacheHits := MetadataCacheHits c1 + 1\<rparr>,
      cd1\<lparr>cd_HealthStatus := cd_HealthStatus cd0, cd_HealthLog := cd_HealthLog cd0, cd_RestartCount := cd_RestartCount cd0\<rparr>)"
proof -
  have cd1: "cd1 = enrichMountDetails j (enrichHostConfigDetails j (enrichHealthDetails j (enrichConfigDetails uni j cd0)))"
    and "metadataCache c1 i = Some \<lparr>sc_Env = cd_Env cd1, sc_Entrypoint = cd_Entrypoint cd1, sc_Command = cd_Command cd1,
           sc_Mounts = cd_Mounts cd1, sc_RestartPolicy = cd_RestartPolicy cd1, sc_CPULimit = cd_CPULimit cd1,
           sc_MemoryLimit = cd_MemoryLimit cd1\<rparr>"
    using assms by (auto simp: enrichContainerDetails_def Let_def)
  then show ?thesis
    using enrich_cached_fields [of j uni cd0] unfolding cd1 [symmetric] by (simp add: enrichContainerDetails_def)
qed

text \<open>
  The event stream forwards exactly the monitored messages that arrive before it ends, in order.
\<close>

definition event_of :: "ApiMessage \<Rightarrow> ContainerEvent" where
  "event_of m = \<lparr>ev_Action = am_Action m, ev_ContainerID = take 12 (am_ID m), ev_ContainerName = am_Attributes m ''name'',
     ev_Image = am_Attributes m ''image''\<rparr>"

fun leading_msgs :: "event_input list \<Rightarrow> ApiMessage list" where
  "leading_msgs (Msg m # es) = m # leading_msgs es"
| "leading_msgs es = []"

fun stream_error :: "event_input list \<Rightarrow> error option" where
  "stream_error (Msg m # es) = stream_error es"
| "stream_error (ErrMsg e # es) = Some e"
| "stream_error es = None"

theorem event_stream_forwards_monitored:
  assumes "\<forall>m \<in> set (leading_msgs es). 12 \<le> length (am_ID m)"
  shows "watchLoop inc es =
     Ret (map event_of (filter (\<lambda>m. isMonitored inc (am_Attributes m ''name'')) (leading_msgs es)), stream_error es)"
  using assms
  by (induction inc es rule: watchLoop.induct) (simp_all add: Let_def event_of_def slice_to_def)

definition ex_message :: ApiMessage where
  "ex_message = \<lparr>am_Action = ''die'', am_ID = ''0123456789abcdef'', am_Attributes = (\<lambda>_. ''web'')\<rparr>"

theorem event_stream_forwards_monitored_witness:
  "watchLoop [''web''] [Msg ex_message, ErrMsg ''eof'', Msg ex_message] = Ret ([event_of ex_message], Some ''eof'')"
  using event_stream_forwards_monitored [of "[Msg ex_message, ErrMsg ''eof'', Msg ex_message]" "[''web'']"]
  by (simp add: ex_message_def isMonitored_def)

text \<open>
  The reclaimable space is the total size of the images no container uses and of the volumes
  nothing refers to, in 64-bit arithmetic; the split into shared and own size cancels out. The
  clean-up adds up what the two prunes report and never fails.
\<close>

lemma imagesReclaim_sum: "imagesReclaim is acc = acc + sum_list (map im_Size (filter (\<lambda>i. im_Containers i = 0) is))"
  by (induction "is" arbitrary: acc) (simp_all add: algebra_simps)

lemma volumesReclaim_sum:
  "volumesReclaim vs acc = acc + sum_list (map vu_Size (filter (\<lambda>u. vu_RefCount u = 0) (List.map_filter id vs)))"
  by (induction vs arbitrary: acc) (auto simp: map_filter_simps algebra_simps split: option.split)

theorem disk_usage_totals:
  "GetDiskUsage (Inr (images, volumes)) =
     Inr \<lparr>ImagesReclaimable = sum_list (map im_Size (filter (\<lambda>i. im_Containers i = 0) images)),
          VolumesReclaimable = sum_list (map vu_Size (filter (\<lambda>u. vu_RefCount u = 0) (List.map_filter id volumes)))\<rparr>
   \<and> (\<exists>freed. fst (PruneUnused pc pn im w) = Inr freed)"
  by (auto simp: GetDiskUsage_def imagesReclaim_sum volumesReclaim_sum PruneUnused_def Let_def split: prod.split)

end
