(* ===== verification/Prune.thy ===== *)
theory Prune
  imports Storage Docker
begin

text \<open>
  \<^verbatim>\<open>internal/prune/pruner.go\<close>: the disk watchdog. A check reads the clock, asks for the disk usage, and
  prunes through the Docker client; the parameters of a check are the clock readings and the answers.
\<close>

section \<open>The pruner\<close>

record AutoPruner =
  thresholdPct :: float64
  lastPrune :: time

definition NewAutoPruner :: "float64 \<Rightarrow> AutoPruner" where
  "NewAutoPruner triggerPct = \<lparr>thresholdPct = triggerPct, lastPrune = zero_time\<rparr>"

definition checkPeriod :: duration where "checkPeriod = 5 * minute"

text \<open>
  One check: \<open>t\<close> is the time at its start, \<open>t'\<close> the time after the prune. \<open>prune\<close> is the call of the
  Docker client on the daemon's state; the store is \<open>None\<close> when there is none.
\<close>

definition pruneMessage :: "float64 \<Rightarrow> error + 64 word \<Rightarrow> string" where
  "pruneMessage used res =
     ''AutoPrune triggered. '' @ fmt_f1 used @ ''% used.'' @
     (case res of
        Inr reclaimed \<Rightarrow>
          (let mb = f_div (f_div (f64_of_uint64 reclaimed) (Fin 1024)) (Fin 1024)
           in '' Recovered: '' @ fmt_f1 mb @ '' MB.'')
      | Inl err \<Rightarrow> '' Error: '' @ err)"

definition checkAndPrune ::
  "(error + float64) \<Rightarrow> ('w \<Rightarrow> (error + 64 word) \<times> 'w) \<Rightarrow> time \<Rightarrow> time \<Rightarrow>
   AutoPruner \<times> 'w \<times> SQLiteStore option \<Rightarrow> AutoPruner \<times> 'w \<times> SQLiteStore option" where
  "checkAndPrune disk prune t t' st =
     (let (p, w, store) = st
      in if time_sub t (lastPrune p) < hour then (p, w, store)
         else (case disk of
             Inl err \<Rightarrow> (p, w, store)
           | Inr used \<Rightarrow>
               if f_le (thresholdPct p) used then
                 (let (res, w) = prune w; p = p\<lparr>lastPrune := t'\<rparr>
                  in (p, w, map_option (SaveEvent ''prune'' ''host'' (pruneMessage used res)) store))
               else (p, w, store)))"

text \<open>
  \<open>Start\<close>: a check per tick of the five-minute ticker until the context ends. The parameters of a
  check are what it reads: the clock at its start and after the prune, and the disk usage.
\<close>

record check =
  ck_start :: time
  ck_disk :: "error + float64"
  ck_end :: time

datatype prune_event = PruneTick check | PruneDone

fun pruneLoop ::
  "('w \<Rightarrow> (error + 64 word) \<times> 'w) \<Rightarrow> prune_event list \<Rightarrow>
   AutoPruner \<times> 'w \<times> SQLiteStore option \<Rightarrow> AutoPruner \<times> 'w \<times> SQLiteStore option" where
  "pruneLoop prune [] st = st"
| "pruneLoop prune (PruneDone # es) st = st"
| "pruneLoop prune (PruneTick k # es) st = pruneLoop prune es (checkAndPrune (ck_disk k) prune (ck_start k) (ck_end k) st)"

section \<open>Runs\<close>

text \<open>
  A run observed from outside: the daemon is wrapped so that it counts the calls of the prune, and
  \<open>prune_calls\<close> is their number after the first \<open>n\<close> checks of the loop.
\<close>

definition counted :: "('w \<Rightarrow> (error + 64 word) \<times> 'w) \<Rightarrow> nat \<times> 'w \<Rightarrow> (error + 64 word) \<times> nat \<times> 'w" where
  "counted prune nw = (case nw of (n, w) \<Rightarrow> case prune w of (res, w) \<Rightarrow> (res, Suc n, w))"

definition after_checks ::
  "('w \<Rightarrow> (error + 64 word) \<times> 'w) \<Rightarrow> float64 \<Rightarrow> 'w \<Rightarrow> SQLiteStore option \<Rightarrow> prune_event list \<Rightarrow>
   AutoPruner \<times> (nat \<times> 'w) \<times> SQLiteStore option" where
  "after_checks prune th w store es = pruneLoop (counted prune) es (NewAutoPruner th, (0, w), store)"

definition prune_calls ::
  "('w \<Rightarrow> (error + 64 word) \<times> 'w) \<Rightarrow> float64 \<Rightarrow> 'w \<Rightarrow> SQLiteStore option \<Rightarrow> prune_event list \<Rightarrow> nat" where
  "prune_calls prune th w store es = fst (fst (snd (after_checks prune th w store es)))"

lemma pruneLoop_append: "pruneLoop prune (map PruneTick ks @ es) st = pruneLoop prune es (pruneLoop prune (map PruneTick ks) st)"
  by (induction ks arbitrary: st) simp_all

text \<open>What one check does to the counter and to the pruner.\<close>

lemma check_effect:
  assumes "checkAndPrune (ck_disk k) (counted prune) (ck_start k) (ck_end k) (p, (n, w), store) = (p', (n', w'), store')"
  shows "thresholdPct p' = thresholdPct p"
    and "if hour \<le> time_sub (ck_start k) (lastPrune p) \<and> (\<exists>used. ck_disk k = Inr used \<and> f_le (thresholdPct p) used)
         then n' = Suc n \<and> lastPrune p' = ck_end k else n' = n \<and> lastPrune p' = lastPrune p"
  using assms by (auto simp: checkAndPrune_def counted_def Let_def split: if_splits sum.splits prod.splits)

lemma check_step:
  fixes prune :: "'w \<Rightarrow> (error + 64 word) \<times> 'w" and th w store ks
  defines "pr n \<equiv> fst (after_checks prune th w store (map PruneTick (take n ks)))"
    and "calls n \<equiv> prune_calls prune th w store (map PruneTick (take n ks))"
  assumes "i < length ks"
  shows "thresholdPct (pr (Suc i)) = thresholdPct (pr i)"
    and "if hour \<le> time_sub (ck_start (ks ! i)) (lastPrune (pr i)) \<and> (\<exists>used. ck_disk (ks ! i) = Inr used \<and> f_le (thresholdPct (pr i)) used)
         then calls (Suc i) = Suc (calls i) \<and> lastPrune (pr (Suc i)) = ck_end (ks ! i)
         else calls (Suc i) = calls i \<and> lastPrune (pr (Suc i)) = lastPrune (pr i)"
proof -
  obtain p n v st where a: "after_checks prune th w store (map PruneTick (take i ks)) = (p, (n, v), st)" by (metis prod.exhaust)
  obtain p' n' v' st' where c: "checkAndPrune (ck_disk (ks ! i)) (counted prune) (ck_start (ks ! i)) (ck_end (ks ! i)) (p, (n, v), st) = (p', (n', v'), st')"
    by (metis prod.exhaust)
  have "after_checks prune th w store (map PruneTick (take (Suc i) ks)) = (p', (n', v'), st')"
    using a c unfolding after_checks_def take_Suc_conv_app_nth [OF assms(3)] map_append pruneLoop_append by simp
  then show "thresholdPct (pr (Suc i)) = thresholdPct (pr i)"
    "if hour \<le> time_sub (ck_start (ks ! i)) (lastPrune (pr i)) \<and> (\<exists>used. ck_disk (ks ! i) = Inr used \<and> f_le (thresholdPct (pr i)) used)
     then calls (Suc i) = Suc (calls i) \<and> lastPrune (pr (Suc i)) = ck_end (ks ! i)
     else calls (Suc i) = calls i \<and> lastPrune (pr (Suc i)) = lastPrune (pr i)"
    using check_effect [OF c] a unfolding pr_def calls_def prune_calls_def by simp_all
qed

lemma prune_calls_mono:
  assumes "i \<le> j"
  shows "prune_calls prune th w store (map PruneTick (take i ks)) \<le> prune_calls prune th w store (map PruneTick (take j ks))"
proof -
  have "prune_calls prune th w store (map PruneTick (take n ks)) \<le> prune_calls prune th w store (map PruneTick (take (Suc n) ks))" for n
  proof (cases "n < length ks")
    case True
    from check_step(2) [OF this, of prune th w store] show ?thesis by (auto split: if_splits)
  qed simp
  from lift_Suc_mono_le [of "\<lambda>n. prune_calls prune th w store (map PruneTick (take n ks))", OF this assms] show ?thesis .
qed

text \<open>The pruner remembers the end of the last check that called the prune, or the zero time.\<close>

lemma pruner_remembers:
  fixes prune :: "'w \<Rightarrow> (error + 64 word) \<times> 'w" and th w store ks
  defines "pr n \<equiv> fst (after_checks prune th w store (map PruneTick (take n ks)))"
    and "calls n \<equiv> prune_calls prune th w store (map PruneTick (take n ks))"
  shows "n \<le> length ks \<Longrightarrow> thresholdPct (pr n) = th \<and>
     (calls n = 0 \<and> lastPrune (pr n) = zero_time \<or>
      (\<exists>i<n. calls i < calls (Suc i) \<and> calls (Suc i) = calls n \<and> lastPrune (pr n) = ck_end (ks ! i)))"
proof (induction n)
  case 0
  then show ?case by (simp add: pr_def calls_def prune_calls_def after_checks_def NewAutoPruner_def)
next
  case (Suc n)
  then have n: "n < length ks" by simp
  note s = check_step [OF n, of prune th w store, folded pr_def calls_def]
  show ?case
  proof (cases "calls (Suc n) = calls n")
    case True
    then have "lastPrune (pr (Suc n)) = lastPrune (pr n)" using s(2) by (auto split: if_splits)
    then show ?thesis using True Suc.IH n s(1) by (auto intro: less_SucI)
  next
    case False
    then have "calls n < calls (Suc n)" "lastPrune (pr (Suc n)) = ck_end (ks ! n)" using s(2) by (auto split: if_splits)
    then show ?thesis using Suc.IH n s(1) by auto
  qed
qed

lemma never_pruned_due: "- (2 ^ 62) < t \<Longrightarrow> hour \<le> time_sub t zero_time"
  by (simp add: time_sub_def zero_time_def duration_defs)

lemma PruneUnused_Inr: "\<exists>sp w'. PruneUnused pc pn im w = (Inr sp, w')"
  by (auto simp: PruneUnused_def Let_def split: prod.split)

section \<open>Properties\<close>

text \<open>
  C36: exactly when the watchdog prunes, counting the calls that reach the Docker client: the check number
  \<open>j\<close> of a run makes one call when the disk usage is known and at or above the threshold and it starts an
  hour or more after the end of the last check that made one, or no check has made one yet; and otherwise
  none. So two prunes are at least an hour apart, whatever the disk usage and the period of the checks,
  and none is held back longer. After the end of the context no call is made. The clock is assumed to
  show a time later than 1824.
\<close>

theorem prunes_are_throttled:
  fixes prune :: "'w \<Rightarrow> (error + 64 word) \<times> 'w" and th w store ks
  defines "calls n \<equiv> prune_calls prune th w store (map PruneTick (take n ks))"
  assumes "j < length ks" and "- (2 ^ 62) < ck_start (ks ! j)"
  shows "calls (Suc j) = calls j +
      (if (\<exists>used. ck_disk (ks ! j) = Inr used \<and> f_le th used) \<and>
          (\<forall>i<j. calls i < calls (Suc i) \<and> calls (Suc i) = calls j \<longrightarrow> hour \<le> time_sub (ck_start (ks ! j)) (ck_end (ks ! i)))
       then 1 else 0)
    \<and> prune_calls prune th w store (map PruneTick ks @ PruneDone # es) = calls (length ks)"
proof
  let ?at = "\<lambda>n. fst (after_checks prune th w store (map PruneTick (take n ks)))"
  note mono = prune_calls_mono [of _ _ prune th w store ks, folded calls_def]
  have r: "thresholdPct (?at j) = th" "calls j = 0 \<and> lastPrune (?at j) = zero_time \<or>
      (\<exists>i<j. calls i < calls (Suc i) \<and> calls (Suc i) = calls j \<and> lastPrune (?at j) = ck_end (ks ! i))"
    using pruner_remembers [where n = j and ks = ks and th = th and prune = prune and w = w and store = store, folded calls_def] assms(2) by simp_all
  have last: "i = l" if "i < j" "l < j" "calls i < calls (Suc i)" "calls (Suc i) = calls j" "calls l < calls (Suc l)" "calls (Suc l) = calls j" for i l
    using that mono [of "Suc i" l] mono [of "Suc l" i] by (metis Suc_leI not_less linorder_neqE_nat)
  have "hour \<le> time_sub (ck_start (ks ! j)) (lastPrune (?at j)) \<longleftrightarrow>
      (\<forall>i<j. calls i < calls (Suc i) \<and> calls (Suc i) = calls j \<longrightarrow> hour \<le> time_sub (ck_start (ks ! j)) (ck_end (ks ! i)))"
    using r(2)
  proof
    assume "calls j = 0 \<and> lastPrune (?at j) = zero_time"
    then show ?thesis using never_pruned_due [OF assms(3)] by auto
  next
    assume "\<exists>i<j. calls i < calls (Suc i) \<and> calls (Suc i) = calls j \<and> lastPrune (?at j) = ck_end (ks ! i)"
    then show ?thesis using last by metis
  qed
  then show "calls (Suc j) = calls j +
      (if (\<exists>used. ck_disk (ks ! j) = Inr used \<and> f_le th used) \<and>
          (\<forall>i<j. calls i < calls (Suc i) \<and> calls (Suc i) = calls j \<longrightarrow> hour \<le> time_sub (ck_start (ks ! j)) (ck_end (ks ! i)))
       then 1 else 0)"
    using check_step(2) [OF assms(2), of prune th w store, folded calls_def] r(1) by (auto split: if_splits)
  show "prune_calls prune th w store (map PruneTick ks @ PruneDone # es) = calls (length ks)"
    by (simp add: prune_calls_def calls_def after_checks_def pruneLoop_append)
qed

definition ex_check :: "time \<Rightarrow> check" where
  "ex_check t = \<lparr>ck_start = t, ck_disk = Inr (Fin 90), ck_end = t + 1\<rparr>"

text \<open>Checks at once, after half an hour and after two hours: the first and the last prune.\<close>

theorem prunes_are_throttled_witness:
  "map (\<lambda>n. prune_calls (\<lambda>w. (Inr 0, w)) (Fin 85) () None (map PruneTick (take n [ex_check 0, ex_check (30 * minute), ex_check (2 * hour)]))) [0..<4]
   = [0, 1, 1, 2]"
proof -
  let ?ks = "[ex_check 0, ex_check (30 * minute), ex_check (2 * hour)]"
  let ?c = "\<lambda>n. prune_calls (\<lambda>w. (Inr 0, w)) (Fin 85) () None (map PruneTick (take n ?ks))"
  have z: "?c 0 = 0" by (simp add: prune_calls_def after_checks_def)
  have t: "- (2 ^ 62) < ck_start (?ks ! j)" if "j < 3" for j
    using that by (auto simp: less_Suc_eq numeral_eq_Suc ex_check_def duration_defs)
  have d: "\<exists>used. ck_disk (?ks ! j) = Inr used \<and> f_le (Fin 85) used" if "j < 3" for j
    using that by (auto simp: less_Suc_eq numeral_3_eq_3 ex_check_def)
  have s: "?c (Suc j) = ?c j + (if \<forall>i<j. ?c i < ?c (Suc i) \<and> ?c (Suc i) = ?c j \<longrightarrow> hour \<le> time_sub (ck_start (?ks ! j)) (ck_end (?ks ! i)) then 1 else 0)"
    if "j < 3" for j
    using prunes_are_throttled [where prune = "\<lambda>w. (Inr 0, w)" and th = "Fin 85" and w = "()" and store = None and ks = ?ks and j = j, OF _ t [OF that]]
      d [OF that] that by simp
  have "?c 1 = 1" using s [of 0] z by simp
  moreover from this have "?c 2 = 1" using s [of 1] z by (simp add: ex_check_def time_sub_def duration_defs numeral_2_eq_2)
  moreover from calculation have "?c 3 = 2"
    using s [of 2] z by (simp add: ex_check_def time_sub_def duration_defs numeral_3_eq_3 numeral_2_eq_2 less_Suc_eq)
  ultimately show ?thesis using z by (simp add: upt_rec)
qed

text \<open>
  A failed clean-up is reported as a success. \<open>PruneUnused\<close> returns no error even when the daemon
  refuses both prunes, so the message recorded by the pruner says that space was recovered.
\<close>

theorem prune_failure_is_silent:
  "fst (PruneUnused (\<lambda>w. (Inl e\<^sub>1, w)) id (\<lambda>w. (Inl e\<^sub>2, w)) w) = Inr 0
   \<and> pruneMessage (Fin 90) (fst (PruneUnused (\<lambda>w. (Inl e\<^sub>1, w)) id (\<lambda>w. (Inl e\<^sub>2, w)) w)) =
     ''AutoPrune triggered. 90.0% used. Recovered: 0.0 MB.''"
proof -
  have p: "fst (PruneUnused (\<lambda>w. (Inl e\<^sub>1, w)) id (\<lambda>w. (Inl e\<^sub>2, w)) w) = Inr 0" by (simp add: PruneUnused_def Let_def)
  have "fmt_f1 (Fin 90) = ''90.0''" "fmt_f1 (Fin 0) = ''0.0''" by code_simp+
  moreover have "f64_of_rat 0 = Fin 0" "f64_of_uint64 0 = Fin 0" by (simp_all add: f64_of_rat_def f64_of_uint64_Fin)
  ultimately have "pruneMessage (Fin 90) (Inr 0) = ''AutoPrune triggered. 90.0% used. Recovered: 0.0 MB.''"
    by (simp add: pruneMessage_def)
  then show ?thesis using p by simp
qed

end
