(* ===== verification/Exporter.thy ===== *)
theory Exporter
  imports Docker Store
begin

text \<open>
  \<^verbatim>\<open>internal/metrics/prometheus.go\<close> and \<^verbatim>\<open>internal/metrics/internal.go\<close>: the Prometheus exporter. A gauge
  vector is a map from label values to the gauge; \<open>With(labels).Set(v)\<close> updates it and \<open>Reset()\<close>
  empties it. The local containers, their stats (in the order the map is ranged over) and the remote
  metrics of a leader are arguments of a collection.
\<close>

section \<open>The exporter\<close>

type_synonym labels = "string \<times> string \<times> string \<times> string"
type_synonym gauge_vec = "labels \<rightharpoonup> float64"

record Exporter =
  ex_hostID :: string
  cpuPercent :: gauge_vec
  memoryUsage :: gauge_vec
  memoryLimit :: gauge_vec
  memoryPercent :: gauge_vec
  networkRx :: gauge_vec
  networkTx :: gauge_vec
  blockRead :: gauge_vec
  blockWrite :: gauge_vec
  containerInfo :: gauge_vec
  monitored :: float64
  lastStats :: stats

definition NewExporter :: "string \<Rightarrow> Exporter" where
  "NewExporter hostID =
     \<lparr>ex_hostID = hostID, cpuPercent = Map.empty, memoryUsage = Map.empty, memoryLimit = Map.empty, memoryPercent = Map.empty,
      networkRx = Map.empty, networkTx = Map.empty, blockRead = Map.empty, blockWrite = Map.empty, containerInfo = Map.empty,
      monitored = Fin 0, lastStats = Map.empty\<rparr>"

definition labels_of :: "ContainerMetrics \<Rightarrow> labels" where
  "labels_of s =
     (let hid = (if cm_HostID s = '''' then ''unknown'' else cm_HostID s)
      in (hid, cm_ContainerID s, cm_ContainerName s, cm_Image s))"

definition setGauges :: "ContainerMetrics \<Rightarrow> Exporter \<Rightarrow> Exporter" where
  "setGauges s e =
     (let labels = labels_of s
      in e\<lparr>cpuPercent := (cpuPercent e)(labels \<mapsto> cm_CPUPercent s),
           memoryUsage := (memoryUsage e)(labels \<mapsto> f64_of_uint64 (cm_MemoryUsage s)),
           memoryLimit := (memoryLimit e)(labels \<mapsto> f64_of_uint64 (cm_MemoryLimit s)),
           memoryPercent := (memoryPercent e)(labels \<mapsto> cm_MemoryPercent s),
           networkRx := (networkRx e)(labels \<mapsto> f64_of_uint64 (cm_NetworkRx s)),
           networkTx := (networkTx e)(labels \<mapsto> f64_of_uint64 (cm_NetworkTx s)),
           blockRead := (blockRead e)(labels \<mapsto> f64_of_uint64 (cm_BlockRead s)),
           blockWrite := (blockWrite e)(labels \<mapsto> f64_of_uint64 (cm_BlockWrite s)),
           containerInfo := (containerInfo e)(labels \<mapsto> Fin 1)\<rparr>)"

definition resetGauges :: "Exporter \<Rightarrow> Exporter" where
  "resetGauges e =
     e\<lparr>cpuPercent := Map.empty, memoryUsage := Map.empty, memoryLimit := Map.empty, memoryPercent := Map.empty,
       networkRx := Map.empty, networkTx := Map.empty, blockRead := Map.empty, blockWrite := Map.empty,
       containerInfo := Map.empty\<rparr>"

text \<open>\<open>remote\<close> is \<open>None\<close> without a receiver and its \<open>GetAllMetrics()\<close> otherwise.\<close>

definition collect ::
  "(error + ContainerInfo list) \<Rightarrow> (ContainerInfo list \<Rightarrow> error + stats_range) \<Rightarrow> ContainerMetrics list option \<Rightarrow> Exporter \<Rightarrow> Exporter" where
  "collect listed getStats remote e =
     (case listed of
        Inl err \<Rightarrow> e
      | Inr containers \<Rightarrow>
          (case getStats containers of
             Inl err \<Rightarrow> e
           | Inr r \<Rightarrow>
               let e = e\<lparr>monitored := f64_of_int (int (length containers))\<rparr>;
                   e = resetGauges e;
                   allStats = map (\<lambda>(k, s). s\<lparr>cm_HostID := ex_hostID e\<rparr>) r;
                   allStats = (case remote of Some ms \<Rightarrow> allStats @ ms | None \<Rightarrow> allStats);
                   e = fold setGauges allStats e
               in e\<lparr>lastStats := map_of r\<rparr>))"

text \<open>
  The collection goroutine of \<open>Start\<close>: a collection at once and one per tick, each with what the
  client and the receiver answer then. \<open>time.NewTicker\<close> panics on an interval that is not positive.
\<close>

type_synonym collection = "(error + ContainerInfo list) \<times> (ContainerInfo list \<Rightarrow> error + stats_range) \<times> ContainerMetrics list option"

definition collect_on :: "collection \<Rightarrow> Exporter \<Rightarrow> Exporter" where
  "collect_on a e = (case a of (listed, getStats, remote) \<Rightarrow> collect listed getStats remote e)"

definition collectLoop :: "duration \<Rightarrow> collection \<Rightarrow> collection list \<Rightarrow> Exporter \<Rightarrow> Exporter outcome" where
  "collectLoop interval initial ticks e =
     (let e = collect_on initial e
      in if interval \<le> 0 then Panic else Ret (fold collect_on ticks e))"

definition GetLastStats :: "Exporter \<Rightarrow> stats" where
  "GetLastStats e = lastStats e"

text \<open>The routes of the HTTP server.\<close>

datatype route = MetricsHandler | HealthHandler | PushHandler | NotFound

definition mux :: "bool \<Rightarrow> string \<Rightarrow> route" where
  "mux has_receiver path =
     (if path = ''/metrics'' then MetricsHandler
      else if path = ''/health'' then HealthHandler
      else if has_receiver \<and> path = ''/api/v1/push'' then PushHandler
      else NotFound)"

section \<open>Gauges after a collection\<close>

text \<open>The last snapshot with given labels determines the gauges.\<close>

definition last_with :: "labels \<Rightarrow> ContainerMetrics list \<Rightarrow> ContainerMetrics option" where
  "last_with l ss = List.find (\<lambda>s. labels_of s = l) (rev ss)"

lemma last_with_snoc: "last_with l (ss @ [s]) = (if labels_of s = l then Some s else last_with l ss)"
  by (simp add: last_with_def)

lemma last_with_dom: "last_with l ss \<noteq> None \<longleftrightarrow> l \<in> labels_of ` set ss"
  by (auto simp: last_with_def find_None_iff)

lemma fold_setGauges:
  fixes ss :: "ContainerMetrics list" and e :: Exporter
  defines "e' \<equiv> fold setGauges ss (resetGauges e)"
  shows "cpuPercent e' l = map_option cm_CPUPercent (last_with l ss)"
    "memoryUsage e' l = map_option (\<lambda>s. f64_of_uint64 (cm_MemoryUsage s)) (last_with l ss)"
    "memoryLimit e' l = map_option (\<lambda>s. f64_of_uint64 (cm_MemoryLimit s)) (last_with l ss)"
    "memoryPercent e' l = map_option cm_MemoryPercent (last_with l ss)"
    "networkRx e' l = map_option (\<lambda>s. f64_of_uint64 (cm_NetworkRx s)) (last_with l ss)"
    "networkTx e' l = map_option (\<lambda>s. f64_of_uint64 (cm_NetworkTx s)) (last_with l ss)"
    "blockRead e' l = map_option (\<lambda>s. f64_of_uint64 (cm_BlockRead s)) (last_with l ss)"
    "blockWrite e' l = map_option (\<lambda>s. f64_of_uint64 (cm_BlockWrite s)) (last_with l ss)"
    "containerInfo e' l = map_option (\<lambda>s. Fin 1) (last_with l ss)"
  unfolding e'_def
  by (induction ss rule: rev_induct) (auto simp: resetGauges_def setGauges_def Let_def last_with_snoc last_with_def)

text \<open>The gauges of the exporter, each with what it shows of a snapshot.\<close>

definition gauges :: "((Exporter \<Rightarrow> gauge_vec) \<times> (ContainerMetrics \<Rightarrow> float64)) list" where
  "gauges =
     [(cpuPercent, cm_CPUPercent), (memoryUsage, \<lambda>s. f64_of_uint64 (cm_MemoryUsage s)), (memoryLimit, \<lambda>s. f64_of_uint64 (cm_MemoryLimit s)),
      (memoryPercent, cm_MemoryPercent), (networkRx, \<lambda>s. f64_of_uint64 (cm_NetworkRx s)), (networkTx, \<lambda>s. f64_of_uint64 (cm_NetworkTx s)),
      (blockRead, \<lambda>s. f64_of_uint64 (cm_BlockRead s)), (blockWrite, \<lambda>s. f64_of_uint64 (cm_BlockWrite s)), (containerInfo, \<lambda>s. Fin 1)]"

lemma gauges_shown: "(g, f) \<in> set gauges \<Longrightarrow> g ((fold setGauges ss (resetGauges e))\<lparr>lastStats := m\<rparr>) l = map_option f (last_with l ss)"
  by (auto simp: gauges_def fold_setGauges)

lemma gauges_host: "(g, f) \<in> set gauges \<Longrightarrow> f (s\<lparr>cm_HostID := h\<rparr>) = f s"
  by (auto simp: gauges_def)

lemma last_with_unique:
  assumes "distinct (map labels_of ss)" "s \<in> set ss"
  shows "last_with (labels_of s) ss = Some s"
proof -
  obtain s' where s': "last_with (labels_of s) ss = Some s'" using last_with_dom [of "labels_of s" ss] assms(2) by auto
  then have "s' \<in> set ss" "labels_of s' = labels_of s" by (auto simp: last_with_def find_Some_iff rev_nth)
  then show ?thesis using s' assms by (metis distinct_map inj_onD)
qed

definition all_metrics :: "string \<Rightarrow> stats_range \<Rightarrow> ContainerMetrics list option \<Rightarrow> ContainerMetrics list" where
  "all_metrics host r remote =
     map (\<lambda>(k, s). s\<lparr>cm_HostID := host\<rparr>) r @ (case remote of Some ms \<Rightarrow> ms | None \<Rightarrow> [])"

lemma collect_eq:
  "listed = Inr cs \<Longrightarrow> getStats cs = Inr r \<Longrightarrow>
   collect listed getStats remote e =
     (fold setGauges (all_metrics (ex_hostID e) r remote) (resetGauges (e\<lparr>monitored := f64_of_int (int (length cs))\<rparr>)))\<lparr>lastStats := map_of r\<rparr>"
  by (auto simp: collect_def Let_def all_metrics_def resetGauges_def split: option.split)

section \<open>Properties\<close>

text \<open>
  After a successful collection the exporter shows exactly the present: its series are those of
  the current local and remote containers (a stopped container's series is gone), each with the
  values of its snapshot when the labels are unique, the info gauge is one for each, and the
  snapshot kept for other readers is the local one. A failed collection changes nothing.
\<close>

theorem collection_shows_current_containers:
  assumes "distinct (map labels_of (all_metrics (ex_hostID e) r remote))"
  shows "(\<forall>err getStats. collect (Inl err) getStats remote e = e)
    \<and> (\<forall>cs err. collect (Inr cs) (\<lambda>_. Inl err) remote e = e)
    \<and> dom (cpuPercent (collect (Inr cs) (\<lambda>_. Inr r) remote e)) = labels_of ` set (all_metrics (ex_hostID e) r remote)
    \<and> dom (containerInfo (collect (Inr cs) (\<lambda>_. Inr r) remote e)) = labels_of ` set (all_metrics (ex_hostID e) r remote)
    \<and> (\<forall>s \<in> set (all_metrics (ex_hostID e) r remote).
         cpuPercent (collect (Inr cs) (\<lambda>_. Inr r) remote e) (labels_of s) = Some (cm_CPUPercent s) \<and>
         memoryPercent (collect (Inr cs) (\<lambda>_. Inr r) remote e) (labels_of s) = Some (cm_MemoryPercent s) \<and>
         memoryUsage (collect (Inr cs) (\<lambda>_. Inr r) remote e) (labels_of s) = Some (f64_of_uint64 (cm_MemoryUsage s)) \<and>
         networkRx (collect (Inr cs) (\<lambda>_. Inr r) remote e) (labels_of s) = Some (f64_of_uint64 (cm_NetworkRx s)) \<and>
         networkTx (collect (Inr cs) (\<lambda>_. Inr r) remote e) (labels_of s) = Some (f64_of_uint64 (cm_NetworkTx s)) \<and>
         containerInfo (collect (Inr cs) (\<lambda>_. Inr r) remote e) (labels_of s) = Some (Fin 1))
    \<and> GetLastStats (collect (Inr cs) (\<lambda>_. Inr r) remote e) = map_of r"
proof -
  let ?ss = "all_metrics (ex_hostID e) r remote"
  have eq: "collect (Inr cs) (\<lambda>_. Inr r) remote e =
      (fold setGauges ?ss (resetGauges (e\<lparr>monitored := f64_of_int (int (length cs))\<rparr>)))\<lparr>lastStats := map_of r\<rparr>"
    by (rule collect_eq) simp_all
  note g = fold_setGauges [of ?ss "e\<lparr>monitored := f64_of_int (int (length cs))\<rparr>"]
  have d: "dom (\<lambda>l. map_option f (last_with l ?ss)) = labels_of ` set ?ss" for f :: "ContainerMetrics \<Rightarrow> float64"
    using last_with_dom by fastforce
  have "dom (cpuPercent (collect (Inr cs) (\<lambda>_. Inr r) remote e)) = labels_of ` set ?ss"
    "dom (containerInfo (collect (Inr cs) (\<lambda>_. Inr r) remote e)) = labels_of ` set ?ss"
    using d by (simp_all add: eq g dom_def)
  moreover have "GetLastStats (collect (Inr cs) (\<lambda>_. Inr r) remote e) = map_of r" by (simp add: eq GetLastStats_def)
  moreover have "\<forall>err getStats. collect (Inl err) getStats remote e = e" "\<forall>cs err. collect (Inr cs) (\<lambda>_. Inl err) remote e = e"
    by (simp_all add: collect_def)
  ultimately show ?thesis
    using last_with_unique [OF assms] by (simp add: eq g)
qed

theorem collection_shows_current_containers_witness:
  "dom (cpuPercent (collect (Inr []) (\<lambda>_. Inr []) (Some [ex_metric ''h1'' ''c1'']) (NewExporter ''leader'')))
   = {(''h1'', ''c1'', ''web'', ''nginx'')}"
proof -
  have d: "distinct (map labels_of (all_metrics (ex_hostID (NewExporter ''leader'')) [] (Some [ex_metric ''h1'' ''c1''])))"
    by (simp add: all_metrics_def)
  show ?thesis
    using collection_shows_current_containers [OF d, of "[]"] by (simp add: all_metrics_def labels_of_def ex_metric_def)
qed

end
