(* ===== verification/Alerts.thy ===== *)
theory Alerts
  imports Config "HOL-Library.AList"
begin

text \<open>
  \<^verbatim>\<open>internal/alerts/alerts.go\<close>: the alert engine. The first part is the engine as the code has it:
  two maps keyed by \<open>containerID:ruleName\<close> and the history of fired alerts. The second part is the
  machine the package comment promises for one condition (\<open>Pending -> Firing -> Resolved\<close>), and the
  proof that the engine implements one such machine per container and rule.
\<close>

section \<open>The engine\<close>

record Alert =
  a_RuleName :: string
  a_ContainerID :: string
  a_ContainerName :: string
  a_Metric :: string
  a_CurrentValue :: float64
  a_Threshold :: float64
  a_Severity :: string
  a_FiredAt :: time
  a_ActiveSince :: time

record Engine =
  rules :: "AlertRule list"
  conditionStart :: "string \<rightharpoonup> time"
  activeAlerts :: "string \<rightharpoonup> Alert"
  firedAlerts :: "Alert list"

definition NewEngine :: "AlertRule list \<Rightarrow> Engine" where
  "NewEngine rs = \<lparr>rules = rs, conditionStart = Map.empty, activeAlerts = Map.empty, firedAlerts = []\<rparr>"

definition alertKey :: "string \<Rightarrow> string \<Rightarrow> string" where
  "alertKey containerID ruleName = containerID @ '':'' @ ruleName"

definition getMetricValue :: "ContainerMetrics \<Rightarrow> string \<Rightarrow> float64" where
  "getMetricValue s metric =
     (if metric = ''cpu_percent'' then cm_CPUPercent s
      else if metric = ''memory_percent'' then cm_MemoryPercent s
      else if metric = ''memory_usage'' then f64_of_uint64 (cm_MemoryUsage s)
      else if metric = ''network_rx'' then f64_of_uint64 (cm_NetworkRx s)
      else if metric = ''network_tx'' then f64_of_uint64 (cm_NetworkTx s)
      else Fin 0)"

definition evaluateCondition :: "float64 \<Rightarrow> string \<Rightarrow> float64 \<Rightarrow> bool" where
  "evaluateCondition value operator threshold =
     (if operator = ''>'' then f_lt threshold value
      else if operator = ''>='' then f_le threshold value
      else if operator = ''<'' then f_lt value threshold
      else if operator = ''<='' then f_le value threshold
      else if operator = ''=='' then f_eq value threshold
      else False)"

text \<open>Deleting while ranging over the map: each key is kept or dropped on its own alert alone.\<close>

definition clearInactiveAlerts :: "stats_range \<Rightarrow> Engine \<Rightarrow> Engine" where
  "clearInactiveAlerts r e =
     (let valid = set (map (cm_ContainerID \<circ> snd) r);
          dropped = (\<lambda>k. case activeAlerts e k of Some a \<Rightarrow> a_ContainerID a \<notin> valid | None \<Rightarrow> False)
      in e\<lparr>activeAlerts := (\<lambda>k. if dropped k then None else activeAlerts e k),
           conditionStart := (\<lambda>k. if dropped k then None else conditionStart e k)\<rparr>)"

definition evaluateRule :: "Engine \<Rightarrow> ContainerMetrics \<Rightarrow> AlertRule \<Rightarrow> time \<Rightarrow> Engine \<times> Alert option" where
  "evaluateRule e s rule now =
     (let key = alertKey (cm_ContainerID s) (ar_Name rule);
          value = getMetricValue s (ar_Metric rule);
          conditionMet = evaluateCondition value (ar_Operator rule) (ar_Threshold rule)
      in if \<not> conditionMet then
           (e\<lparr>conditionStart := (conditionStart e)(key := None),
              activeAlerts := (activeAlerts e)(key := None)\<rparr>, None)
         else (case conditionStart e key of
             None \<Rightarrow> (e\<lparr>conditionStart := (conditionStart e)(key \<mapsto> now)\<rparr>, None)
           | Some startTime \<Rightarrow>
               if time_sub now startTime < ar_Duration rule then (e, None)
               else if activeAlerts e key \<noteq> None then (e, None)
               else
                 (let alert = \<lparr>a_RuleName = ar_Name rule, a_ContainerID = cm_ContainerID s,
                        a_ContainerName = cm_ContainerName s, a_Metric = ar_Metric rule,
                        a_CurrentValue = value, a_Threshold = ar_Threshold rule,
                        a_Severity = ar_Severity rule, a_FiredAt = now, a_ActiveSince = startTime\<rparr>;
                      fired = alert # firedAlerts e
                  in (e\<lparr>activeAlerts := (activeAlerts e)(key \<mapsto> alert),
                        firedAlerts := (if length fired > 50 then take 50 fired else fired)\<rparr>,
                      Some alert))))"

text \<open>The two nested loops of \<open>Evaluate\<close>; \<open>r\<close> is the order in which the range visits the stats.\<close>

fun evalRules ::
  "time \<Rightarrow> ContainerMetrics \<Rightarrow> AlertRule list \<Rightarrow> Engine \<times> Alert list \<Rightarrow> Engine \<times> Alert list" where
  "evalRules now s [] st = st"
| "evalRules now s (rule # rs) (e, newAlerts) =
     (case evaluateRule e s rule now of
        (e', Some alert) \<Rightarrow> evalRules now s rs (e', newAlerts @ [alert])
      | (e', None) \<Rightarrow> evalRules now s rs (e', newAlerts))"

fun evalStats ::
  "time \<Rightarrow> AlertRule list \<Rightarrow> stats_range \<Rightarrow> Engine \<times> Alert list \<Rightarrow> Engine \<times> Alert list" where
  "evalStats now rs [] st = st"
| "evalStats now rs ((k, s) # r) st = evalStats now rs r (evalRules now s rs st)"

definition Evaluate :: "Engine \<Rightarrow> time \<Rightarrow> stats_range \<Rightarrow> Engine \<times> Alert list" where
  "Evaluate e now r = evalStats now (rules e) r (clearInactiveAlerts r e, [])"

definition severityWeight :: "string \<Rightarrow> int" where
  "severityWeight severity =
     (if severity = ''critical'' then 3
      else if severity = ''warning'' then 2
      else if severity = ''info'' then 1
      else 0)"

definition groupKey :: "Alert \<Rightarrow> string" where
  "groupKey a = a_ContainerID a @ '':'' @ a_Metric a"

text \<open>
  \<open>GetActiveAlerts\<close>: \<open>r\<close> is the order of the range over the active alerts, \<open>perm\<close> the order in
  which the second range visits the map of best alerts.
\<close>

fun bestAlerts :: "(string \<times> Alert) list \<Rightarrow> (string \<times> Alert) list \<Rightarrow> (string \<times> Alert) list" where
  "bestAlerts [] best = best"
| "bestAlerts ((k, a) # r) best =
     (case map_of best (groupKey a) of
        None \<Rightarrow> bestAlerts r (AList.update (groupKey a) a best)
      | Some existing \<Rightarrow>
          if severityWeight (a_Severity a) > severityWeight (a_Severity existing)
          then bestAlerts r (AList.update (groupKey a) a best)
          else bestAlerts r best)"

definition GetActiveAlerts ::
  "((string \<times> Alert) list \<Rightarrow> (string \<times> Alert) list) \<Rightarrow> (string \<times> Alert) list \<Rightarrow> Alert list" where
  "GetActiveAlerts perm r = map snd (perm (bestAlerts r []))"

text \<open>\<open>GetPendingCount\<close>: \<open>r\<close> is the order of the range over \<open>conditionStart\<close>.\<close>

definition GetPendingCount :: "Engine \<Rightarrow> (string \<times> time) list \<Rightarrow> nat" where
  "GetPendingCount e r = length (filter (\<lambda>(k, t). activeAlerts e k = None) r)"

definition FormatAlert :: "Alert \<Rightarrow> string" where
  "FormatAlert a =
     ''['' @ a_Severity a @ ''] '' @ a_RuleName a @ '': '' @ a_Metric a @ '' '' @
     fmt_f1 (a_CurrentValue a) @ ''% > '' @ fmt_f1 (a_Threshold a) @ ''% (container: '' @
     a_ContainerName a @ '')''"

section \<open>The machine of one condition\<close>

datatype phase = Inactive | Pending time | Firing Alert

definition condition_met :: "AlertRule \<Rightarrow> ContainerMetrics \<Rightarrow> bool" where
  "condition_met rule s \<longleftrightarrow>
     evaluateCondition (getMetricValue s (ar_Metric rule)) (ar_Operator rule) (ar_Threshold rule)"

definition mk_alert :: "AlertRule \<Rightarrow> ContainerMetrics \<Rightarrow> time \<Rightarrow> time \<Rightarrow> Alert" where
  "mk_alert rule s now startTime =
     \<lparr>a_RuleName = ar_Name rule, a_ContainerID = cm_ContainerID s,
      a_ContainerName = cm_ContainerName s, a_Metric = ar_Metric rule,
      a_CurrentValue = getMetricValue s (ar_Metric rule), a_Threshold = ar_Threshold rule,
      a_Severity = ar_Severity rule, a_FiredAt = now, a_ActiveSince = startTime\<rparr>"

text \<open>
  One evaluation of one rule for one container: \<open>None\<close> is a container that is not reported,
  \<open>Some s\<close> one reported with metrics \<open>s\<close>.
\<close>

fun phase_step :: "AlertRule \<Rightarrow> time \<Rightarrow> ContainerMetrics option \<Rightarrow> phase \<Rightarrow> phase" where
  "phase_step rule now None (Firing a) = Inactive"
| "phase_step rule now None p = p"
| "phase_step rule now (Some s) p =
     (if \<not> condition_met rule s then Inactive
      else case p of
          Inactive \<Rightarrow> Pending now
        | Pending t \<Rightarrow> if time_sub now t < ar_Duration rule then Pending t else Firing (mk_alert rule s now t)
        | Firing a \<Rightarrow> Firing a)"

text \<open>The alert a step reports: the one of a step from \<open>Pending\<close> to \<open>Firing\<close>.\<close>

fun phase_emit :: "AlertRule \<Rightarrow> time \<Rightarrow> ContainerMetrics \<Rightarrow> phase \<Rightarrow> Alert option" where
  "phase_emit rule now s (Pending t) =
     (if condition_met rule s \<and> \<not> time_sub now t < ar_Duration rule
      then Some (mk_alert rule s now t) else None)"
| "phase_emit rule now s p = None"

definition phase_of :: "Engine \<Rightarrow> string \<Rightarrow> phase" where
  "phase_of e k =
     (case conditionStart e k of
        None \<Rightarrow> Inactive
      | Some t \<Rightarrow> (case activeAlerts e k of None \<Rightarrow> Pending t | Some a \<Rightarrow> Firing a))"

section \<open>Well-formedness\<close>

definition alert_ok :: "string \<Rightarrow> Alert \<Rightarrow> bool" where
  "alert_ok k a \<longleftrightarrow> k = alertKey (a_ContainerID a) (a_RuleName a) \<and> CHR '':'' \<notin> set (a_ContainerID a)"

definition engine_inv :: "Engine \<Rightarrow> bool" where
  "engine_inv e \<longleftrightarrow>
     (\<forall>k a. activeAlerts e k = Some a \<longrightarrow> alert_ok k a \<and> conditionStart e k = Some (a_ActiveSince a))
     \<and> length (firedAlerts e) \<le> 50"

text \<open>
  What an evaluation is given: stats keyed by container ID, IDs without a colon (Docker's are
  hexadecimal), and rules with different names.
\<close>

definition stats_ok :: "stats_range \<Rightarrow> bool" where
  "stats_ok r \<longleftrightarrow> distinct (map fst r) \<and> list_all (\<lambda>(k, s). cm_ContainerID s = k \<and> CHR '':'' \<notin> set k) r"

definition rules_ok :: "AlertRule list \<Rightarrow> bool" where
  "rules_ok rs \<longleftrightarrow> distinct (map ar_Name rs)"

lemma stats_ok_range:
  "stats_keyed st \<Longrightarrow> is_range st r \<Longrightarrow> \<forall>k \<in> dom st. CHR '':'' \<notin> set k \<Longrightarrow> stats_ok r"
  by (auto simp: stats_ok_def list_all_iff is_range_distinct stats_keyed_def range_simps)

lemma stats_ok_mem: "stats_ok r \<Longrightarrow> (k, s) \<in> set r \<Longrightarrow> cm_ContainerID s = k \<and> CHR '':'' \<notin> set k"
  by (auto simp: stats_ok_def list_all_iff)

lemma alertKey_inject:
  assumes "CHR '':'' \<notin> set c" "CHR '':'' \<notin> set d"
  shows "alertKey c n = alertKey d m \<longleftrightarrow> c = d \<and> n = m"
proof
  assume "alertKey c n = alertKey d m"
  then have "split_first (CHR '':'') (c @ CHR '':'' # n) = split_first (CHR '':'') (d @ CHR '':'' # m)"
    by (simp add: alertKey_def)
  then show "c = d \<and> n = m" using assms by simp
qed simp

lemma engine_inv_new: "engine_inv (NewEngine rs)"
  by (simp add: engine_inv_def NewEngine_def)

lemma engine_inv_phase: "engine_inv e \<Longrightarrow> phase_of e k = Firing a \<Longrightarrow>
    activeAlerts e k = Some a \<and> alert_ok k a \<and> conditionStart e k = Some (a_ActiveSince a)"
  by (auto simp: engine_inv_def phase_of_def split: option.splits)

lemma engine_inv_active: "engine_inv e \<Longrightarrow> activeAlerts e k = Some a \<Longrightarrow> phase_of e k = Firing a"
  by (simp add: engine_inv_def phase_of_def)

lemma phase_of_new [simp]: "phase_of (NewEngine rs) k = Inactive"
  by (simp add: phase_of_def NewEngine_def)

section \<open>One rule, one container\<close>

abbreviation pair_key :: "ContainerMetrics \<times> AlertRule \<Rightarrow> string" where
  "pair_key p \<equiv> alertKey (cm_ContainerID (fst p)) (ar_Name (snd p))"

lemma evaluateRule_alt:
  "evaluateRule e s rule now =
     (let key = pair_key (s, rule)
      in if \<not> condition_met rule s then
           (e\<lparr>conditionStart := (conditionStart e)(key := None),
              activeAlerts := (activeAlerts e)(key := None)\<rparr>, None)
         else (case conditionStart e key of
             None \<Rightarrow> (e\<lparr>conditionStart := (conditionStart e)(key \<mapsto> now)\<rparr>, None)
           | Some t \<Rightarrow>
               if time_sub now t < ar_Duration rule \<or> activeAlerts e key \<noteq> None then (e, None)
               else (e\<lparr>activeAlerts := (activeAlerts e)(key \<mapsto> mk_alert rule s now t),
                        firedAlerts := take 50 (mk_alert rule s now t # firedAlerts e)\<rparr>,
                     Some (mk_alert rule s now t))))"
  by (simp add: evaluateRule_def condition_met_def mk_alert_def Let_def split: option.split)

lemma mk_alert_ok [simp]:
  "alert_ok (alertKey (cm_ContainerID s) (ar_Name rule)) (mk_alert rule s now t) \<longleftrightarrow>
   CHR '':'' \<notin> set (cm_ContainerID s)"
  by (simp add: alert_ok_def mk_alert_def)

lemma mk_alert_simps [simp]:
  "a_ActiveSince (mk_alert rule s now t) = t"
  "a_FiredAt (mk_alert rule s now t) = now"
  "a_RuleName (mk_alert rule s now t) = ar_Name rule"
  "a_ContainerID (mk_alert rule s now t) = cm_ContainerID s"
  "a_Severity (mk_alert rule s now t) = ar_Severity rule"
  "a_Metric (mk_alert rule s now t) = ar_Metric rule"
  by (simp_all add: mk_alert_def)

lemma evaluateRule_rules: "rules (fst (evaluateRule e s rule now)) = rules e"
  by (simp add: evaluateRule_alt Let_def split: option.split)

lemma evaluateRule_inv:
  "engine_inv e \<Longrightarrow> CHR '':'' \<notin> set (cm_ContainerID s) \<Longrightarrow> engine_inv (fst (evaluateRule e s rule now))"
  by (auto simp: evaluateRule_alt Let_def engine_inv_def split: option.splits if_splits)

lemma evaluateRule_frame:
  "k \<noteq> pair_key (s, rule) \<Longrightarrow> phase_of (fst (evaluateRule e s rule now)) k = phase_of e k"
  by (auto simp: evaluateRule_alt Let_def phase_of_def split: option.splits)

lemma evaluateRule_phase:
  "engine_inv e \<Longrightarrow>
   phase_of (fst (evaluateRule e s rule now)) (pair_key (s, rule)) =
   phase_step rule now (Some s) (phase_of e (pair_key (s, rule)))"
  by (auto simp: evaluateRule_alt Let_def phase_of_def engine_inv_def split: option.splits)

lemma evaluateRule_emit:
  "engine_inv e \<Longrightarrow>
   snd (evaluateRule e s rule now) = phase_emit rule now s (phase_of e (pair_key (s, rule)))"
  by (auto simp: evaluateRule_alt Let_def phase_of_def engine_inv_def split: option.splits)

lemma evaluateRule_history:
  "firedAlerts (fst (evaluateRule e s rule now)) =
   (case snd (evaluateRule e s rule now) of
      None \<Rightarrow> firedAlerts e | Some a \<Rightarrow> take 50 (a # firedAlerts e))"
  by (simp add: evaluateRule_alt Let_def split: option.split)

section \<open>One evaluation\<close>

text \<open>The nested loops visit the pairs of a container and a rule in this order.\<close>

fun eval_pairs :: "AlertRule list \<Rightarrow> stats_range \<Rightarrow> (ContainerMetrics \<times> AlertRule) list" where
  "eval_pairs rs [] = []"
| "eval_pairs rs ((k, s) # r) = map (Pair s) rs @ eval_pairs rs r"

definition eval_pair ::
  "time \<Rightarrow> ContainerMetrics \<times> AlertRule \<Rightarrow> Engine \<times> Alert list \<Rightarrow> Engine \<times> Alert list" where
  "eval_pair now p st =
     (let (e', new) = evaluateRule (fst st) (fst p) (snd p) now
      in (e', snd st @ (case new of None \<Rightarrow> [] | Some a \<Rightarrow> [a])))"

lemma evalRules_fold: "evalRules now s rs st = fold (eval_pair now) (map (Pair s) rs) st"
proof (induction rs arbitrary: st)
  case Nil
  then show ?case by simp
next
  case (Cons rule rs)
  then show ?case
    by (cases st) (simp add: eval_pair_def split: prod.split option.split)
qed

lemma evalStats_fold: "evalStats now rs r st = fold (eval_pair now) (eval_pairs rs r) st"
  by (induction rs r arbitrary: st rule: eval_pairs.induct) (simp_all add: evalRules_fold)

lemma eval_pairs_set: "set (eval_pairs rs r) = {(s, rule). s \<in> snd ` set r \<and> rule \<in> set rs}"
  by (induction rs r rule: eval_pairs.induct) auto

lemma eval_pairs_distinct:
  assumes "stats_ok r" "rules_ok rs"
  shows "distinct (map pair_key (eval_pairs rs r))"
  using assms
proof (induction r)
  case Nil
  then show ?case by simp
next
  case (Cons x r)
  obtain k s where x: "x = (k, s)" by (cases x)
  have ok: "stats_ok r" using Cons.prems by (simp add: stats_ok_def x)
  have k: "cm_ContainerID s = k" "CHR '':'' \<notin> set k" using Cons.prems by (auto simp: stats_ok_def x)
  have "distinct (map pair_key (map (Pair s) rs))"
    using Cons.prems(2) k by (simp add: distinct_map inj_on_def rules_ok_def alertKey_inject comp_def)
  moreover have "pair_key ` set (map (Pair s) rs) \<inter> pair_key ` set (eval_pairs rs r) = {}"
  proof -
    have "alertKey k n \<noteq> alertKey (cm_ContainerID s') m" if "(k', s') \<in> set r" for k' s' n m
    proof -
      have "cm_ContainerID s' = k'" "CHR '':'' \<notin> set k'"
        using ok that by (auto simp: stats_ok_def list_all_iff)
      moreover have "k \<noteq> k'" using Cons.prems(1) that by (force simp: stats_ok_def x)
      ultimately show ?thesis using k by (simp add: alertKey_inject)
    qed
    then show ?thesis using k by (fastforce simp: eval_pairs_set)
  qed
  ultimately show ?case using Cons.IH [OF ok Cons.prems(2)] by (simp add: x image_image)
qed

lemma eval_pair_fst: "fst (eval_pair now p st) = fst (evaluateRule (fst st) (fst p) (snd p) now)"
  by (simp add: eval_pair_def split: prod.split)

lemma eval_pair_snd:
  "snd (eval_pair now p st) =
   snd st @ (case snd (evaluateRule (fst st) (fst p) (snd p) now) of None \<Rightarrow> [] | Some a \<Rightarrow> [a])"
  by (simp add: eval_pair_def split: prod.split)

lemma eval_pair_inv:
  "engine_inv (fst st) \<Longrightarrow> CHR '':'' \<notin> set (cm_ContainerID (fst p)) \<Longrightarrow> engine_inv (fst (eval_pair now p st))"
  by (simp add: eval_pair_fst evaluateRule_inv)

definition pairs_ok :: "(ContainerMetrics \<times> AlertRule) list \<Rightarrow> bool" where
  "pairs_ok ps \<longleftrightarrow>
     distinct (map pair_key ps) \<and> (\<forall>p \<in> set ps. CHR '':'' \<notin> set (cm_ContainerID (fst p)))"

lemma pairs_ok_Cons:
  "pairs_ok (p # ps) \<Longrightarrow>
   pairs_ok ps \<and> CHR '':'' \<notin> set (cm_ContainerID (fst p)) \<and> (\<forall>q \<in> set ps. pair_key q \<noteq> pair_key p)"
  using distinct_map_Cons_neq [of pair_key p ps] by (auto simp: pairs_ok_def)

lemma eval_pairs_ok: "stats_ok r \<Longrightarrow> rules_ok rs \<Longrightarrow> pairs_ok (eval_pairs rs r)"
  using eval_pairs_distinct stats_ok_mem by (fastforce simp: pairs_ok_def eval_pairs_set)

lemma fold_eval_inv:
  "engine_inv (fst st) \<Longrightarrow> pairs_ok ps \<Longrightarrow> engine_inv (fst (fold (eval_pair now) ps st))"
proof (induction ps arbitrary: st)
  case (Cons p ps)
  then show ?case using pairs_ok_Cons [OF Cons.prems(2)] by (simp add: eval_pair_inv)
qed simp

lemma fold_eval_rules: "rules (fst (fold (eval_pair now) ps st)) = rules (fst st)"
  by (induction ps arbitrary: st) (auto simp: eval_pair_fst evaluateRule_rules)

lemma fold_eval_frame:
  "k \<notin> pair_key ` set ps \<Longrightarrow> phase_of (fst (fold (eval_pair now) ps st)) k = phase_of (fst st) k"
proof (induction ps arbitrary: st)
  case Nil
  then show ?case by simp
next
  case (Cons p ps)
  then show ?case by (cases p) (auto simp: eval_pair_fst evaluateRule_frame)
qed

lemma fold_eval_phase:
  assumes "engine_inv (fst st)" "pairs_ok ps" "(s, rule) \<in> set ps"
  shows "phase_of (fst (fold (eval_pair now) ps st)) (pair_key (s, rule)) =
         phase_step rule now (Some s) (phase_of (fst st) (pair_key (s, rule)))"
  using assms
proof (induction ps arbitrary: st)
  case Nil
  then show ?case by simp
next
  case (Cons p ps)
  let ?k = "pair_key (s, rule)" and ?st = "eval_pair now p st"
  note ok = pairs_ok_Cons [OF Cons.prems(2)]
  show ?case
  proof (cases "p = (s, rule)")
    case True
    then have "?k \<notin> pair_key ` set ps" using ok by (force simp: image_iff)
    then have "phase_of (fst (fold (eval_pair now) ps ?st)) ?k = phase_of (fst ?st) ?k"
      by (rule fold_eval_frame)
    moreover have "phase_of (fst ?st) ?k = phase_step rule now (Some s) (phase_of (fst st) ?k)"
      using True evaluateRule_phase [OF Cons.prems(1), of s rule now] by (simp add: eval_pair_fst)
    ultimately show ?thesis by simp
  next
    case False
    then have mem: "(s, rule) \<in> set ps" using Cons.prems(3) by auto
    then have ne: "?k \<noteq> pair_key p" using ok by blast
    have "phase_of (fst (fold (eval_pair now) ps ?st)) ?k = phase_step rule now (Some s) (phase_of (fst ?st) ?k)"
      using Cons.prems(1) ok mem by (intro Cons.IH) (auto simp: eval_pair_inv)
    moreover have "phase_of (fst ?st) ?k = phase_of (fst st) ?k"
      using ne by (cases p) (simp add: eval_pair_fst evaluateRule_frame)
    ultimately show ?thesis by simp
  qed
qed

lemma fold_eval_emit:
  assumes "engine_inv (fst st)" "pairs_ok ps"
  shows "snd (fold (eval_pair now) ps st) =
         snd st @ List.map_filter (\<lambda>p. phase_emit (snd p) now (fst p) (phase_of (fst st) (pair_key p))) ps"
  using assms
proof (induction ps arbitrary: st)
  case Nil
  then show ?case by (simp add: map_filter_simps)
next
  case (Cons p ps)
  let ?st = "eval_pair now p st"
  note ok = pairs_ok_Cons [OF Cons.prems(2)]
  have frame: "phase_of (fst ?st) (pair_key q) = phase_of (fst st) (pair_key q)" if "q \<in> set ps" for q
    using ok that by (simp add: eval_pair_fst evaluateRule_frame)
  have "snd (fold (eval_pair now) ps ?st) =
        snd ?st @ List.map_filter (\<lambda>q. phase_emit (snd q) now (fst q) (phase_of (fst ?st) (pair_key q))) ps"
    using Cons.prems(1) ok by (intro Cons.IH) (auto simp: eval_pair_inv)
  also have "List.map_filter (\<lambda>q. phase_emit (snd q) now (fst q) (phase_of (fst ?st) (pair_key q))) ps =
        List.map_filter (\<lambda>q. phase_emit (snd q) now (fst q) (phase_of (fst st) (pair_key q))) ps"
    using frame by (intro map_filter_cong_set) simp
  finally show ?case
    using Cons.prems(1) evaluateRule_emit [of "fst st" "fst p" "snd p" now]
    by (simp add: eval_pair_snd map_filter_simps split: option.split)
qed

lemma fold_eval_history:
  "length (firedAlerts (fst st)) \<le> 50 \<Longrightarrow>
   \<exists>new. snd (fold (eval_pair now) ps st) = snd st @ new \<and>
         firedAlerts (fst (fold (eval_pair now) ps st)) = take 50 (rev new @ firedAlerts (fst st))"
proof (induction ps arbitrary: st)
  case Nil
  then show ?case by simp
next
  case (Cons p ps)
  let ?st = "eval_pair now p st"
  have h: "firedAlerts (fst ?st) = (case snd (evaluateRule (fst st) (fst p) (snd p) now) of
      None \<Rightarrow> firedAlerts (fst st) | Some a \<Rightarrow> take 50 (a # firedAlerts (fst st)))"
    by (simp add: eval_pair_fst evaluateRule_history)
  then have "length (firedAlerts (fst ?st)) \<le> 50" using Cons.prems by (auto split: option.splits)
  then obtain new where new: "snd (fold (eval_pair now) ps ?st) = snd ?st @ new"
      "firedAlerts (fst (fold (eval_pair now) ps ?st)) = take 50 (rev new @ firedAlerts (fst ?st))"
    using Cons.IH by blast
  then show ?case using h
    by (cases "snd (evaluateRule (fst st) (fst p) (snd p) now)") (auto simp: eval_pair_snd take_Cons' min_def)
qed

lemma clearInactiveAlerts_phase:
  "engine_inv e \<Longrightarrow>
   phase_of (clearInactiveAlerts r e) k =
   (case phase_of e k of
      Firing a \<Rightarrow> if a_ContainerID a \<in> (cm_ContainerID \<circ> snd) ` set r then Firing a else Inactive
    | p \<Rightarrow> p)"
  by (auto simp: clearInactiveAlerts_def Let_def phase_of_def engine_inv_def split: option.splits)

lemma clearInactiveAlerts_inv: "engine_inv e \<Longrightarrow> engine_inv (clearInactiveAlerts r e)"
  by (auto simp: clearInactiveAlerts_def Let_def engine_inv_def split: option.splits if_splits)

lemma clearInactiveAlerts_fields [simp]:
  "rules (clearInactiveAlerts r e) = rules e"
  "firedAlerts (clearInactiveAlerts r e) = firedAlerts e"
  by (simp_all add: clearInactiveAlerts_def Let_def)

lemma Evaluate_fold:
  "Evaluate e now r = fold (eval_pair now) (eval_pairs (rules e) r) (clearInactiveAlerts r e, [])"
  by (simp add: Evaluate_def evalStats_fold)

lemma Evaluate_inv:
  "engine_inv e \<Longrightarrow> stats_ok r \<Longrightarrow> rules_ok (rules e) \<Longrightarrow> engine_inv (fst (Evaluate e now r))"
  by (simp add: Evaluate_fold fold_eval_inv clearInactiveAlerts_inv eval_pairs_ok)

lemma Evaluate_rules [simp]: "rules (fst (Evaluate e now r)) = rules e"
  by (simp add: Evaluate_fold fold_eval_rules)

text \<open>What an evaluation sees of a container.\<close>

definition observed :: "stats_range \<Rightarrow> string \<Rightarrow> ContainerMetrics option" where
  "observed r cid = map_of r cid"

lemma observed_Some:
  assumes "stats_ok r"
  shows "observed r cid = Some s \<longleftrightarrow> s \<in> snd ` set r \<and> cm_ContainerID s = cid"
proof -
  have "observed r cid = Some s \<longleftrightarrow> (cid, s) \<in> set r"
    using assms by (simp add: observed_def stats_ok_def)
  then show ?thesis using stats_ok_mem [OF assms] by force
qed

lemma observed_None:
  assumes "stats_ok r"
  shows "observed r cid = None \<longleftrightarrow> cid \<notin> (cm_ContainerID \<circ> snd) ` set r"
proof -
  have "cid \<in> (cm_ContainerID \<circ> snd) ` set r \<longleftrightarrow> (\<exists>s. observed r cid = Some s)"
    by (auto simp: observed_Some [OF assms])
  then show ?thesis by (cases "observed r cid") auto
qed

text \<open>The phase of a condition after the clean-up of vanished containers.\<close>

lemma clear_phase:
  assumes inv: "engine_inv e" and ok: "stats_ok r" and cid: "CHR '':'' \<notin> set cid"
  shows "phase_of (clearInactiveAlerts r e) (alertKey cid n) =
         (if observed r cid = None then phase_step rule now None (phase_of e (alertKey cid n))
          else phase_of e (alertKey cid n))"
proof (cases "phase_of e (alertKey cid n)")
  case (Firing a)
  then have "alert_ok (alertKey cid n) a" using engine_inv_phase [OF inv] by blast
  then have "a_ContainerID a = cid" using cid by (auto simp: alert_ok_def alertKey_inject)
  then show ?thesis using Firing observed_None [OF ok] by (auto simp: clearInactiveAlerts_phase [OF inv])
qed (simp_all add: clearInactiveAlerts_phase [OF inv])

text \<open>The engine implements one machine per container and rule.\<close>

lemma Evaluate_phase:
  assumes inv: "engine_inv e" and ok: "stats_ok r" "rules_ok (rules e)"
    and rule: "rule \<in> set (rules e)" and cid: "CHR '':'' \<notin> set cid"
  shows "phase_of (fst (Evaluate e now r)) (alertKey cid (ar_Name rule)) =
         phase_step rule now (observed r cid) (phase_of e (alertKey cid (ar_Name rule)))"
proof (cases "observed r cid")
  case (Some s)
  let ?k = "alertKey cid (ar_Name rule)"
  from Some ok have s: "s \<in> snd ` set r" "cm_ContainerID s = cid" by (auto simp: observed_Some)
  then have k: "?k = pair_key (s, rule)" by simp
  have mem: "(s, rule) \<in> set (eval_pairs (rules e) r)" using s rule by (simp add: eval_pairs_set)
  have "phase_of (fst (Evaluate e now r)) ?k =
      phase_step rule now (Some s) (phase_of (clearInactiveAlerts r e) ?k)"
    using fold_eval_phase [of "(clearInactiveAlerts r e, [])", OF _ eval_pairs_ok [OF ok] mem]
    by (simp add: Evaluate_fold k clearInactiveAlerts_inv [OF inv])
  then show ?thesis using Some clear_phase [OF inv ok(1) cid] by simp
next
  case None
  let ?k = "alertKey cid (ar_Name rule)"
  have "?k \<notin> pair_key ` set (eval_pairs (rules e) r)"
  proof
    assume "?k \<in> pair_key ` set (eval_pairs (rules e) r)"
    then obtain k s m where s: "(k, s) \<in> set r" "?k = alertKey (cm_ContainerID s) m"
      by (auto simp: eval_pairs_set)
    then have "cm_ContainerID s = cid"
      using stats_ok_mem [OF ok(1) s(1)] cid by (simp add: alertKey_inject)
    then show False using None observed_None [OF ok(1), of cid] s(1) by force
  qed
  then have "phase_of (fst (Evaluate e now r)) ?k = phase_of (clearInactiveAlerts r e) ?k"
    using fold_eval_frame [of ?k _ now "(clearInactiveAlerts r e, [])"] by (simp add: Evaluate_fold)
  then show ?thesis using None clear_phase [OF inv ok(1) cid, of _ rule now] by simp
qed

text \<open>The alerts an evaluation reports: those of the machines that start firing, in visiting order.\<close>

lemma Evaluate_emit:
  assumes inv: "engine_inv e" and ok: "stats_ok r" "rules_ok (rules e)"
  shows "snd (Evaluate e now r) =
         List.map_filter (\<lambda>p. phase_emit (snd p) now (fst p) (phase_of e (pair_key p))) (eval_pairs (rules e) r)"
proof -
  have same: "phase_of (clearInactiveAlerts r e) (pair_key p) = phase_of e (pair_key p)"
    if "p \<in> set (eval_pairs (rules e) r)" for p
  proof -
    have s: "fst p \<in> snd ` set r" using that by (force simp: eval_pairs_set)
    then have "observed r (cm_ContainerID (fst p)) = Some (fst p)" by (simp add: observed_Some [OF ok(1)])
    moreover have "CHR '':'' \<notin> set (cm_ContainerID (fst p))" using s stats_ok_mem [OF ok(1)] by auto
    ultimately show ?thesis
      using clear_phase [OF inv ok(1), of "cm_ContainerID (fst p)" "ar_Name (snd p)"] by simp
  qed
  have "snd (Evaluate e now r) = List.map_filter (\<lambda>p. phase_emit (snd p) now (fst p)
      (phase_of (clearInactiveAlerts r e) (pair_key p))) (eval_pairs (rules e) r)"
    unfolding Evaluate_fold
    using fold_eval_emit [of "(clearInactiveAlerts r e, [])"] clearInactiveAlerts_inv [OF inv] eval_pairs_ok [OF ok]
    by simp
  also have "\<dots> = List.map_filter (\<lambda>p. phase_emit (snd p) now (fst p) (phase_of e (pair_key p))) (eval_pairs (rules e) r)"
    using same by (intro map_filter_cong_set) simp
  finally show ?thesis .
qed

section \<open>Runs\<close>

text \<open>A history is the list of evaluations the engine went through, oldest first.\<close>

type_synonym history = "(time \<times> stats_range) list"

fun engine_run :: "Engine \<Rightarrow> history \<Rightarrow> Engine \<times> Alert list list" where
  "engine_run e [] = (e, [])"
| "engine_run e ((now, r) # h) =
     (let (e', new) = Evaluate e now r; (e'', news) = engine_run e' h in (e'', new # news))"

definition engine_after :: "AlertRule list \<Rightarrow> history \<Rightarrow> Engine" where
  "engine_after rs h = fst (engine_run (NewEngine rs) h)"

definition history_ok :: "history \<Rightarrow> bool" where
  "history_ok h \<longleftrightarrow> list_all (\<lambda>(t, r). stats_ok r) h"

lemma engine_run_snoc: "fst (engine_run e (h @ [(now, r)])) = fst (Evaluate (fst (engine_run e h)) now r)"
  by (induction e h rule: engine_run.induct) (auto simp: Let_def split: prod.splits)

lemma engine_after_Nil [simp]: "engine_after rs [] = NewEngine rs"
  by (simp add: engine_after_def)

lemma engine_after_snoc: "engine_after rs (h @ [(now, r)]) = fst (Evaluate (engine_after rs h) now r)"
  by (simp add: engine_after_def engine_run_snoc)

lemma history_ok_simps [simp]:
  "history_ok []" "history_ok ((t, r) # h) \<longleftrightarrow> stats_ok r \<and> history_ok h"
  "history_ok (h @ g) \<longleftrightarrow> history_ok h \<and> history_ok g"
  by (simp_all add: history_ok_def)

lemma engine_after_inv:
  "rules_ok rs \<Longrightarrow> history_ok h \<Longrightarrow> engine_inv (engine_after rs h) \<and> rules (engine_after rs h) = rs"
proof (induction h rule: rev_induct)
  case Nil
  then show ?case by (simp add: engine_inv_new) (simp add: NewEngine_def)
next
  case (snoc x h)
  then show ?case by (cases x) (simp add: engine_after_snoc Evaluate_inv)
qed

text \<open>
  The condition of a rule has been observed since time \<open>t\<close>: some evaluation at \<open>t\<close> saw it, and
  every evaluation from then on that saw the container saw it again.
\<close>

definition held_since :: "history \<Rightarrow> AlertRule \<Rightarrow> string \<Rightarrow> time \<Rightarrow> bool" where
  "held_since h rule cid t \<longleftrightarrow>
     (\<exists>i < length h. fst (h ! i) = t \<and> observed (snd (h ! i)) cid \<noteq> None \<and>
        (\<forall>j. i \<le> j \<and> j < length h \<longrightarrow>
           (\<forall>s. observed (snd (h ! j)) cid = Some s \<longrightarrow> condition_met rule s)))"

lemma held_since_snoc:
  assumes "held_since h rule cid t"
    and "\<And>s. observed r cid = Some s \<Longrightarrow> condition_met rule s"
  shows "held_since (h @ [(now, r)]) rule cid t"
proof -
  obtain i where i: "i < length h" "fst (h ! i) = t" "observed (snd (h ! i)) cid \<noteq> None"
      "\<And>j s. i \<le> j \<Longrightarrow> j < length h \<Longrightarrow> observed (snd (h ! j)) cid = Some s \<Longrightarrow> condition_met rule s"
    using assms(1) unfolding held_since_def by blast
  have "condition_met rule s" if "i \<le> j" "j < length (h @ [(now, r)])"
      "observed (snd ((h @ [(now, r)]) ! j)) cid = Some s" for j s
    using that i(4) assms(2) by (cases "j < length h") (auto simp: nth_append split: if_splits)
  moreover have "i < length (h @ [(now, r)])" "fst ((h @ [(now, r)]) ! i) = t"
      "observed (snd ((h @ [(now, r)]) ! i)) cid \<noteq> None"
    using i(1-3) by (simp_all add: nth_append)
  ultimately show ?thesis unfolding held_since_def by blast
qed

lemma held_since_now:
  "observed r cid = Some s \<Longrightarrow> condition_met rule s \<Longrightarrow> held_since (h @ [(now, r)]) rule cid now"
  unfolding held_since_def by (intro exI [of _ "length h"]) (auto simp: nth_append)

definition phase_since :: "phase \<Rightarrow> time option" where
  "phase_since p = (case p of Inactive \<Rightarrow> None | Pending t \<Rightarrow> Some t | Firing a \<Rightarrow> Some (a_ActiveSince a))"

lemma phase_step_since:
  assumes "phase_since (phase_step rule now obs p) = Some t"
  shows "(phase_since p = Some t \<and> (\<forall>s. obs = Some s \<longrightarrow> condition_met rule s)) \<or>
         (t = now \<and> (\<exists>s. obs = Some s \<and> condition_met rule s))"
  using assms by (cases p; cases obs) (auto simp: phase_since_def split: if_splits)

lemma engine_after_held:
  assumes "rules_ok rs" "history_ok h" "rule \<in> set rs" "CHR '':'' \<notin> set cid"
    and "phase_since (phase_of (engine_after rs h) (alertKey cid (ar_Name rule))) = Some t"
  shows "held_since h rule cid t"
  using assms(2,5)
proof (induction h arbitrary: t rule: rev_induct)
  case Nil
  then show ?case by (simp add: phase_since_def)
next
  case (snoc x h)
  obtain now r where x: "x = (now, r)" by (cases x)
  have ok: "history_ok h" "stats_ok r" using snoc.prems by (simp_all add: x)
  let ?p = "phase_of (engine_after rs h) (alertKey cid (ar_Name rule))"
  have "phase_of (engine_after rs (h @ [x])) (alertKey cid (ar_Name rule)) =
        phase_step rule now (observed r cid) ?p"
    unfolding x engine_after_snoc
    using engine_after_inv [OF assms(1) ok(1)] assms ok by (intro Evaluate_phase) simp_all
  then have "phase_since (phase_step rule now (observed r cid) ?p) = Some t" using snoc.prems by simp
  from phase_step_since [OF this] show ?case
    using snoc.IH [OF ok(1)] held_since_snoc held_since_now unfolding x by blast
qed

lemma Evaluate_emit_mem:
  assumes "engine_inv e" "stats_ok r" "rules_ok (rules e)" "a \<in> set (snd (Evaluate e now r))"
  obtains rule s t where "rule \<in> set (rules e)" "observed r (a_ContainerID a) = Some s"
    "phase_of e (alertKey (a_ContainerID a) (ar_Name rule)) = Pending t"
    "condition_met rule s" "ar_Duration rule \<le> time_sub now t" "a = mk_alert rule s now t"
proof -
  obtain s rule where p: "(s, rule) \<in> set (eval_pairs (rules e) r)"
    and em: "phase_emit rule now s (phase_of e (pair_key (s, rule))) = Some a"
    using assms(4) unfolding Evaluate_emit [OF assms(1-3)] set_map_filter by force
  from p have rs: "rule \<in> set (rules e)" and s: "s \<in> snd ` set r" by (auto simp: eval_pairs_set)
  from em obtain t where t: "phase_of e (pair_key (s, rule)) = Pending t" "condition_met rule s"
      "\<not> time_sub now t < ar_Duration rule" "a = mk_alert rule s now t"
    by (cases "phase_of e (pair_key (s, rule))") (auto split: if_splits)
  moreover have "observed r (a_ContainerID a) = Some s"
    using s t(4) by (simp add: observed_Some [OF assms(2)])
  ultimately show ?thesis using rs that by simp
qed

lemma firing_stays:
  assumes "rules_ok rs" "history_ok (h @ g)" "rule \<in> set rs" "CHR '':'' \<notin> set cid"
    and "phase_of (engine_after rs h) (alertKey cid (ar_Name rule)) = Firing a"
    and "\<forall>(t, r) \<in> set g. \<exists>s. observed r cid = Some s \<and> condition_met rule s"
  shows "phase_of (engine_after rs (h @ g)) (alertKey cid (ar_Name rule)) = Firing a"
  using assms(2,6)
proof (induction g rule: rev_induct)
  case Nil
  then show ?case using assms(5) by simp
next
  case (snoc x g)
  obtain now r where x: "x = (now, r)" by (cases x)
  have ok: "history_ok (h @ g)" "stats_ok r" using snoc.prems by (simp_all add: x)
  obtain s where "observed r cid = Some s" "condition_met rule s" using snoc.prems(2) by (auto simp: x)
  moreover have "phase_of (engine_after rs ((h @ g) @ [x])) (alertKey cid (ar_Name rule)) =
      phase_step rule now (observed r cid) (phase_of (engine_after rs (h @ g)) (alertKey cid (ar_Name rule)))"
    unfolding x engine_after_snoc
    using engine_after_inv [OF assms(1) ok(1)] assms ok by (intro Evaluate_phase) simp_all
  ultimately show ?case using snoc by simp
qed

lemma pending_survives_absence:
  assumes "rules_ok rs" "history_ok (h @ g)" "rule \<in> set rs" "CHR '':'' \<notin> set cid"
    and "phase_of (engine_after rs h) (alertKey cid (ar_Name rule)) = Pending t"
    and "\<forall>(now, r) \<in> set g. observed r cid = None"
  shows "phase_of (engine_after rs (h @ g)) (alertKey cid (ar_Name rule)) = Pending t"
  using assms(2,6)
proof (induction g rule: rev_induct)
  case Nil
  then show ?case using assms(5) by simp
next
  case (snoc x g)
  obtain now r where x: "x = (now, r)" by (cases x)
  have ok: "history_ok (h @ g)" "stats_ok r" using snoc.prems by (simp_all add: x)
  have "phase_of (engine_after rs ((h @ g) @ [x])) (alertKey cid (ar_Name rule)) =
      phase_step rule now (observed r cid) (phase_of (engine_after rs (h @ g)) (alertKey cid (ar_Name rule)))"
    unfolding x engine_after_snoc
    using engine_after_inv [OF assms(1) ok(1)] assms ok by (intro Evaluate_phase) simp_all
  moreover have "observed r cid = None" using snoc.prems(2) by (auto simp: x)
  ultimately show ?case using snoc by simp
qed

lemma engine_inv_determines:
  assumes "engine_inv e" "engine_inv e'" "\<And>k. phase_of e k = phase_of e' k"
  shows "conditionStart e = conditionStart e'" "activeAlerts e = activeAlerts e'"
proof -
  have *: "conditionStart e k = conditionStart e' k \<and> activeAlerts e k = activeAlerts e' k" for k
    using assms(1,2) assms(3) [of k]
    by (cases "conditionStart e k"; cases "conditionStart e' k"; cases "activeAlerts e k"; cases "activeAlerts e' k")
      (force simp: phase_of_def engine_inv_def)+
  show "conditionStart e = conditionStart e'" "activeAlerts e = activeAlerts e'"
    using * by (simp_all add: fun_eq_iff)
qed

lemma eval_pairs_concat: "eval_pairs rs r = concat (map (\<lambda>x. map (Pair (snd x)) rs) r)"
  by (induction rs r rule: eval_pairs.induct) simp_all

lemma eval_pairs_mset: "mset r = mset r' \<Longrightarrow> mset (eval_pairs rs r) = mset (eval_pairs rs r')"
  unfolding eval_pairs_concat by (rule mset_concat_map_cong)

lemma clearInactiveAlerts_set: "set r = set r' \<Longrightarrow> clearInactiveAlerts r e = clearInactiveAlerts r' e"
  by (simp add: clearInactiveAlerts_def)

lemma Evaluate_phase_any:
  assumes inv: "engine_inv e" and ok: "stats_ok r" "rules_ok (rules e)"
  shows "phase_of (fst (Evaluate e now r)) k =
         (if \<exists>p \<in> set (eval_pairs (rules e) r). pair_key p = k
          then (let p = (SOME p. p \<in> set (eval_pairs (rules e) r) \<and> pair_key p = k)
                in phase_step (snd p) now (Some (fst p)) (phase_of (clearInactiveAlerts r e) k))
          else phase_of (clearInactiveAlerts r e) k)"
proof (cases "\<exists>p \<in> set (eval_pairs (rules e) r). pair_key p = k")
  case True
  let ?p = "SOME p. p \<in> set (eval_pairs (rules e) r) \<and> pair_key p = k"
  have p: "?p \<in> set (eval_pairs (rules e) r)" "pair_key ?p = k"
    using True someI_ex [of "\<lambda>p. p \<in> set (eval_pairs (rules e) r) \<and> pair_key p = k"] by blast+
  then have "(fst ?p, snd ?p) \<in> set (eval_pairs (rules e) r)" by simp
  from fold_eval_phase [of "(clearInactiveAlerts r e, [])", OF _ eval_pairs_ok [OF ok] this, of now] p(2) True
  show ?thesis by (simp add: Evaluate_fold clearInactiveAlerts_inv [OF inv] Let_def)
next
  case False
  then have "k \<notin> pair_key ` set (eval_pairs (rules e) r)" by auto
  from fold_eval_frame [OF this, of now "(clearInactiveAlerts r e, [])"] False
  show ?thesis by (simp add: Evaluate_fold)
qed

lemma Evaluate_perm:
  assumes inv: "engine_inv e" and ok: "stats_ok r" "stats_ok r'" "rules_ok (rules e)" and m: "mset r = mset r'"
  shows "conditionStart (fst (Evaluate e now r)) = conditionStart (fst (Evaluate e now r'))"
    and "activeAlerts (fst (Evaluate e now r)) = activeAlerts (fst (Evaluate e now r'))"
    and "mset (snd (Evaluate e now r)) = mset (snd (Evaluate e now r'))"
proof -
  have pm: "mset (eval_pairs (rules e) r) = mset (eval_pairs (rules e) r')" by (rule eval_pairs_mset [OF m])
  have ps: "set (eval_pairs (rules e) r) = set (eval_pairs (rules e) r')" using pm by (rule mset_eq_setD)
  have cl: "clearInactiveAlerts r e = clearInactiveAlerts r' e"
    using m by (intro clearInactiveAlerts_set) (rule mset_eq_setD)
  have ph: "phase_of (fst (Evaluate e now r)) k = phase_of (fst (Evaluate e now r')) k" for k
    by (simp only: Evaluate_phase_any [OF inv ok(1,3)] Evaluate_phase_any [OF inv ok(2,3)] ps cl)
  note inv' = Evaluate_inv [OF inv ok(1,3)] Evaluate_inv [OF inv ok(2,3)]
  show "conditionStart (fst (Evaluate e now r)) = conditionStart (fst (Evaluate e now r'))"
    and "activeAlerts (fst (Evaluate e now r)) = activeAlerts (fst (Evaluate e now r'))"
    using engine_inv_determines [OF inv' ph] by simp_all
  show "mset (snd (Evaluate e now r)) = mset (snd (Evaluate e now r'))"
    unfolding Evaluate_emit [OF inv ok(1,3)] Evaluate_emit [OF inv ok(2,3)]
    by (rule mset_map_filter_cong [OF pm])
qed

section \<open>History, active alerts, pending count\<close>

lemma Evaluate_history:
  assumes "length (firedAlerts e) \<le> 50"
  shows "firedAlerts (fst (Evaluate e now r)) = take 50 (rev (snd (Evaluate e now r)) @ firedAlerts e)"
  using fold_eval_history [of "(clearInactiveAlerts r e, [])" now "eval_pairs (rules e) r"] assms
  by (auto simp: Evaluate_fold)

lemma engine_run_history:
  assumes "length (firedAlerts e) \<le> 50"
  shows "firedAlerts (fst (engine_run e h)) =
         take 50 (rev (concat (snd (engine_run e h))) @ firedAlerts e)"
  using assms
proof (induction e h rule: engine_run.induct)
  case (1 e)
  then show ?case by simp
next
  case (2 e now r h)
  obtain e' new where E: "Evaluate e now r = (e', new)" by (cases "Evaluate e now r")
  have fe: "firedAlerts e' = take 50 (rev new @ firedAlerts e)"
    using Evaluate_history [OF "2.prems", of now r] by (simp add: E)
  then have len: "length (firedAlerts e') \<le> 50" by simp
  have "firedAlerts (fst (engine_run e' h)) = take 50 (rev (concat (snd (engine_run e' h))) @ firedAlerts e')"
    using "2.IH" [OF E [symmetric] refl len] by simp
  then show ?case by (cases "engine_run e' h") (simp add: E fe take_append_take del: take_append)
qed

definition best_inv :: "Alert set \<Rightarrow> (string \<times> Alert) list \<Rightarrow> bool" where
  "best_inv seen best \<longleftrightarrow>
     distinct (map fst best) \<and>
     (\<forall>k b. map_of best k = Some b \<longrightarrow> groupKey b = k \<and> b \<in> seen) \<and>
     (\<forall>a \<in> seen. \<exists>b. map_of best (groupKey a) = Some b \<and>
        severityWeight (a_Severity a) \<le> severityWeight (a_Severity b))"

lemma best_inv_update:
  assumes "best_inv seen best"
    and "\<forall>b. map_of best (groupKey a) = Some b \<longrightarrow> severityWeight (a_Severity b) \<le> severityWeight (a_Severity a)"
  shows "best_inv (insert a seen) (AList.update (groupKey a) a best)"
proof -
  have "\<exists>b. map_of (AList.update (groupKey a) a best) (groupKey x) = Some b \<and>
      severityWeight (a_Severity x) \<le> severityWeight (a_Severity b)" if x: "x \<in> insert a seen" for x
  proof (cases "groupKey x = groupKey a")
    case True
    show ?thesis
    proof (cases "x = a")
      case False
      then obtain b where "map_of best (groupKey a) = Some b" "severityWeight (a_Severity x) \<le> severityWeight (a_Severity b)"
        using x assms(1) True by (auto simp: best_inv_def)
      then show ?thesis using assms(2) True by (force simp: update_conv')
    qed (simp add: update_conv')
  next
    case False
    then show ?thesis using x assms(1) by (auto simp: best_inv_def update_conv')
  qed
  moreover have "distinct (map fst (AList.update (groupKey a) a best))"
    using assms(1) by (simp add: best_inv_def distinct_update)
  ultimately show ?thesis using assms(1) by (auto simp: best_inv_def update_conv' split: if_splits)
qed

lemma bestAlerts_inv: "best_inv seen best \<Longrightarrow> best_inv (seen \<union> snd ` set r) (bestAlerts r best)"
proof (induction r best arbitrary: seen rule: bestAlerts.induct)
  case (1 best)
  then show ?case by simp
next
  case (2 k a r best)
  show ?case
  proof (cases "map_of best (groupKey a)")
    case None
    have "best_inv (insert a seen) (AList.update (groupKey a) a best)"
      using "2.prems" None by (intro best_inv_update) simp_all
    then show ?thesis using "2.IH"(1) [OF None, of "insert a seen"] None by simp
  next
    case (Some b)
    show ?thesis
    proof (cases "severityWeight (a_Severity a) > severityWeight (a_Severity b)")
      case True
      have "best_inv (insert a seen) (AList.update (groupKey a) a best)"
        using "2.prems" Some True by (intro best_inv_update) simp_all
      then show ?thesis using "2.IH"(2) [OF Some True, of "insert a seen"] Some True by simp
    next
      case False
      have "best_inv (insert a seen) best"
        using "2.prems" Some False by (auto simp: best_inv_def)
      then show ?thesis using "2.IH"(3) [OF Some False, of "insert a seen"] Some False by simp
    qed
  qed
qed

lemma GetActiveAlerts_best:
  assumes "\<forall>xs. mset (perm xs) = mset xs"
  shows "distinct (map groupKey (GetActiveAlerts perm r))"
    and "set (GetActiveAlerts perm r) \<subseteq> snd ` set r"
    and "\<forall>a \<in> snd ` set r. \<exists>b \<in> set (GetActiveAlerts perm r). groupKey b = groupKey a \<and>
           severityWeight (a_Severity a) \<le> severityWeight (a_Severity b)"
proof -
  let ?best = "bestAlerts r []"
  have "best_inv {} []" by (simp add: best_inv_def)
  from bestAlerts_inv [OF this, of r] have inv: "best_inv (snd ` set r) ?best" by simp
  then have d: "distinct (map fst ?best)" and mem: "\<And>k b. (k, b) \<in> set ?best \<Longrightarrow> groupKey b = k \<and> b \<in> snd ` set r"
    by (auto simp: best_inv_def)
  have pm: "mset (perm ?best) = mset ?best" using assms by simp
  have ps: "set (perm ?best) = set ?best" using pm by (rule mset_eq_setD)
  have "map groupKey (GetActiveAlerts perm r) = map fst (perm ?best)"
    unfolding GetActiveAlerts_def using mem ps by auto
  moreover have "distinct (map fst (perm ?best))" using d pm by (metis mset_eq_imp_distinct_iff mset_map)
  ultimately show "distinct (map groupKey (GetActiveAlerts perm r))" by simp
  show "set (GetActiveAlerts perm r) \<subseteq> snd ` set r"
    using mem ps by (auto simp: GetActiveAlerts_def)
  show "\<forall>a \<in> snd ` set r. \<exists>b \<in> set (GetActiveAlerts perm r). groupKey b = groupKey a \<and>
           severityWeight (a_Severity a) \<le> severityWeight (a_Severity b)"
  proof
    fix a assume "a \<in> snd ` set r"
    then obtain b where b: "map_of ?best (groupKey a) = Some b" "severityWeight (a_Severity a) \<le> severityWeight (a_Severity b)"
      using inv by (auto simp: best_inv_def)
    then have "(groupKey a, b) \<in> set ?best" by (simp add: map_of_SomeD)
    then have "b \<in> set (GetActiveAlerts perm r)" "groupKey b = groupKey a"
      using ps mem by (auto simp: GetActiveAlerts_def intro: rev_image_eqI)
    then show "\<exists>b \<in> set (GetActiveAlerts perm r). groupKey b = groupKey a \<and>
           severityWeight (a_Severity a) \<le> severityWeight (a_Severity b)"
      using b(2) by blast
  qed
qed

lemma groupKey_eq:
  "CHR '':'' \<notin> set (a_ContainerID a) \<Longrightarrow> CHR '':'' \<notin> set (a_ContainerID b) \<Longrightarrow>
   groupKey a = groupKey b \<longleftrightarrow> a_ContainerID a = a_ContainerID b \<and> a_Metric a = a_Metric b"
  using alertKey_inject [of "a_ContainerID a" "a_ContainerID b"] by (simp add: groupKey_def alertKey_def)

lemma GetPendingCount_card:
  assumes "is_range (conditionStart e) r"
  shows "GetPendingCount e r = card {k. \<exists>t. phase_of e k = Pending t}"
proof -
  have d: "distinct (map fst (filter (\<lambda>(k, t). activeAlerts e k = None) r))"
    using assms by (simp add: is_range_def distinct_map_filter)
  have "fst ` set (filter (\<lambda>(k, t). activeAlerts e k = None) r) = {k. \<exists>t. phase_of e k = Pending t}"
    using assms by (force simp: phase_of_def range_simps split: option.splits)
  then show ?thesis using d unfolding GetPendingCount_def
    by (metis distinct_card length_map list.set_map)
qed

section \<open>Properties\<close>

text \<open>Concrete data for the witnesses: a rule, a container's metrics, and a two-minute history.\<close>

definition ex_rule :: AlertRule where
  "ex_rule = \<lparr>ar_Name = ''High CPU'', ar_Metric = ''cpu_percent'', ar_Operator = ''>'',
     ar_Threshold = Fin 80, ar_Duration = 2 * minute, ar_Severity = ''critical''\<rparr>"

definition ex_metrics :: "string \<Rightarrow> rat \<Rightarrow> ContainerMetrics" where
  "ex_metrics cid cpu = \<lparr>cm_HostID = '''', cm_ContainerID = cid, cm_ContainerName = ''web'', cm_Image = ''nginx'',
     cm_CPUPercent = Fin cpu, cm_MemoryUsage = 0, cm_MemoryLimit = 0, cm_MemoryPercent = Fin 0,
     cm_NetworkRx = 0, cm_NetworkTx = 0, cm_BlockRead = 0, cm_BlockWrite = 0\<rparr>"

definition ex_stats :: "rat \<Rightarrow> stats_range" where "ex_stats cpu = [(''c1'', ex_metrics ''c1'' cpu)]"

lemmas ex_alert_defs = ex_rule_def ex_metrics_def ex_stats_def

lemma ex_ok [simp]: "rules_ok [ex_rule]" "stats_ok (ex_stats cpu)" "stats_ok []"
  by (simp_all add: rules_ok_def stats_ok_def ex_alert_defs)

lemma ex_condition [simp]: "condition_met ex_rule (ex_metrics cid cpu) \<longleftrightarrow> 80 < cpu"
  by (simp add: condition_met_def evaluateCondition_def getMetricValue_def ex_alert_defs)

lemma ex_observed [simp]:
  "observed (ex_stats cpu) cid = (if cid = ''c1'' then Some (ex_metrics ''c1'' cpu) else None)"
  "observed [] cid = None"
  by (simp_all add: observed_def ex_stats_def)

lemma ex_rule_simps [simp]: "ar_Name ex_rule = ''High CPU''" "ar_Duration ex_rule = 120000000000"
  by (simp_all add: ex_rule_def duration_defs)

text \<open>
  C1: The engine is one \<open>Pending -> Firing -> Resolved\<close> machine per container and rule. After any
  history of evaluations, the next evaluation moves every machine by \<open>phase_step\<close>, and it
  reports exactly the alerts of the machines that start firing. Rule names are assumed to be distinct
  and container IDs to contain no colon.
\<close>

theorem alert_engine_implements_machine:
  assumes "rules_ok rs" "history_ok (h @ [(now, r)])"
  shows "(\<forall>rule \<in> set rs. \<forall>cid. CHR '':'' \<notin> set cid \<longrightarrow>
            phase_of (engine_after rs (h @ [(now, r)])) (alertKey cid (ar_Name rule)) =
            phase_step rule now (observed r cid) (phase_of (engine_after rs h) (alertKey cid (ar_Name rule))))
         \<and> set (snd (Evaluate (engine_after rs h) now r)) =
           {a. \<exists>rule \<in> set rs. \<exists>cid s. observed r cid = Some s \<and>
                 phase_emit rule now s (phase_of (engine_after rs h) (alertKey cid (ar_Name rule))) = Some a}"
proof -
  have ok: "history_ok h" "stats_ok r" using assms(2) by simp_all
  note inv = engine_after_inv [OF assms(1) ok(1)]
  have "set (snd (Evaluate (engine_after rs h) now r)) =
      {a. \<exists>p \<in> set (eval_pairs rs r). phase_emit (snd p) now (fst p) (phase_of (engine_after rs h) (pair_key p)) = Some a}"
    using Evaluate_emit [of "engine_after rs h" r now] inv ok assms(1) by (simp add: set_map_filter)
  also have "\<dots> = {a. \<exists>rule \<in> set rs. \<exists>cid s. observed r cid = Some s \<and>
      phase_emit rule now s (phase_of (engine_after rs h) (alertKey cid (ar_Name rule))) = Some a}"
    by (auto simp: eval_pairs_set observed_Some [OF ok(2)])
  finally show ?thesis
    unfolding engine_after_snoc using inv ok assms(1) Evaluate_phase [of "engine_after rs h" r] by simp
qed

theorem alert_engine_implements_machine_witness:
  "phase_of (engine_after [ex_rule] ([(0, ex_stats 90)] @ [(2 * minute, ex_stats 91)])) (alertKey ''c1'' (ar_Name ex_rule))
   = Firing (mk_alert ex_rule (ex_metrics ''c1'' 91) (2 * minute) 0)"
proof -
  have "rules_ok [ex_rule]" "history_ok ([(0, ex_stats 90)] @ [(2 * minute, ex_stats 91)])" by simp_all
  from alert_engine_implements_machine [OF this]
  have "phase_of (engine_after [ex_rule] ([(0, ex_stats 90)] @ [(2 * minute, ex_stats 91)])) (alertKey ''c1'' (ar_Name ex_rule))
      = phase_step ex_rule (2 * minute) (observed (ex_stats 91) ''c1'')
          (phase_of (engine_after [ex_rule] [(0, ex_stats 90)]) (alertKey ''c1'' (ar_Name ex_rule)))"
    by simp
  also have "phase_of (engine_after [ex_rule] [(0, ex_stats 90)]) (alertKey ''c1'' (ar_Name ex_rule)) = Pending 0"
    by code_simp
  finally show ?thesis by (simp add: duration_defs time_sub_def)
qed

text \<open>
  C11: An alert is reported only when its condition persisted. Its \<open>ActiveSince\<close> is the time of an
  earlier evaluation; at that evaluation and at every later one that saw the container the condition
  held; it holds now; and the rule's duration has passed since \<open>ActiveSince\<close>. Rule names are assumed
  to be distinct and container IDs to contain no colon.
\<close>

theorem alert_condition_persisted:
  assumes "rules_ok rs" "history_ok (h @ [(now, r)])"
    and "a \<in> set (snd (Evaluate (engine_after rs h) now r))"
  shows "\<exists>rule \<in> set rs. a_RuleName a = ar_Name rule \<and>
           held_since h rule (a_ContainerID a) (a_ActiveSince a) \<and>
           (\<exists>s. observed r (a_ContainerID a) = Some s \<and> condition_met rule s) \<and>
           a_FiredAt a = now \<and> ar_Duration rule \<le> time_sub now (a_ActiveSince a)"
proof -
  have ok: "history_ok h" "stats_ok r" using assms(2) by simp_all
  have inv: "engine_inv (engine_after rs h)" "rules (engine_after rs h) = rs"
    using engine_after_inv [OF assms(1) ok(1)] by simp_all
  obtain rule s t where a: "rule \<in> set rs" "observed r (a_ContainerID a) = Some s"
      "phase_of (engine_after rs h) (alertKey (a_ContainerID a) (ar_Name rule)) = Pending t"
      "condition_met rule s" "ar_Duration rule \<le> time_sub now t" "a = mk_alert rule s now t"
    using Evaluate_emit_mem [OF inv(1) ok(2) _ assms(3)] inv(2) assms(1) by metis
  have "CHR '':'' \<notin> set (a_ContainerID a)"
    using a(2) stats_ok_mem [OF ok(2)] by (auto simp: observed_Some [OF ok(2)])
  then have "held_since h rule (a_ContainerID a) t"
    using engine_after_held [OF assms(1) ok(1) a(1)] a(3) by (simp add: phase_since_def)
  then show ?thesis using a by auto
qed

theorem alert_condition_persisted_witness:
  "\<exists>rule \<in> set [ex_rule]. ''High CPU'' = ar_Name rule \<and> held_since [(0, ex_stats 90)] rule ''c1'' 0 \<and>
     ar_Duration rule \<le> time_sub (2 * minute) 0"
proof -
  let ?a = "mk_alert ex_rule (ex_metrics ''c1'' 91) (2 * minute) 0"
  have "rules_ok [ex_rule]" "history_ok ([(0, ex_stats 90)] @ [(2 * minute, ex_stats 91)])" by simp_all
  moreover have "?a \<in> set (snd (Evaluate (engine_after [ex_rule] [(0, ex_stats 90)]) (2 * minute) (ex_stats 91)))"
    by code_simp
  ultimately show ?thesis
    using alert_condition_persisted [of "[ex_rule]" "[(0, ex_stats 90)]" "2 * minute" "ex_stats 91" ?a]
    by (auto simp: ex_metrics_def)
qed

text \<open>
  C12: an alert fires once. Two reports for the same container and rule are separated by an evaluation
  at which the container was missing or the condition did not hold. Rule names are assumed to be
  distinct and container IDs to contain no colon.
\<close>

theorem alert_fires_once:
  assumes "rules_ok rs" "history_ok (h @ (t\<^sub>1, r\<^sub>1) # g @ [(t\<^sub>2, r\<^sub>2)])"
    and "a \<in> set (snd (Evaluate (engine_after rs h) t\<^sub>1 r\<^sub>1))"
    and "b \<in> set (snd (Evaluate (engine_after rs (h @ (t\<^sub>1, r\<^sub>1) # g)) t\<^sub>2 r\<^sub>2))"
    and "a_ContainerID b = a_ContainerID a" "a_RuleName b = a_RuleName a"
  shows "\<exists>rule \<in> set rs. ar_Name rule = a_RuleName a \<and>
           (\<exists>(t, r) \<in> set g. \<forall>s. observed r (a_ContainerID a) = Some s \<longrightarrow> \<not> condition_met rule s)"
proof -
  have ok: "history_ok h" "stats_ok r\<^sub>1" "history_ok g" "stats_ok r\<^sub>2" using assms(2) by simp_all
  let ?h = "h @ [(t\<^sub>1, r\<^sub>1)]"
  have eq: "engine_after rs (h @ (t\<^sub>1, r\<^sub>1) # g) = engine_after rs (?h @ g)" by simp
  have okh: "history_ok ?h" "history_ok (?h @ g)" using ok by simp_all
  note inv = engine_after_inv [OF assms(1) ok(1)] and invg = engine_after_inv [OF assms(1) okh(2)]
  obtain rule s t where a: "rule \<in> set rs" "observed r\<^sub>1 (a_ContainerID a) = Some s"
      "phase_of (engine_after rs h) (alertKey (a_ContainerID a) (ar_Name rule)) = Pending t"
      "condition_met rule s" "ar_Duration rule \<le> time_sub t\<^sub>1 t" "a = mk_alert rule s t\<^sub>1 t"
    using Evaluate_emit_mem [of "engine_after rs h" r\<^sub>1 a t\<^sub>1] inv ok assms(1,3) by metis
  obtain rule' s' t' where b: "rule' \<in> set rs"
      "phase_of (engine_after rs (?h @ g)) (alertKey (a_ContainerID b) (ar_Name rule')) = Pending t'"
      "b = mk_alert rule' s' t\<^sub>2 t'"
    using Evaluate_emit_mem [of "engine_after rs (?h @ g)" r\<^sub>2 b t\<^sub>2] invg ok assms(1,4) unfolding eq by metis
  have cid: "CHR '':'' \<notin> set (a_ContainerID a)"
    using a(2) stats_ok_mem [OF ok(2)] by (auto simp: observed_Some [OF ok(2)])
  have fire: "phase_of (engine_after rs ?h) (alertKey (a_ContainerID a) (ar_Name rule)) = Firing a"
    unfolding engine_after_snoc
    using Evaluate_phase [of "engine_after rs h" r\<^sub>1 rule] inv ok(2) assms(1) a cid by simp
  have "\<not> (\<forall>(t, r) \<in> set g. \<exists>s. observed r (a_ContainerID a) = Some s \<and> condition_met rule s)"
  proof
    assume "\<forall>(t, r) \<in> set g. \<exists>s. observed r (a_ContainerID a) = Some s \<and> condition_met rule s"
    from firing_stays [OF assms(1) okh(2) a(1) cid fire this]
    show False using a(6) b(2,3) assms(5,6) by simp
  qed
  then show ?thesis using a by force
qed

theorem alert_fires_once_witness:
  "\<exists>rule \<in> set [ex_rule]. ar_Name rule = ''High CPU'' \<and>
     (\<exists>(t, r) \<in> set [(3 * minute, ex_stats 10), (4 * minute, ex_stats 90)].
        \<forall>s. observed r ''c1'' = Some s \<longrightarrow> \<not> condition_met rule s)"
proof -
  let ?a = "mk_alert ex_rule (ex_metrics ''c1'' 91) (2 * minute) 0"
    and ?b = "mk_alert ex_rule (ex_metrics ''c1'' 92) (6 * minute) (4 * minute)"
    and ?h = "[(0, ex_stats 90)]" and ?g = "[(3 * minute, ex_stats 10), (4 * minute, ex_stats 90)]"
  have "rules_ok [ex_rule]" "history_ok (?h @ (2 * minute, ex_stats 91) # ?g @ [(6 * minute, ex_stats 92)])"
    by simp_all
  moreover have "?a \<in> set (snd (Evaluate (engine_after [ex_rule] ?h) (2 * minute) (ex_stats 91)))"
    by code_simp
  moreover have "?b \<in> set (snd (Evaluate (engine_after [ex_rule] (?h @ (2 * minute, ex_stats 91) # ?g)) (6 * minute) (ex_stats 92)))"
    by code_simp
  moreover have "a_ContainerID ?b = a_ContainerID ?a" "a_RuleName ?b = a_RuleName ?a" by (simp_all add: ex_metrics_def)
  ultimately show ?thesis
    using alert_fires_once [of "[ex_rule]" ?h "2 * minute" "ex_stats 91" ?g "6 * minute" "ex_stats 92" ?a ?b]
    by (simp add: ex_metrics_def)
qed

text \<open>
  The engine remembers the last fifty alerts it reported, newest first, over any run.
\<close>

theorem alert_history_is_last_fifty:
  "firedAlerts (fst (engine_run (NewEngine rs) h)) =
   take 50 (rev (concat (snd (engine_run (NewEngine rs) h))))"
  using engine_run_history [of "NewEngine rs" h] by (simp add: NewEngine_def)

text \<open>
  C27: the order in which Go ranges over the stats map does not matter: two visiting orders of the
  same stats lead to the same conditions and active alerts and report the same alerts. Rule names are
  assumed to be distinct and container IDs to contain no colon.
\<close>

theorem alert_order_irrelevant:
  assumes "rules_ok rs" "history_ok h" "stats_keyed st" "\<forall>k \<in> dom st. CHR '':'' \<notin> set k"
    and "is_range st r" "is_range st r'"
  shows "conditionStart (fst (Evaluate (engine_after rs h) now r)) =
           conditionStart (fst (Evaluate (engine_after rs h) now r')) \<and>
         activeAlerts (fst (Evaluate (engine_after rs h) now r)) =
           activeAlerts (fst (Evaluate (engine_after rs h) now r')) \<and>
         mset (snd (Evaluate (engine_after rs h) now r)) = mset (snd (Evaluate (engine_after rs h) now r'))"
proof -
  have "stats_ok r" "stats_ok r'" using stats_ok_range assms(3-6) by blast+
  then show ?thesis
    using Evaluate_perm [of "engine_after rs h" r r' now] engine_after_inv [OF assms(1,2)] assms(1)
      is_range_mset [OF assms(5,6)] by simp
qed

theorem alert_order_irrelevant_witness:
  "mset (snd (Evaluate (engine_after [ex_rule] []) 0 [(''a'', ex_metrics ''a'' 90), (''b'', ex_metrics ''b'' 91)])) =
   mset (snd (Evaluate (engine_after [ex_rule] []) 0 [(''b'', ex_metrics ''b'' 91), (''a'', ex_metrics ''a'' 90)]))"
proof -
  let ?r = "[(''a'', ex_metrics ''a'' 90), (''b'', ex_metrics ''b'' 91)]"
    and ?r' = "[(''b'', ex_metrics ''b'' 91), (''a'', ex_metrics ''a'' 90)]"
  have "is_range (map_of ?r) ?r" "is_range (map_of ?r) ?r'" by (auto simp: is_range_def fun_eq_iff)
  moreover have "stats_keyed (map_of ?r)" "\<forall>k \<in> dom (map_of ?r). CHR '':'' \<notin> set k"
    by (auto simp: stats_keyed_def ex_metrics_def split: if_splits)
  ultimately show ?thesis
    using alert_order_irrelevant [of "[ex_rule]" "[]" "map_of ?r" ?r ?r' 0] by (metis ex_ok(1) history_ok_simps(1))
qed

text \<open>
  C26: \<open>GetActiveAlerts\<close> shows each container and metric once, with an alert of the highest severity
  among the active ones, and leaves no active alert unrepresented. Rule names are assumed to be distinct
  and container IDs to contain no colon.
\<close>

theorem active_alerts_highest_severity:
  assumes "rules_ok rs" "history_ok h" "is_range (activeAlerts (engine_after rs h)) r" "\<forall>xs. mset (perm xs) = mset xs"
  shows "distinct (map (\<lambda>a. (a_ContainerID a, a_Metric a)) (GetActiveAlerts perm r))
       \<and> (\<forall>b \<in> set (GetActiveAlerts perm r). b \<in> ran (activeAlerts (engine_after rs h)))
       \<and> (\<forall>a \<in> ran (activeAlerts (engine_after rs h)). \<exists>b \<in> set (GetActiveAlerts perm r).
            a_ContainerID b = a_ContainerID a \<and> a_Metric b = a_Metric a \<and>
            severityWeight (a_Severity a) \<le> severityWeight (a_Severity b))"
proof -
  let ?e = "engine_after rs h"
  have cid: "CHR '':'' \<notin> set (a_ContainerID a)" if "a \<in> ran (activeAlerts ?e)" for a
    using engine_after_inv [OF assms(1,2)] that by (auto simp: engine_inv_def ran_def alert_ok_def)
  have rr: "snd ` set r = ran (activeAlerts ?e)"
    using is_range_mem [OF assms(3)] by (force simp: ran_def)
  note best = GetActiveAlerts_best [OF assms(4), of r, unfolded rr]
  have "inj_on (\<lambda>a. (a_ContainerID a, a_Metric a)) (set (GetActiveAlerts perm r))"
  proof (rule inj_onI)
    fix a b
    assume ab: "a \<in> set (GetActiveAlerts perm r)" "b \<in> set (GetActiveAlerts perm r)"
      and "(a_ContainerID a, a_Metric a) = (a_ContainerID b, a_Metric b)"
    then have "groupKey a = groupKey b" by (simp add: groupKey_def)
    then show "a = b" using best(1) ab by (auto simp: distinct_map dest: inj_onD)
  qed
  then have "distinct (map (\<lambda>a. (a_ContainerID a, a_Metric a)) (GetActiveAlerts perm r))"
    using best(1) by (simp add: distinct_map)
  moreover have "\<exists>b \<in> set (GetActiveAlerts perm r). a_ContainerID b = a_ContainerID a \<and> a_Metric b = a_Metric a \<and>
      severityWeight (a_Severity a) \<le> severityWeight (a_Severity b)" if a: "a \<in> ran (activeAlerts ?e)" for a
  proof -
    obtain b where b: "b \<in> set (GetActiveAlerts perm r)" "groupKey b = groupKey a"
        "severityWeight (a_Severity a) \<le> severityWeight (a_Severity b)" using best(3) a by blast
    then show ?thesis using groupKey_eq [OF cid cid] best(2) a by blast
  qed
  ultimately show ?thesis using best(2) by blast
qed

theorem active_alerts_highest_severity_witness:
  "distinct (map (\<lambda>a. (a_ContainerID a, a_Metric a)) (GetActiveAlerts rev
     [(''c1:High CPU'', mk_alert ex_rule (ex_metrics ''c1'' 91) (2 * minute) 0)]))"
proof -
  let ?h = "[(0, ex_stats 90), (2 * minute, ex_stats 91)]"
    and ?r = "[(''c1:High CPU'', mk_alert ex_rule (ex_metrics ''c1'' 91) (2 * minute) 0)]"
  have "activeAlerts (engine_after [ex_rule] ?h) k = map_of ?r k" for k
    by (simp add: engine_after_def Evaluate_def clearInactiveAlerts_def evaluateRule_alt NewEngine_def
        ex_stats_def alertKey_def time_sub_def duration_defs)
      (simp add: ex_metrics_def alertKey_def)
  then have "is_range (activeAlerts (engine_after [ex_rule] ?h)) ?r" by (simp add: is_range_def fun_eq_iff)
  then show ?thesis
    using active_alerts_highest_severity [of "[ex_rule]" ?h ?r rev] by simp
qed

text \<open>
  The pending count is the number of conditions whose machine is in the pending phase.
\<close>

theorem pending_count_counts_pending:
  assumes "is_range (conditionStart e) r"
  shows "GetPendingCount e r = card {k. \<exists>t. phase_of e k = Pending t}"
  using assms by (rule GetPendingCount_card)

theorem pending_count_counts_pending_witness:
  "GetPendingCount \<lparr>rules = [], conditionStart = [''k'' \<mapsto> 0], activeAlerts = Map.empty, firedAlerts = []\<rparr> [(''k'', 0)]
   = card {k. \<exists>t. phase_of \<lparr>rules = [], conditionStart = [''k'' \<mapsto> 0], activeAlerts = Map.empty, firedAlerts = []\<rparr> k = Pending t}"
  by (rule pending_count_counts_pending) (simp add: is_range_def)

text \<open>
  C28: the clean-up of vanished containers forgets active alerts only. A condition that is pending
  when its container disappears keeps its start time, however long the container is gone; when the
  container comes back with the condition met after the rule's duration, the alert fires at once,
  although the condition was observed for a single moment. Rule names are assumed to be distinct and
  container IDs to contain no colon.
\<close>

theorem pending_condition_survives_absence:
  assumes "rules_ok rs" "history_ok (h @ g @ [(now, r)])" "rule \<in> set rs" "CHR '':'' \<notin> set cid"
    and "phase_of (engine_after rs h) (alertKey cid (ar_Name rule)) = Pending t"
    and "\<forall>(t', r') \<in> set g. observed r' cid = None"
    and "observed r cid = Some s" "condition_met rule s" "ar_Duration rule \<le> time_sub now t"
  shows "mk_alert rule s now t \<in> set (snd (Evaluate (engine_after rs (h @ g)) now r))"
proof -
  have ok: "history_ok (h @ g)" "stats_ok r" using assms(2) by simp_all
  have p: "phase_of (engine_after rs (h @ g)) (alertKey cid (ar_Name rule)) = Pending t"
    using pending_survives_absence assms ok by blast
  note inv = engine_after_inv [OF assms(1) ok(1)]
  have s: "s \<in> snd ` set r" "cm_ContainerID s = cid" using observed_Some [OF ok(2)] assms(7) by blast+
  then have "(s, rule) \<in> set (eval_pairs rs r)" using assms(3) by (auto simp: eval_pairs_set)
  moreover have "phase_emit rule now s (phase_of (engine_after rs (h @ g)) (pair_key (s, rule))) = Some (mk_alert rule s now t)"
    using p s assms(8,9) by simp
  ultimately show ?thesis
    using Evaluate_emit [of "engine_after rs (h @ g)" r now] inv ok(2) assms(1) by (force simp: set_map_filter)
qed

theorem pending_condition_survives_absence_witness:
  "mk_alert ex_rule (ex_metrics ''c1'' 91) hour 0 \<in>
     set (snd (Evaluate (engine_after [ex_rule] ([(0, ex_stats 90)] @ [(minute, []), (2 * minute, [])])) hour (ex_stats 91)))"
proof (rule pending_condition_survives_absence)
  show "phase_of (engine_after [ex_rule] [(0, ex_stats 90)]) (alertKey ''c1'' (ar_Name ex_rule)) = Pending 0"
    by code_simp
qed (simp_all add: time_sub_def duration_defs)

text \<open>
  The printed form of an alert ignores the rule's operator: two alerts that differ only in the
  direction of the comparison print the same text, which always claims "greater than" and percents.
\<close>

lemma format_alert_always_greater:
  "FormatAlert (mk_alert rule s now t) = FormatAlert (mk_alert (rule\<lparr>ar_Operator := op\<rparr>) s now t)
   \<and> str_contains (FormatAlert a) ''% > ''"
proof
  show "FormatAlert (mk_alert rule s now t) = FormatAlert (mk_alert (rule\<lparr>ar_Operator := op\<rparr>) s now t)"
    by (simp add: FormatAlert_def mk_alert_def)
  show "str_contains (FormatAlert a) ''% > ''"
    unfolding FormatAlert_def str_contains_iff
    by (rule exI [of _ "''['' @ a_Severity a @ ''] '' @ a_RuleName a @ '': '' @ a_Metric a @ '' '' @ fmt_f1 (a_CurrentValue a)"]) simp
qed

end
