(* ===== verification/Security.thy ===== *)
theory Security
  imports Alerts Docker
begin

text \<open>
  \<^verbatim>\<open>internal/security/auditor.go\<close>: the ten audit rules and the auditor with its cache. The interface
  \<open>SecurityRule\<close> is the locale \<open>security_rule\<close>, with the contract every rule keeps; each of the ten
  rules is an interpretation of it, and so is the set of rules the auditor runs. The number of a port,
  which the Docker SDK parses, is the parameter \<open>portInt\<close>.
\<close>

section \<open>The rules\<close>

type_synonym rule = "ContainerDisplay \<Rightarrow> ContainerJSON \<Rightarrow> time \<Rightarrow> Alert list"

definition sec_alert :: "string \<Rightarrow> string \<Rightarrow> float64 \<Rightarrow> string \<Rightarrow> ContainerDisplay \<Rightarrow> time \<Rightarrow> Alert" where
  "sec_alert name metric value severity c now =
     \<lparr>a_RuleName = name, a_ContainerID = cd_ID c, a_ContainerName = cd_Name c, a_Metric = metric,
      a_CurrentValue = value, a_Threshold = Fin 0, a_Severity = severity, a_FiredAt = now, a_ActiveSince = now\<rparr>"

definition PrivilegedModeRule :: rule where
  "PrivilegedModeRule c j now =
     (case cj_HostConfig j of
        Some hc \<Rightarrow> if hc_Privileged hc then [sec_alert ''Sec: Privileged Mode'' ''security_privileged'' (Fin 1) ''critical'' c now] else []
      | None \<Rightarrow> [])"

definition RootUserRule :: rule where
  "RootUserRule c j now =
     (let user = (case cj_Config j of Some cfg \<Rightarrow> cc_User cfg | None \<Rightarrow> '''')
      in if user = '''' \<or> user = ''root'' \<or> user = ''0'' then
           [sec_alert ''Sec: Root User'' ''security_root_user'' (Fin 1) ''warning'' c now]
         else [])"

definition isDBPort :: "string \<Rightarrow> bool" where
  "isDBPort portStr \<longleftrightarrow>
     has_prefix portStr ''3306/'' \<or> has_prefix portStr ''5432/'' \<or> has_prefix portStr ''27017/'' \<or> has_prefix portStr ''6379/''"

definition isGloballyExposed :: "string \<Rightarrow> bool" where
  "isGloballyExposed ip \<longleftrightarrow> ip = ''0.0.0.0'' \<or> ip = '''' \<or> ip = ''::''"

definition dbAlerts :: "(string \<Rightarrow> int) \<Rightarrow> ContainerDisplay \<Rightarrow> time \<Rightarrow> string \<times> string list \<Rightarrow> Alert list" where
  "dbAlerts portInt c now pb =
     (if \<not> isDBPort (fst pb) then []
      else map (\<lambda>b. sec_alert ''Sec: DB Port Exposed globally'' ''security_db_port'' (f64_of_int (portInt (fst pb))) ''critical'' c now)
             (filter isGloballyExposed (snd pb)))"

definition DBPortExposedRule :: "(string \<Rightarrow> int) \<Rightarrow> rule" where
  "DBPortExposedRule portInt c j now =
     (case cj_Ports j of None \<Rightarrow> [] | Some ports \<Rightarrow> concat (map (dbAlerts portInt c now) ports))"

definition sensitiveCaps :: "string list" where
  "sensitiveCaps = [''SYS_ADMIN'', ''NET_ADMIN'', ''SYS_PTRACE'', ''DAC_OVERRIDE'', ''SYS_RAWIO'', ''SYS_MODULE'', ''NET_RAW'']"

definition SensitiveCapsRule :: rule where
  "SensitiveCapsRule c j now =
     (case cj_HostConfig j of
        None \<Rightarrow> []
      | Some hc \<Rightarrow> map (\<lambda>cap. sec_alert ''Sec: Sensitive CAP_ADD'' ''security_sensitive_cap'' (Fin 1) ''warning'' c now)
                    (filter (\<lambda>cap. cap \<in> set sensitiveCaps) (hc_CapAdd hc)))"

definition ResourceQuotasRule :: rule where
  "ResourceQuotasRule c j now =
     (case cj_HostConfig j of
        Some hc \<Rightarrow> if hc_Memory hc = 0 \<or> hc_NanoCPUs hc = 0
                    then [sec_alert ''Sec: No Resource Quotas'' ''security_no_quotas'' (Fin 1) ''warning'' c now] else []
      | None \<Rightarrow> [])"

definition WritableRootFSRule :: rule where
  "WritableRootFSRule c j now =
     (case cj_HostConfig j of
        Some hc \<Rightarrow> if \<not> hc_ReadonlyRootfs hc
                    then [sec_alert ''Sec: Writable RootFS'' ''security_writable_rootfs'' (Fin 1) ''warning'' c now] else []
      | None \<Rightarrow> [])"

definition InsecurePortsRule :: rule where
  "InsecurePortsRule c j now =
     (case cj_Ports j of
        None \<Rightarrow> []
      | Some ports \<Rightarrow>
          if list_ex (\<lambda>(p, bs). has_prefix p ''22/'' \<or> has_prefix p ''23/'') ports
          then [sec_alert ''Sec: Insecure Port Exposed'' ''security_insecure_port'' (Fin 1) ''critical'' c now] else [])"

definition NoNewPrivilegesRule :: rule where
  "NoNewPrivilegesRule c j now =
     (case cj_HostConfig j of
        None \<Rightarrow> []
      | Some hc \<Rightarrow>
          if list_ex (\<lambda>opt. str_contains opt ''no-new-privileges:true'' \<or> str_contains opt ''no-new-privileges'') (hc_SecurityOpt hc)
          then []
          else [sec_alert ''Sec: Missing No-New-Privileges'' ''security_no_new_privs'' (Fin 1) ''warning'' c now])"

definition HostNetworkingRule :: rule where
  "HostNetworkingRule c j now =
     (case cj_HostConfig j of
        Some hc \<Rightarrow> if hc_NetworkMode hc = ''host''
                    then [sec_alert ''Sec: Host Networking Mode'' ''security_host_network'' (Fin 1) ''critical'' c now] else []
      | None \<Rightarrow> [])"

definition SensitiveMountsRule :: rule where
  "SensitiveMountsRule c j now =
     (if list_ex (\<lambda>m. str_contains (mp_Source m) ''docker.sock'') (cj_Mounts j)
      then [sec_alert ''Sec: Docker Socket Mounted'' ''security_docker_sock'' (Fin 1) ''critical'' c now] else [])"

definition defaultRules :: "(string \<Rightarrow> int) \<Rightarrow> rule list" where
  "defaultRules portInt =
     [PrivilegedModeRule, RootUserRule, DBPortExposedRule portInt, SensitiveCapsRule, ResourceQuotasRule,
      WritableRootFSRule, InsecurePortsRule, NoNewPrivilegesRule, HostNetworkingRule, SensitiveMountsRule]"

section \<open>The auditor\<close>

record Auditor =
  au_rules :: "rule list"
  au_cache :: "string \<rightharpoonup> Alert list"

definition NewAuditor :: "(string \<Rightarrow> int) \<Rightarrow> Auditor" where
  "NewAuditor portInt = \<lparr>au_rules = defaultRules portInt, au_cache = Map.empty\<rparr>"

definition fired_at :: "time \<Rightarrow> Alert \<Rightarrow> Alert" where "fired_at now a = a\<lparr>a_FiredAt := now\<rparr>"

definition run_rules :: "rule list \<Rightarrow> rule" where
  "run_rules rs c j now = concat (map (\<lambda>rule. rule c j now) rs)"

text \<open>
  The first loop. Writing \<open>cached[i].FiredAt\<close> writes through the slice into the cache.
\<close>

fun checkCache ::
  "time \<Rightarrow> ContainerDisplay list \<Rightarrow> (string \<rightharpoonup> Alert list) \<times> Alert list \<times> ContainerDisplay list \<Rightarrow>
   (string \<rightharpoonup> Alert list) \<times> Alert list \<times> ContainerDisplay list" where
  "checkCache now [] st = st"
| "checkCache now (c # cs) (cache, active, toInspect) =
     (case cache (cd_ID c) of
        Some cached \<Rightarrow>
          let cached = map (fired_at now) cached
          in checkCache now cs (cache(cd_ID c \<mapsto> cached), active @ cached, toInspect)
      | None \<Rightarrow> checkCache now cs (cache, active, toInspect @ [c]))"

text \<open>One goroutine per container to inspect; \<open>sched\<close> is the order in which they store their result.\<close>

definition inspectOne ::
  "(string \<Rightarrow> error + ContainerJSON) \<Rightarrow> rule list \<Rightarrow> time \<Rightarrow> ContainerDisplay \<Rightarrow> (string \<rightharpoonup> Alert list) \<Rightarrow> (string \<rightharpoonup> Alert list)" where
  "inspectOne insp rs now c newAlerts =
     (case InspectContainer insp (cd_ID c) of
        Inl err \<Rightarrow> newAlerts
      | Inr j \<Rightarrow> newAlerts(cd_ID c \<mapsto> run_rules rs c j now))"

fun storeNew ::
  "(string \<rightharpoonup> Alert list) \<Rightarrow> ContainerDisplay list \<Rightarrow> (string \<rightharpoonup> Alert list) \<times> Alert list \<Rightarrow> (string \<rightharpoonup> Alert list) \<times> Alert list" where
  "storeNew newAlerts [] st = st"
| "storeNew newAlerts (c # cs) (cache, active) =
     (case newAlerts (cd_ID c) of
        Some secAlerts \<Rightarrow> storeNew newAlerts cs (cache(cd_ID c \<mapsto> secAlerts), active @ secAlerts)
      | None \<Rightarrow> storeNew newAlerts cs (cache, active))"

definition Audit ::
  "(ContainerDisplay list \<Rightarrow> ContainerDisplay list) \<Rightarrow> (string \<Rightarrow> error + ContainerJSON) \<Rightarrow> time \<Rightarrow>
   ContainerDisplay list \<Rightarrow> Auditor \<Rightarrow> Auditor \<times> Alert list" where
  "Audit sched insp now containers a =
     (let activeIDs = set (map cd_ID containers);
          (cache, active, toInspect) = checkCache now containers (au_cache a, [], []);
          (cache, active) =
            (if length toInspect > 0 then
               (let newAlerts = fold (inspectOne insp (au_rules a) now) (sched toInspect) Map.empty
                in storeNew newAlerts toInspect (cache, active))
             else (cache, active))
      in (a\<lparr>au_cache := (\<lambda>i. if i \<in> activeIDs then cache i else None)\<rparr>, active))"

section \<open>The contract of a rule\<close>

text \<open>
  Every alert a rule returns is about the container it was given, fires now, and is critical or a
  warning; and what a rule reports depends on the container's configuration, not on the time.
\<close>

definition restamp :: "time \<Rightarrow> Alert \<Rightarrow> Alert" where
  "restamp now a = a\<lparr>a_FiredAt := now, a_ActiveSince := now\<rparr>"

locale security_rule =
  fixes eval :: rule
  assumes about: "a \<in> set (eval c j now) \<Longrightarrow>
      a_ContainerID a = cd_ID c \<and> a_ContainerName a = cd_Name c \<and> a_FiredAt a = now \<and> a_ActiveSince a = now \<and>
      a_Severity a \<in> {''critical'', ''warning''}"
    and timeless: "eval c j now' = map (restamp now') (eval c j now)"
begin

lemma silent_always: "eval c j now = [] \<Longrightarrow> eval c j now' = []"
  using timeless [of c j now' now] by simp

lemma severity_ranked: "a \<in> set (eval c j now) \<Longrightarrow> 2 \<le> severityWeight (a_Severity a)"
  using about [of a c j now] by (auto simp: severityWeight_def)

lemma same_names: "map a_RuleName (eval c j now') = map a_RuleName (eval c j now)"
  unfolding timeless [of c j now' now] by (simp add: restamp_def comp_def)

end

lemma sec_alert_restamp [simp]: "restamp now' (sec_alert n m v s c now) = sec_alert n m v s c now'"
  by (simp add: sec_alert_def restamp_def)

lemma sec_alert_simps [simp]:
  "a_ContainerID (sec_alert n m v s c now) = cd_ID c" "a_ContainerName (sec_alert n m v s c now) = cd_Name c"
  "a_FiredAt (sec_alert n m v s c now) = now" "a_ActiveSince (sec_alert n m v s c now) = now"
  "a_Severity (sec_alert n m v s c now) = s" "a_RuleName (sec_alert n m v s c now) = n"
  by (simp_all add: sec_alert_def)

interpretation privileged: security_rule PrivilegedModeRule
  by unfold_locales (auto simp: PrivilegedModeRule_def split: option.splits if_splits)

interpretation root_user: security_rule RootUserRule
  by unfold_locales (auto simp: RootUserRule_def Let_def split: if_splits)

interpretation db_port: security_rule "DBPortExposedRule portInt" for portInt
  by unfold_locales (auto simp: DBPortExposedRule_def dbAlerts_def map_concat comp_def cong: map_cong
      intro!: arg_cong [where f = concat] split: option.splits if_splits)

interpretation sensitive_caps: security_rule SensitiveCapsRule
  by unfold_locales (auto simp: SensitiveCapsRule_def comp_def split: option.splits)

interpretation quotas: security_rule ResourceQuotasRule
  by unfold_locales (auto simp: ResourceQuotasRule_def split: option.splits if_splits)

interpretation writable_root: security_rule WritableRootFSRule
  by unfold_locales (auto simp: WritableRootFSRule_def split: option.splits if_splits)

interpretation insecure_ports: security_rule InsecurePortsRule
  by unfold_locales (auto simp: InsecurePortsRule_def split: option.splits if_splits)

interpretation no_new_privs: security_rule NoNewPrivilegesRule
  by unfold_locales (auto simp: NoNewPrivilegesRule_def split: option.splits if_splits)

interpretation host_network: security_rule HostNetworkingRule
  by unfold_locales (auto simp: HostNetworkingRule_def split: option.splits if_splits)

interpretation mounts: security_rule SensitiveMountsRule
  by unfold_locales (auto simp: SensitiveMountsRule_def split: if_splits)

text \<open>A list of rules that keep the contract keeps it as a whole.\<close>

lemma run_rules_contract: "(\<And>r. r \<in> set rs \<Longrightarrow> security_rule r) \<Longrightarrow> security_rule (run_rules rs)"
proof
  fix c j now a assume rs: "\<And>r. r \<in> set rs \<Longrightarrow> security_rule r" and "a \<in> set (run_rules rs c j now)"
  then obtain r where "r \<in> set rs" "a \<in> set (r c j now)" by (auto simp: run_rules_def)
  then show "a_ContainerID a = cd_ID c \<and> a_ContainerName a = cd_Name c \<and> a_FiredAt a = now \<and> a_ActiveSince a = now \<and>
      a_Severity a \<in> {''critical'', ''warning''}"
    using security_rule.about [OF rs] by blast
next
  fix c j now now' assume rs: "\<And>r. r \<in> set rs \<Longrightarrow> security_rule r"
  then have "r c j now' = map (restamp now') (r c j now)" if "r \<in> set rs" for r
    using security_rule.timeless that by blast
  then show "run_rules rs c j now' = map (restamp now') (run_rules rs c j now)"
    by (simp add: run_rules_def map_concat comp_def cong: map_cong)
qed

interpretation default_rules: security_rule "run_rules (defaultRules portInt)" for portInt
  by (rule run_rules_contract)
    (auto simp: defaultRules_def intro: privileged.security_rule_axioms root_user.security_rule_axioms
      db_port.security_rule_axioms sensitive_caps.security_rule_axioms quotas.security_rule_axioms
      writable_root.security_rule_axioms insecure_ports.security_rule_axioms no_new_privs.security_rule_axioms
      host_network.security_rule_axioms mounts.security_rule_axioms)

section \<open>What an audit returns\<close>

text \<open>The alerts of one container: the cached ones with a new time, or those of a fresh inspection.\<close>

definition audit_of ::
  "(string \<Rightarrow> error + ContainerJSON) \<Rightarrow> time \<Rightarrow> Auditor \<Rightarrow> ContainerDisplay \<Rightarrow> Alert list option" where
  "audit_of insp now a c =
     (case au_cache a (cd_ID c) of
        Some cached \<Rightarrow> Some (map (fired_at now) cached)
      | None \<Rightarrow> (case insp (cd_ID c) of Inr j \<Rightarrow> Some (run_rules (au_rules a) c j now) | Inl _ \<Rightarrow> None))"

definition alerts_or_none :: "Alert list option \<Rightarrow> Alert list" where
  "alerts_or_none x = (case x of Some as \<Rightarrow> as | None \<Rightarrow> [])"

lemma alerts_or_none_simps [simp]: "alerts_or_none (Some as) = as" "alerts_or_none None = []"
  by (simp_all add: alerts_or_none_def)

abbreviation id_of :: "ContainerDisplay list \<Rightarrow> string set" where "id_of cs \<equiv> cd_ID ` set cs"

lemma checkCache_eq:
  "distinct (map cd_ID cs) \<Longrightarrow>
   checkCache now cs (cache, act, ti) =
     ((\<lambda>i. if i \<in> id_of cs then map_option (map (fired_at now)) (cache i) else cache i),
      act @ concat (map (\<lambda>c. alerts_or_none (map_option (map (fired_at now)) (cache (cd_ID c)))) cs),
      ti @ filter (\<lambda>c. cache (cd_ID c) = None) cs)"
proof (induction cs arbitrary: cache act ti)
  case (Cons c cs)
  have d: "distinct (map cd_ID cs)" "cd_ID c \<notin> id_of cs" using Cons.prems by simp_all
  show ?case
  proof (cases "cache (cd_ID c)")
    case None
    then show ?thesis using Cons.IH [OF d(1)] by (auto simp: fun_eq_iff)
  next
    case (Some as)
    let ?cache = "cache(cd_ID c \<mapsto> map (fired_at now) as)"
    have same: "?cache (cd_ID x) = cache (cd_ID x)" if "x \<in> set cs" for x
    proof -
      have "cd_ID x \<noteq> cd_ID c" using that d(2) by (metis imageI)
      then show ?thesis by simp
    qed
    have e1: "filter (\<lambda>x. ?cache (cd_ID x) = None) cs = filter (\<lambda>x. cache (cd_ID x) = None) cs"
      using same by (intro filter_cong; simp only:)
    have e2: "map (\<lambda>x. alerts_or_none (map_option (map (fired_at now)) (?cache (cd_ID x)))) cs =
       map (\<lambda>x. alerts_or_none (map_option (map (fired_at now)) (cache (cd_ID x)))) cs"
      using same by (intro map_cong; simp only:)
    have "checkCache now (c # cs) (cache, act, ti) = checkCache now cs (?cache, act @ map (fired_at now) as, ti)"
      using Some by (simp add: Let_def)
    then show ?thesis
      unfolding Cons.IH [OF d(1)] e1 e2 using Some d(2) by (auto simp: fun_eq_iff)
  qed
qed simp

definition fresh_alerts :: "(string \<Rightarrow> error + ContainerJSON) \<Rightarrow> rule list \<Rightarrow> time \<Rightarrow> ContainerDisplay \<Rightarrow> Alert list option" where
  "fresh_alerts insp rs now c = (case insp (cd_ID c) of Inr j \<Rightarrow> Some (run_rules rs c j now) | Inl _ \<Rightarrow> None)"

lemma inspectOne_eq:
  "inspectOne insp rs now c m = (case fresh_alerts insp rs now c of Some as \<Rightarrow> m(cd_ID c \<mapsto> as) | None \<Rightarrow> m)"
  by (simp add: inspectOne_def InspectContainer_def fresh_alerts_def split: sum.split)

lemma fold_inspect_other: "i \<notin> id_of cs \<Longrightarrow> fold (inspectOne insp rs now) cs m i = m i"
  by (induction cs arbitrary: m) (auto simp: inspectOne_eq split: option.split)

lemma fold_inspect_at:
  "distinct (map cd_ID cs) \<Longrightarrow> c \<in> set cs \<Longrightarrow> m (cd_ID c) = None \<Longrightarrow>
   fold (inspectOne insp rs now) cs m (cd_ID c) = fresh_alerts insp rs now c"
proof (induction cs arbitrary: m)
  case (Cons x cs)
  show ?case
  proof (cases "x = c")
    case True
    then have "cd_ID c \<notin> id_of cs" using Cons.prems(1) by simp
    then have "fold (inspectOne insp rs now) cs (inspectOne insp rs now c m) (cd_ID c) = inspectOne insp rs now c m (cd_ID c)"
      by (rule fold_inspect_other)
    then show ?thesis using True Cons.prems(3) by (simp add: inspectOne_eq [of insp rs now c m] split: option.split)
  next
    case False
    then have c: "c \<in> set cs" using Cons.prems(2) by simp
    then have "cd_ID x \<noteq> cd_ID c" using Cons.prems(1) by force
    then have "inspectOne insp rs now x m (cd_ID c) = None" using Cons.prems(3) by (simp add: inspectOne_eq split: option.split)
    then show ?thesis using Cons.IH [OF _ c] Cons.prems(1) by simp
  qed
qed simp

lemma storeNew_eq:
  "distinct (map cd_ID cs) \<Longrightarrow>
   storeNew m cs (cache, act) =
     ((\<lambda>i. if i \<in> id_of cs \<and> m i \<noteq> None then m i else cache i), act @ concat (map (\<lambda>c. alerts_or_none (m (cd_ID c))) cs))"
proof (induction cs arbitrary: cache act)
  case (Cons c cs)
  then show ?case by (cases "m (cd_ID c)") (auto simp: fun_eq_iff)
qed simp

lemma Audit_eq:
  assumes d: "distinct (map cd_ID cs)" and sched: "\<And>xs. mset (sched xs) = mset xs"
  shows "Audit sched insp now cs a =
     (a\<lparr>au_cache := (\<lambda>i. case List.find (\<lambda>c. cd_ID c = i) cs of None \<Rightarrow> None | Some c \<Rightarrow> audit_of insp now a c)\<rparr>,
      concat (map (\<lambda>c. alerts_or_none (map_option (map (fired_at now)) (au_cache a (cd_ID c)))) cs) @
      concat (map (\<lambda>c. alerts_or_none (fresh_alerts insp (au_rules a) now c)) (filter (\<lambda>c. au_cache a (cd_ID c) = None) cs)))"
proof -
  let ?ti = "filter (\<lambda>c. au_cache a (cd_ID c) = None) cs"
  let ?new = "fold (inspectOne insp (au_rules a) now) (sched ?ti) Map.empty"
  let ?cache = "\<lambda>i. if i \<in> id_of cs then map_option (map (fired_at now)) (au_cache a i) else au_cache a i"
  have dt: "distinct (map cd_ID ?ti)" using d by (rule distinct_map_filter)
  have ds: "distinct (map cd_ID (sched ?ti))" "set (sched ?ti) = set ?ti"
    using dt sched [of ?ti] by (metis mset_map mset_eq_imp_distinct_iff, metis set_mset_mset)
  have new: "?new (cd_ID c) = fresh_alerts insp (au_rules a) now c" if "c \<in> set ?ti" for c
    using fold_inspect_at [OF ds(1), of c] that ds(2) by auto
  have ti: "concat (map (\<lambda>c. alerts_or_none (?new (cd_ID c))) ?ti) =
      concat (map (\<lambda>c. alerts_or_none (fresh_alerts insp (au_rules a) now c)) ?ti)"
    using new by (intro arg_cong [where f = concat] map_cong) auto
  have ca: "(if i \<in> set (map cd_ID cs) then (if i \<in> id_of ?ti \<and> ?new i \<noteq> None then ?new i else ?cache i) else None) =
      (case List.find (\<lambda>c. cd_ID c = i) cs of None \<Rightarrow> None | Some c \<Rightarrow> audit_of insp now a c)" for i
  proof (cases "List.find (\<lambda>c. cd_ID c = i) cs")
    case None
    then have "i \<notin> set (map cd_ID cs)" by (auto simp: find_None_iff)
    then show ?thesis using None by simp
  next
    case (Some c)
    then have c: "c \<in> set cs" "cd_ID c = i" by (auto simp: find_Some_iff)
    show ?thesis
    proof (cases "au_cache a i")
      case None
      then have "c \<in> set ?ti" using c by simp
      then have ni: "?new i = fresh_alerts insp (au_rules a) now c" "i \<in> id_of ?ti" using new [of c] c(2) by auto
      have "audit_of insp now a c = fresh_alerts insp (au_rules a) now c"
        using None c(2) by (simp add: audit_of_def fresh_alerts_def split: sum.split)
      then show ?thesis using ni c None Some by auto
    next
      case (Some as)
      then have "i \<notin> id_of ?ti" by auto
      then show ?thesis using c \<open>List.find (\<lambda>c. cd_ID c = i) cs = Some c\<close> Some by (auto simp: audit_of_def)
    qed
  qed
  have same: "(if length xs > 0 then storeNew m xs st else st) = storeNew m xs st" for m xs st
    by (cases xs) simp_all
  show ?thesis
    unfolding Audit_def checkCache_eq [OF d] Let_def prod.case append_Nil same storeNew_eq [OF dt] ti ca ..
qed

lemma mset_concat_split:
  assumes "\<And>c. c \<in> set cs \<Longrightarrow> mset (f c) = mset (g c) + (if P c then mset (h c) else {#})"
  shows "mset (concat (map f cs)) = mset (concat (map g cs)) + mset (concat (map h (filter P cs)))"
  using assms by (induction cs) auto

lemma Audit_mset:
  assumes "distinct (map cd_ID cs)" "\<And>xs. mset (sched xs) = mset xs"
  shows "mset (snd (Audit sched insp now cs a)) = mset (concat (map (\<lambda>c. alerts_or_none (audit_of insp now a c)) cs))"
proof -
  have "mset (concat (map (\<lambda>c. alerts_or_none (audit_of insp now a c)) cs)) =
      mset (concat (map (\<lambda>c. alerts_or_none (map_option (map (fired_at now)) (au_cache a (cd_ID c)))) cs)) +
      mset (concat (map (\<lambda>c. alerts_or_none (fresh_alerts insp (au_rules a) now c)) (filter (\<lambda>c. au_cache a (cd_ID c) = None) cs)))"
    by (rule mset_concat_split) (auto simp: audit_of_def fresh_alerts_def split: option.split sum.split)
  then show ?thesis unfolding Audit_eq [OF assms] by simp
qed

lemma Audit_cache:
  assumes "distinct (map cd_ID cs)" "\<And>xs. mset (sched xs) = mset xs"
  shows "c \<in> set cs \<Longrightarrow> au_cache (fst (Audit sched insp now cs a)) (cd_ID c) = audit_of insp now a c"
    and "i \<notin> id_of cs \<Longrightarrow> au_cache (fst (Audit sched insp now cs a)) i = None"
    and "au_rules (fst (Audit sched insp now cs a)) = au_rules a"
proof -
  assume c: "c \<in> set cs"
  then obtain c' where f: "List.find (\<lambda>x. cd_ID x = cd_ID c) cs = Some c'"
    by (cases "List.find (\<lambda>x. cd_ID x = cd_ID c) cs") (auto simp: find_None_iff)
  then have "c' \<in> set cs" "cd_ID c' = cd_ID c" by (auto simp: find_Some_iff)
  then have "c' = c" using assms(1) c by (meson distinct_map inj_onD)
  then show "au_cache (fst (Audit sched insp now cs a)) (cd_ID c) = audit_of insp now a c"
    unfolding Audit_eq [OF assms] using f by simp
next
  assume "i \<notin> id_of cs"
  then have "List.find (\<lambda>c. cd_ID c = i) cs = None" by (auto simp: find_None_iff)
  then show "au_cache (fst (Audit sched insp now cs a)) i = None" unfolding Audit_eq [OF assms] by simp
next
  show "au_rules (fst (Audit sched insp now cs a)) = au_rules a" unfolding Audit_eq [OF assms] by simp
qed

section \<open>Risks\<close>

text \<open>
  What the auditor is meant to object to, stated on the configuration that Docker reports and apart from
  the rules: the name and the severity of each risk a configuration has. A port is \<open>number/protocol\<close>.
\<close>

inductive risk :: "ContainerJSON \<Rightarrow> string \<Rightarrow> string \<Rightarrow> bool" where
  risk_privileged: "cj_HostConfig j = Some hc \<Longrightarrow> hc_Privileged hc \<Longrightarrow> risk j ''Sec: Privileged Mode'' ''critical''"
| risk_default_user: "cj_Config j = None \<Longrightarrow> risk j ''Sec: Root User'' ''warning''"
| risk_root_user: "cj_Config j = Some cfg \<Longrightarrow> cc_User cfg \<in> {'''', ''root'', ''0''} \<Longrightarrow> risk j ''Sec: Root User'' ''warning''"
| risk_database:
    "cj_Ports j = Some ports \<Longrightarrow> (nat_str n @ ''/'' @ proto, ips) \<in> set ports \<Longrightarrow> n \<in> {3306, 5432, 27017, 6379} \<Longrightarrow>
     ip \<in> set ips \<Longrightarrow> ip \<in> {''0.0.0.0'', '''', ''::''} \<Longrightarrow> risk j ''Sec: DB Port Exposed globally'' ''critical''"
| risk_capability:
    "cj_HostConfig j = Some hc \<Longrightarrow> cap \<in> set (hc_CapAdd hc) \<Longrightarrow>
     cap \<in> {''SYS_ADMIN'', ''NET_ADMIN'', ''SYS_PTRACE'', ''DAC_OVERRIDE'', ''SYS_RAWIO'', ''SYS_MODULE'', ''NET_RAW''} \<Longrightarrow>
     risk j ''Sec: Sensitive CAP_ADD'' ''warning''"
| risk_memory: "cj_HostConfig j = Some hc \<Longrightarrow> hc_Memory hc = 0 \<Longrightarrow> risk j ''Sec: No Resource Quotas'' ''warning''"
| risk_cpu: "cj_HostConfig j = Some hc \<Longrightarrow> hc_NanoCPUs hc = 0 \<Longrightarrow> risk j ''Sec: No Resource Quotas'' ''warning''"
| risk_rootfs: "cj_HostConfig j = Some hc \<Longrightarrow> \<not> hc_ReadonlyRootfs hc \<Longrightarrow> risk j ''Sec: Writable RootFS'' ''warning''"
| risk_remote_shell:
    "cj_Ports j = Some ports \<Longrightarrow> (nat_str n @ ''/'' @ proto, ips) \<in> set ports \<Longrightarrow> n \<in> {22, 23} \<Longrightarrow>
     risk j ''Sec: Insecure Port Exposed'' ''critical''"
| risk_privileges:
    "cj_HostConfig j = Some hc \<Longrightarrow> (\<And>a b. a @ ''no-new-privileges'' @ b \<notin> set (hc_SecurityOpt hc)) \<Longrightarrow>
     risk j ''Sec: Missing No-New-Privileges'' ''warning''"
| risk_host_network: "cj_HostConfig j = Some hc \<Longrightarrow> hc_NetworkMode hc = ''host'' \<Longrightarrow> risk j ''Sec: Host Networking Mode'' ''critical''"
| risk_docker_socket:
    "m \<in> set (cj_Mounts j) \<Longrightarrow> mp_Source m = a @ ''docker.sock'' @ b \<Longrightarrow> risk j ''Sec: Docker Socket Mounted'' ''critical''"

abbreviation kind_of :: "Alert \<Rightarrow> string \<times> string" where "kind_of a \<equiv> (a_RuleName a, a_Severity a)"

lemma contains_no_new_privileges:
  "str_contains opt ''no-new-privileges:true'' \<or> str_contains opt ''no-new-privileges'' \<longleftrightarrow> str_contains opt ''no-new-privileges''"
  using str_contains_trans [of opt "''no-new-privileges:true''" "''no-new-privileges''"]
    str_contains_mid [of "[]" "''no-new-privileges''" "'':true''"] by auto

lemma digits:
  "digit_char 0 = CHR ''0''" "digit_char 1 = CHR ''1''" "digit_char 2 = CHR ''2''" "digit_char 3 = CHR ''3''" "digit_char 4 = CHR ''4''"
  "digit_char 5 = CHR ''5''" "digit_char 6 = CHR ''6''" "digit_char 7 = CHR ''7''" "digit_char 9 = CHR ''9''"
  by code_simp+

lemma port_numbers:
  "nat_str 3306 = ''3306''" "nat_str 5432 = ''5432''" "nat_str 27017 = ''27017''" "nat_str 6379 = ''6379''"
  "nat_str 22 = ''22''" "nat_str 23 = ''23''"
  by (simp_all add: nat_str_step nat_str_small digits digits(2) [unfolded One_nat_def])

lemma isDBPort_iff: "isDBPort p \<longleftrightarrow> (\<exists>n \<in> {3306, 5432, 27017, 6379}. \<exists>proto. p = nat_str n @ ''/'' @ proto)"
  by (simp add: isDBPort_def has_prefix_iff port_numbers)

lemma shell_port_iff: "has_prefix p ''22/'' \<or> has_prefix p ''23/'' \<longleftrightarrow> (\<exists>n \<in> {22, 23}. \<exists>proto. p = nat_str n @ ''/'' @ proto)"
  by (simp add: has_prefix_iff port_numbers)

text \<open>The names and severities that each rule reports.\<close>

lemma reports:
  "kind_of ` set (PrivilegedModeRule c j now) =
     {k. k = (''Sec: Privileged Mode'', ''critical'') \<and> (\<exists>hc. cj_HostConfig j = Some hc \<and> hc_Privileged hc)}"
  "kind_of ` set (RootUserRule c j now) =
     {k. k = (''Sec: Root User'', ''warning'') \<and> (\<forall>cfg. cj_Config j = Some cfg \<longrightarrow> cc_User cfg \<in> {'''', ''root'', ''0''})}"
  "kind_of ` set (DBPortExposedRule portInt c j now) =
     {k. k = (''Sec: DB Port Exposed globally'', ''critical'') \<and>
         (\<exists>ports p ips ip. cj_Ports j = Some ports \<and> (p, ips) \<in> set ports \<and> isDBPort p \<and> ip \<in> set ips \<and> isGloballyExposed ip)}"
  "kind_of ` set (SensitiveCapsRule c j now) =
     {k. k = (''Sec: Sensitive CAP_ADD'', ''warning'') \<and>
         (\<exists>hc cap. cj_HostConfig j = Some hc \<and> cap \<in> set (hc_CapAdd hc) \<and> cap \<in> set sensitiveCaps)}"
  "kind_of ` set (ResourceQuotasRule c j now) =
     {k. k = (''Sec: No Resource Quotas'', ''warning'') \<and> (\<exists>hc. cj_HostConfig j = Some hc \<and> (hc_Memory hc = 0 \<or> hc_NanoCPUs hc = 0))}"
  "kind_of ` set (WritableRootFSRule c j now) =
     {k. k = (''Sec: Writable RootFS'', ''warning'') \<and> (\<exists>hc. cj_HostConfig j = Some hc \<and> \<not> hc_ReadonlyRootfs hc)}"
  "kind_of ` set (InsecurePortsRule c j now) =
     {k. k = (''Sec: Insecure Port Exposed'', ''critical'') \<and>
         (\<exists>ports p ips. cj_Ports j = Some ports \<and> (p, ips) \<in> set ports \<and> (has_prefix p ''22/'' \<or> has_prefix p ''23/''))}"
  "kind_of ` set (NoNewPrivilegesRule c j now) =
     {k. k = (''Sec: Missing No-New-Privileges'', ''warning'') \<and>
         (\<exists>hc. cj_HostConfig j = Some hc \<and> (\<forall>opt \<in> set (hc_SecurityOpt hc). \<not> str_contains opt ''no-new-privileges''))}"
  "kind_of ` set (HostNetworkingRule c j now) =
     {k. k = (''Sec: Host Networking Mode'', ''critical'') \<and> (\<exists>hc. cj_HostConfig j = Some hc \<and> hc_NetworkMode hc = ''host'')}"
  "kind_of ` set (SensitiveMountsRule c j now) =
     {k. k = (''Sec: Docker Socket Mounted'', ''critical'') \<and> (\<exists>m \<in> set (cj_Mounts j). str_contains (mp_Source m) ''docker.sock'')}"
proof -
  show "kind_of ` set (NoNewPrivilegesRule c j now) =
     {k. k = (''Sec: Missing No-New-Privileges'', ''warning'') \<and>
         (\<exists>hc. cj_HostConfig j = Some hc \<and> (\<forall>opt \<in> set (hc_SecurityOpt hc). \<not> str_contains opt ''no-new-privileges''))}"
    unfolding NoNewPrivilegesRule_def contains_no_new_privileges
    by (cases "cj_HostConfig j") (auto simp: list_ex_iff simp del: str_contains.simps)
  show "kind_of ` set (DBPortExposedRule portInt c j now) =
     {k. k = (''Sec: DB Port Exposed globally'', ''critical'') \<and>
         (\<exists>ports p ips ip. cj_Ports j = Some ports \<and> (p, ips) \<in> set ports \<and> isDBPort p \<and> ip \<in> set ips \<and> isGloballyExposed ip)}"
    by (cases "cj_Ports j") (force simp: DBPortExposedRule_def dbAlerts_def image_iff split: if_splits)+
  show "kind_of ` set (InsecurePortsRule c j now) =
     {k. k = (''Sec: Insecure Port Exposed'', ''critical'') \<and>
         (\<exists>ports p ips. cj_Ports j = Some ports \<and> (p, ips) \<in> set ports \<and> (has_prefix p ''22/'' \<or> has_prefix p ''23/''))}"
    by (cases "cj_Ports j") (auto simp: InsecurePortsRule_def list_ex_iff split: if_splits)
  show "kind_of ` set (SensitiveCapsRule c j now) =
     {k. k = (''Sec: Sensitive CAP_ADD'', ''warning'') \<and>
         (\<exists>hc cap. cj_HostConfig j = Some hc \<and> cap \<in> set (hc_CapAdd hc) \<and> cap \<in> set sensitiveCaps)}"
    by (cases "cj_HostConfig j") (auto simp: SensitiveCapsRule_def image_iff)
qed (cases "cj_HostConfig j"; cases "cj_Config j"; auto simp: PrivilegedModeRule_def RootUserRule_def ResourceQuotasRule_def
    WritableRootFSRule_def HostNetworkingRule_def SensitiveMountsRule_def list_ex_iff Let_def)+

lemmas risk_conditions = isDBPort_iff shell_port_iff isGloballyExposed_def sensitiveCaps_def str_contains_iff

lemma run_rules_kinds:
  "kind_of ` set (run_rules (defaultRules portInt) c j now) = (\<Union>rule \<in> set (defaultRules portInt). kind_of ` set (rule c j now))"
  by (auto simp: run_rules_def)

text \<open>Every risk is reported by a rule, and every rule reports risks only.\<close>

lemma risk_rule: "risk j r s \<Longrightarrow> \<exists>rule \<in> set (defaultRules portInt). (r, s) \<in> kind_of ` set (rule c j now)"
proof (induction rule: risk.induct)
  case (risk_privileged j hc)
  then show ?case by (intro bexI [of _ PrivilegedModeRule]) (simp_all add: reports defaultRules_def)
next
  case (risk_default_user j)
  then show ?case by (intro bexI [of _ RootUserRule]) (simp_all add: reports defaultRules_def)
next
  case (risk_root_user j cfg)
  then show ?case by (intro bexI [of _ RootUserRule]) (simp_all add: reports defaultRules_def)
next
  case (risk_database j ports n proto ips ip)
  then have "isDBPort (nat_str n @ ''/'' @ proto)" "isGloballyExposed ip" by (auto simp: isDBPort_iff isGloballyExposed_def)
  then show ?case using risk_database
    by (intro bexI [of _ "DBPortExposedRule portInt"]) (auto simp: reports defaultRules_def)
next
  case (risk_capability j hc cap)
  then have "cap \<in> set sensitiveCaps" by (simp add: sensitiveCaps_def)
  then show ?case using risk_capability
    by (intro bexI [of _ SensitiveCapsRule]) (auto simp: reports defaultRules_def)
next
  case (risk_memory j hc)
  then show ?case by (intro bexI [of _ ResourceQuotasRule]) (simp_all add: reports defaultRules_def)
next
  case (risk_cpu j hc)
  then show ?case by (intro bexI [of _ ResourceQuotasRule]) (simp_all add: reports defaultRules_def)
next
  case (risk_rootfs j hc)
  then show ?case by (intro bexI [of _ WritableRootFSRule]) (simp_all add: reports defaultRules_def)
next
  case (risk_remote_shell j ports n proto ips)
  then have "has_prefix (nat_str n @ ''/'' @ proto) ''22/'' \<or> has_prefix (nat_str n @ ''/'' @ proto) ''23/''"
    unfolding shell_port_iff by blast
  then show ?case using risk_remote_shell
    by (intro bexI [of _ InsecurePortsRule]) (auto simp: reports defaultRules_def)
next
  case (risk_privileges j hc)
  then have "\<forall>opt \<in> set (hc_SecurityOpt hc). \<not> str_contains opt ''no-new-privileges''" by (auto simp: str_contains_iff)
  then show ?case using risk_privileges.hyps(1)
    by (intro bexI [of _ NoNewPrivilegesRule]) (simp_all add: reports defaultRules_def)
next
  case (risk_host_network j hc)
  then show ?case by (intro bexI [of _ HostNetworkingRule]) (simp_all add: reports defaultRules_def)
next
  case (risk_docker_socket m j a b)
  then show ?case by (intro bexI [of _ SensitiveMountsRule]) (auto simp: reports defaultRules_def str_contains_iff)
qed

lemma rule_risk:
  "(r, s) \<in> kind_of ` set (PrivilegedModeRule c j now) \<Longrightarrow> risk j r s"
  "(r, s) \<in> kind_of ` set (RootUserRule c j now) \<Longrightarrow> risk j r s"
  "(r, s) \<in> kind_of ` set (DBPortExposedRule portInt c j now) \<Longrightarrow> risk j r s"
  "(r, s) \<in> kind_of ` set (SensitiveCapsRule c j now) \<Longrightarrow> risk j r s"
  "(r, s) \<in> kind_of ` set (ResourceQuotasRule c j now) \<Longrightarrow> risk j r s"
  "(r, s) \<in> kind_of ` set (WritableRootFSRule c j now) \<Longrightarrow> risk j r s"
  "(r, s) \<in> kind_of ` set (InsecurePortsRule c j now) \<Longrightarrow> risk j r s"
  "(r, s) \<in> kind_of ` set (NoNewPrivilegesRule c j now) \<Longrightarrow> risk j r s"
  "(r, s) \<in> kind_of ` set (HostNetworkingRule c j now) \<Longrightarrow> risk j r s"
  "(r, s) \<in> kind_of ` set (SensitiveMountsRule c j now) \<Longrightarrow> risk j r s"
  unfolding reports mem_Collect_eq prod.inject risk_conditions
  subgoal by (blast intro: risk_privileged)
  subgoal by (cases "cj_Config j") (blast intro: risk_default_user risk_root_user)+
  subgoal by (elim conjE exE bexE) (simp only:, rule risk_database, assumption+, blast)
  subgoal by (elim conjE exE) (simp only:, rule risk_capability, assumption+, simp)
  subgoal by (blast intro: risk_memory risk_cpu)
  subgoal by (blast intro: risk_rootfs)
  subgoal by (elim conjE exE bexE) (simp only:, rule risk_remote_shell, assumption+)
  subgoal by (elim conjE exE) (simp only:, rule risk_privileges, assumption, blast)
  subgoal by (blast intro: risk_host_network)
  subgoal by (elim conjE exE bexE) (simp only:, rule risk_docker_socket, assumption+)
  done

lemma audit_kinds: "(r, s) \<in> kind_of ` set (run_rules (defaultRules portInt) c j now) \<longleftrightarrow> risk j r s"
proof
  assume "(r, s) \<in> kind_of ` set (run_rules (defaultRules portInt) c j now)"
  then obtain rule where "rule \<in> set (defaultRules portInt)" "(r, s) \<in> kind_of ` set (rule c j now)"
    unfolding run_rules_kinds by blast
  then show "risk j r s" unfolding defaultRules_def list.set insert_iff empty_iff
    by - (elim disjE FalseE; simp only:; erule rule_risk)
next
  assume "risk j r s"
  from risk_rule [OF this, of portInt c now] show "(r, s) \<in> kind_of ` set (run_rules (defaultRules portInt) c j now)"
    unfolding run_rules_kinds UN_iff .
qed

section \<open>Properties\<close>

text \<open>
  C18: an audit by a new auditor of containers with different IDs reports exactly their risks: for a
  container that can be inspected, there is an alert of a given name and severity if and only if its
  configuration has that risk, whatever the order in which the inspections finish; and every alert
  names one of the containers and fires now. The risks are: privileged mode, the root user, a database
  port (3306, 5432, 27017, 6379) bound to all addresses, an added capability out of seven as spelled
  there, a missing memory or CPU limit, a writable root file system, port 22 or 23, host networking, a
  mount of the Docker socket, and no security option that mentions no-new-privileges, whatever value the
  option gives to it.
\<close>

theorem audit_reports_exactly_the_risks:
  fixes now :: time and portInt
  assumes "distinct (map cd_ID cs)" "\<And>xs. mset (sched xs) = mset xs" "c \<in> set cs" "insp (cd_ID c) = Inr j"
  defines "alerts \<equiv> snd (Audit sched insp now cs (NewAuditor portInt))"
  shows "((\<exists>a \<in> set alerts. a_ContainerID a = cd_ID c \<and> a_RuleName a = r \<and> a_Severity a = s) \<longleftrightarrow> risk j r s)
    \<and> (\<forall>a \<in> set alerts. a_FiredAt a = now \<and> (\<exists>x \<in> set cs. a_ContainerID a = cd_ID x \<and> a_ContainerName a = cd_Name x))"
proof -
  let ?run = "run_rules (defaultRules portInt)"
  have mem: "a \<in> set alerts \<longleftrightarrow> (\<exists>x \<in> set cs. \<exists>i. insp (cd_ID x) = Inr i \<and> a \<in> set (?run x i now))" for a
  proof -
    have "set alerts = (\<Union>x \<in> set cs. set (alerts_or_none (audit_of insp now (NewAuditor portInt) x)))"
      using arg_cong [OF Audit_mset [OF assms(1,2), of insp now "NewAuditor portInt"], of set_mset]
      unfolding alerts_def set_mset_mset by simp
    moreover have "set (alerts_or_none (audit_of insp now (NewAuditor portInt) x)) = {a. \<exists>i. insp (cd_ID x) = Inr i \<and> a \<in> set (?run x i now)}" for x
      by (cases "insp (cd_ID x)") (simp_all add: audit_of_def NewAuditor_def)
    ultimately show ?thesis by blast
  qed
  have same: "x = c" if "x \<in> set cs" "cd_ID x = cd_ID c" for x using that assms(1,3) by (meson distinct_map inj_onD)
  have about: "a_ContainerID a = cd_ID x" if "a \<in> set (?run x i now)" for a x i using default_rules.about that by blast
  have only: "a \<in> set alerts \<and> a_ContainerID a = cd_ID c \<longleftrightarrow> a \<in> set (?run c j now)" for a
    unfolding mem using same about assms(3,4) by (metis sum.inject(2))
  have "(\<exists>a \<in> set alerts. a_ContainerID a = cd_ID c \<and> a_RuleName a = r \<and> a_Severity a = s) \<longleftrightarrow> (r, s) \<in> kind_of ` set (?run c j now)"
    using only by (auto simp: image_iff)
  moreover have "\<forall>a \<in> set alerts. a_FiredAt a = now \<and> (\<exists>x \<in> set cs. a_ContainerID a = cd_ID x \<and> a_ContainerName a = cd_Name x)"
    unfolding Ball_def mem using default_rules.about by fast
  ultimately show ?thesis using audit_kinds by blast
qed

text \<open>
  C17: an audit of containers with different IDs returns, for each of them, the cached alerts with
  the current time or else the alerts of a fresh inspection, whatever the order in which the
  inspections finish; afterwards the cache holds exactly these results, and only for these containers.
\<close>

theorem audit_results:
  assumes "distinct (map cd_ID cs)" "\<And>xs. mset (sched xs) = mset xs"
  shows "mset (snd (Audit sched insp now cs a)) = mset (concat (map (\<lambda>c. alerts_or_none (audit_of insp now a c)) cs))
     \<and> (\<forall>c \<in> set cs. au_cache (fst (Audit sched insp now cs a)) (cd_ID c) = audit_of insp now a c)
     \<and> (\<forall>i. i \<notin> cd_ID ` set cs \<longrightarrow> au_cache (fst (Audit sched insp now cs a)) i = None)"
  using Audit_mset [OF assms] Audit_cache [OF assms] by blast

definition ex_display :: "string \<Rightarrow> ContainerDisplay" where
  "ex_display i = \<lparr>cd_HostID = '''', cd_ID = i, cd_Name = ''web'', cd_Image = '''', cd_Status = '''', cd_State = '''', cd_Command = '''',
     cd_Ports = '''', cd_Created = '''', cd_Networks = [], cd_Labels = [], cd_SizeRw = '''', cd_Env = [], cd_HealthStatus = '''',
     cd_HealthLog = '''', cd_Mounts = [], cd_RestartPolicy = '''', cd_RestartCount = 0, cd_CPULimit = Fin 0, cd_MemoryLimit = 0,
     cd_Entrypoint = ''''\<rparr>"

theorem audit_results_witness:
  "au_cache (fst (Audit rev (\<lambda>_. Inr ex_inspect) 5 [ex_display ''a'', ex_display ''b''] (NewAuditor (\<lambda>_. 0)))) ''c'' = None"
proof -
  have d: "distinct (map cd_ID [ex_display ''a'', ex_display ''b''])" by (simp add: ex_display_def)
  have "''c'' \<notin> cd_ID ` set [ex_display ''a'', ex_display ''b'']" by (simp add: ex_display_def)
  then show ?thesis
    using audit_results [OF d, of rev "\<lambda>_. Inr ex_inspect" 5 "NewAuditor (\<lambda>_. 0)"] by simp
qed

text \<open>A container that has the Docker socket and adds \<open>SYS_ADMIN\<close>, and is otherwise in order.\<close>

definition ex_risky :: "string list \<Rightarrow> string list \<Rightarrow> MountPoint list \<Rightarrow> ContainerJSON" where
  "ex_risky caps opts mounts =
     \<lparr>cj_Config = Some \<lparr>cc_User = ''app'', cc_Env = [], cc_Entrypoint = [], cc_Cmd = []\<rparr>, cj_Health = None,
      cj_HostConfig = Some \<lparr>hc_RestartPolicyName = '''', hc_MaximumRetryCount = 0, hc_NanoCPUs = 1, hc_Memory = 1, hc_Privileged = False,
        hc_CapAdd = caps, hc_ReadonlyRootfs = True, hc_SecurityOpt = opts, hc_NetworkMode = ''bridge''\<rparr>,
      cj_RestartCount = 0, cj_Mounts = mounts, cj_Ports = Some [(''5432/tcp'', [''127.0.0.1''])]\<rparr>"

theorem audit_reports_exactly_the_risks_witness:
  "let alerts = snd (Audit rev (\<lambda>i. if i = ''a'' then Inr (ex_risky [''SYS_ADMIN''] [''no-new-privileges''] []) else Inl ''gone'') 5
       [ex_display ''a'', ex_display ''b''] (NewAuditor (\<lambda>_. 0)))
   in (\<exists>a \<in> set alerts. a_ContainerID a = ''a'' \<and> a_RuleName a = ''Sec: Sensitive CAP_ADD'' \<and> a_Severity a = ''warning'') \<and>
      \<not> (\<exists>a \<in> set alerts. a_ContainerID a = ''a'' \<and> a_RuleName a = ''Sec: Privileged Mode'' \<and> a_Severity a = ''critical'')"
proof -
  let ?j = "ex_risky [''SYS_ADMIN''] [''no-new-privileges''] []"
  let ?insp = "\<lambda>i. if i = ''a'' then Inr ?j else Inl ''gone''"
  have d: "distinct (map cd_ID [ex_display ''a'', ex_display ''b''])" "ex_display ''a'' \<in> set [ex_display ''a'', ex_display ''b'']"
    "?insp (cd_ID (ex_display ''a'')) = Inr ?j" "cd_ID (ex_display ''a'') = ''a''"
    by (simp_all add: ex_display_def)
  have r: "risk ?j ''Sec: Sensitive CAP_ADD'' ''warning''" by (rule risk_capability [where hc = "the (cj_HostConfig ?j)" and cap = "''SYS_ADMIN''"]) (simp_all add: ex_risky_def)
  have p: "\<not> risk ?j ''Sec: Privileged Mode'' ''critical''" by (auto simp: risk.simps ex_risky_def)
  have "mset (rev xs) = mset xs" for xs :: "ContainerDisplay list" by simp
  note t = audit_reports_exactly_the_risks [where insp = ?insp and now = 5 and portInt = "\<lambda>_. 0", OF d(1) this d(2,3), unfolded d(4)]
  show ?thesis unfolding Let_def
    using t [of "''Sec: Sensitive CAP_ADD''" "''warning''"] t [of "''Sec: Privileged Mode''" "''critical''"] r p by simp
qed

text \<open>
  Where the audit is blind: a container that adds all capabilities, or one under its prefixed name, and
  switches no-new-privileges off gives no alert.
\<close>

lemma audit_blind_spots:
  "run_rules (defaultRules portInt) c (ex_risky [''ALL'', ''CAP_SYS_ADMIN''] [''no-new-privileges:false''] []) now = []"
  by (simp add: run_rules_def defaultRules_def ex_risky_def PrivilegedModeRule_def RootUserRule_def DBPortExposedRule_def dbAlerts_def
      SensitiveCapsRule_def sensitiveCaps_def ResourceQuotasRule_def WritableRootFSRule_def InsecurePortsRule_def NoNewPrivilegesRule_def
      HostNetworkingRule_def SensitiveMountsRule_def isDBPort_def isGloballyExposed_def has_prefix_def)

text \<open>
  A second audit of the same containers repeats the first one's alerts with the new time and
  does not depend on the Docker daemon any more, even if it has become unreachable.
\<close>

theorem audit_cached_repeat:
  assumes "distinct (map cd_ID cs)" "\<And>xs. mset (sched xs) = mset xs" "\<And>xs. mset (sched' xs) = mset xs"
    and "\<forall>c \<in> set cs. \<exists>j. insp (cd_ID c) = Inr j"
    and "Audit sched insp now cs a = (a', alerts)"
  shows "mset (snd (Audit sched' insp' now' cs a')) = image_mset (fired_at now') (mset alerts)"
proof -
  have some: "audit_of insp now a c \<noteq> None" if "c \<in> set cs" for c
    using assms(4) that by (auto simp: audit_of_def split: option.split)
  have cached: "au_cache a' (cd_ID c) = audit_of insp now a c" if "c \<in> set cs" for c
    using Audit_cache(1) [OF assms(1,2) that, of insp now a] assms(5) by simp
  have "alerts_or_none (audit_of insp' now' a' c) = map (fired_at now') (alerts_or_none (audit_of insp now a c))" if "c \<in> set cs" for c
    using cached [OF that] some [OF that] by (auto simp: audit_of_def [of insp'])
  then have "map (\<lambda>c. alerts_or_none (audit_of insp' now' a' c)) cs =
      map (map (fired_at now')) (map (\<lambda>c. alerts_or_none (audit_of insp now a c)) cs)" by simp
  then have "mset (snd (Audit sched' insp' now' cs a')) =
      image_mset (fired_at now') (mset (concat (map (\<lambda>c. alerts_or_none (audit_of insp now a c)) cs)))"
    unfolding Audit_mset [OF assms(1,3)] by (metis map_concat mset_map)
  also have "mset (concat (map (\<lambda>c. alerts_or_none (audit_of insp now a c)) cs)) = mset alerts"
    using Audit_mset [OF assms(1,2), of insp now a] assms(5) by simp
  finally show ?thesis .
qed

theorem audit_cached_repeat_witness:
  "mset (snd (Audit id (\<lambda>_. Inl ''down'') 9 [ex_display ''a'']
      (fst (Audit rev (\<lambda>_. Inr ex_inspect) 5 [ex_display ''a''] (NewAuditor (\<lambda>_. 0)))))) =
   image_mset (fired_at 9) (mset (snd (Audit rev (\<lambda>_. Inr ex_inspect) 5 [ex_display ''a''] (NewAuditor (\<lambda>_. 0)))))"
  by (rule audit_cached_repeat [where sched = rev and insp = "\<lambda>_. Inr ex_inspect" and now = 5 and a = "NewAuditor (\<lambda>_. 0)"])
    simp_all

end
