(* ===== verification/Topology.thy ===== *)
theory Topology
  imports Docker
begin

text \<open>
  \<^verbatim>\<open>internal/topology/mapper.go\<close> and \<^verbatim>\<open>internal/collector/container.go\<close>: the map of networks and the
  containers on them, and the collector that flattens the stats of all containers into a list. Both
  work on the answers of the Docker client.
\<close>

section \<open>The network map\<close>

record NetworkNode =
  nn_ContainerName :: string
  nn_ContainerID :: string
  nn_IPv4Address :: string

record NetworkEdge =
  ne_NetworkName :: string
  ne_NetworkID :: string
  ne_Driver :: string
  ne_Nodes :: "NetworkNode list"

definition strip_mask :: "string \<Rightarrow> string" where
  "strip_mask ip = (case index_byte ip (CHR ''/'') of Some idx \<Rightarrow> take idx ip | None \<Rightarrow> ip)"

definition toNode :: "string \<times> Endpoint \<Rightarrow> NetworkNode" where
  "toNode x =
     \<lparr>nn_ContainerName = en_Name (snd x), nn_ContainerID = short_id (fst x),
      nn_IPv4Address = strip_mask (en_IPv4Address (snd x))\<rparr>"

fun buildEdges :: "NetworkInspect list \<Rightarrow> NetworkEdge list" where
  "buildEdges [] = []"
| "buildEdges (n # ns) =
     (if ni_Name n = ''host'' \<or> ni_Name n = ''none'' then buildEdges ns
      else
        let nodes = map toNode (ni_Containers n)
        in if length nodes > 0 then
             \<lparr>ne_NetworkName = ni_Name n, ne_NetworkID = short_id (ni_ID n), ne_Driver = ni_Driver n, ne_Nodes = nodes\<rparr> # buildEdges ns
           else buildEdges ns)"

definition BuildMap :: "(error + NetworkInspect list) \<Rightarrow> error + NetworkEdge list" where
  "BuildMap listed = (case listed of Inl err \<Rightarrow> Inl err | Inr nets \<Rightarrow> Inr (buildEdges nets))"

section \<open>The collector\<close>

text \<open>\<open>Collect\<close>: \<open>client\<close> is \<open>None\<close> for a nil client, and otherwise its two calls.\<close>

definition Collect ::
  "((error + ContainerInfo list) \<times> (ContainerInfo list \<Rightarrow> error + stats_range)) option \<Rightarrow> error + ContainerMetrics list" where
  "Collect client =
     (case client of
        None \<Rightarrow> Inl ''collector: docker client is not initialized''
      | Some (listed, getStats) \<Rightarrow>
          (case listed of
             Inl err \<Rightarrow> Inl (''collector: failed to list running containers: '' @ err)
           | Inr containers \<Rightarrow>
               (case getStats containers of
                  Inl err \<Rightarrow> Inl (''collector: failed to get container stats: '' @ err)
                | Inr r \<Rightarrow> Inr (map snd r))))"

lemma strip_mask_no_slash: "CHR ''/'' \<notin> set (strip_mask ip)"
  by (auto simp: strip_mask_def index_byte_Some split: option.split)

lemma strip_mask_prefix: "c = CHR ''/'' \<Longrightarrow> c \<notin> set a \<Longrightarrow> strip_mask (a @ c # m) = a"
  by (simp add: strip_mask_def index_byte_Some [THEN iffD2, of "length a"] nth_append)

lemma buildEdges_eq:
  "buildEdges ns =
     map (\<lambda>n. \<lparr>ne_NetworkName = ni_Name n, ne_NetworkID = short_id (ni_ID n), ne_Driver = ni_Driver n,
               ne_Nodes = map toNode (ni_Containers n)\<rparr>)
       (filter (\<lambda>n. ni_Name n \<noteq> ''host'' \<and> ni_Name n \<noteq> ''none'' \<and> ni_Containers n \<noteq> []) ns)"
  by (induction ns) (auto simp: Let_def)

section \<open>Properties\<close>

text \<open>
  The map shows the user-defined networks that have containers, in the daemon's order, each
  with one node per container; addresses are shown without the mask and IDs have at most twelve
  characters.
\<close>

theorem network_map_exact:
  "BuildMap (Inr nets) =
     Inr (map (\<lambda>n. \<lparr>ne_NetworkName = ni_Name n, ne_NetworkID = short_id (ni_ID n), ne_Driver = ni_Driver n,
               ne_Nodes = map toNode (ni_Containers n)\<rparr>)
       (filter (\<lambda>n. ni_Name n \<noteq> ''host'' \<and> ni_Name n \<noteq> ''none'' \<and> ni_Containers n \<noteq> []) nets))
   \<and> CHR ''/'' \<notin> set (nn_IPv4Address (toNode x)) \<and> length (nn_ContainerID (toNode x)) \<le> 12"
  by (simp add: BuildMap_def buildEdges_eq toNode_def strip_mask_no_slash short_id_def)

end
