(* ===== verification/I18n.thy ===== *)
theory I18n
  imports Prelude
begin

text \<open>
  \<^verbatim>\<open>internal/i18n/i18n.go\<close>: the texts of the dashboard in English and Portuguese. A character outside ASCII
  is its UTF-8 bytes.
\<close>

section \<open>The catalogues\<close>

record Messages =
  tx_DetailsTitle :: string
  tx_Name :: string
  tx_Image :: string
  tx_Status :: string
  tx_Command :: string
  tx_Created :: string
  tx_Ports :: string
  tx_Networks :: string
  tx_SecurityAudit :: string
  tx_Metrics :: string
  tx_Memory :: string
  tx_NetworkDown :: string
  tx_NetworkUp :: string
  tx_LogsTitle :: string
  tx_EventsTitle :: string
  tx_WaitingEvents :: string
  tx_HelpBar :: string
  tx_TableHost :: string
  tx_TableName :: string
  tx_TableState :: string
  tx_NoContainers :: string
  tx_ErrorSmallTerminal :: string
  tx_StressTestTitle :: string
  tx_StressTestMenu :: string
  tx_ConfirmStop :: string
  tx_ConfirmRestart :: string
  tx_ServiceMapTitle :: string
  tx_ServiceMapNoCustom :: string
  tx_ServiceMapBack :: string
  tx_SecPrivileged :: string
  tx_SecRootUser :: string
  tx_SecDBPort :: string
  tx_SecSensitiveCap :: string
  tx_SecNoResourceQuotas :: string
  tx_SecWritableRootFS :: string
  tx_SecInsecurePort :: string
  tx_SecMissingNoNewPrivs :: string
  tx_SecHostNetwork :: string
  tx_AlertSecPrivileged :: string
  tx_AlertSecRootUser :: string
  tx_AlertSecDBPort :: string
  tx_AlertSecSensitiveCap :: string
  tx_AlertSecNoQuotas :: string
  tx_AlertSecWritableFS :: string
  tx_AlertSecInsecurePort :: string
  tx_AlertSecNoNewPrivs :: string
  tx_AlertSecHostNet :: string

definition En :: Messages where
  "En = \<lparr>
     tx_DetailsTitle = ''Details'',
     tx_Name = ''Name:'',
     tx_Image = ''Image:'',
     tx_Status = ''Status:'',
     tx_Command = ''Command:'',
     tx_Created = ''Created:'',
     tx_Ports = ''Ports:'',
     tx_Networks = ''Networks:'',
     tx_SecurityAudit = ''Security Audit'',
     tx_Metrics = ''Metrics'',
     tx_Memory = ''Memory:'',
     tx_NetworkDown = ''Net '' @ [CHR 0xE2, CHR 0x86, CHR 0x93] @ '':'',
     tx_NetworkUp = ''Net '' @ [CHR 0xE2, CHR 0x86, CHR 0x91] @ '':'',
     tx_LogsTitle = ''Logs: %s'',
     tx_EventsTitle = ''Events'',
     tx_WaitingEvents = ''Waiting for events...'',
     tx_HelpBar = ''  '' @ [CHR 0xE2, CHR 0x86, CHR 0x91, CHR 0xE2, CHR 0x86, CHR 0x93] @ '' nav '' @ [CHR 0xE2, CHR 0x94, CHR 0x82] @ '' space multi-select '' @ [CHR 0xE2, CHR 0x94, CHR 0x82] @ '' enter details '' @ [CHR 0xE2, CHR 0x94, CHR 0x82] @ '' l log 1 '' @ [CHR 0xE2, CHR 0x94, CHR 0x82] @ '' L log N '' @ [CHR 0xE2, CHR 0x94, CHR 0x82] @ '' / grep '' @ [CHR 0xE2, CHR 0x94, CHR 0x82] @ '' f tail '' @ [CHR 0xE2, CHR 0x94, CHR 0x82] @ '' E export '' @ [CHR 0xE2, CHR 0x94, CHR 0x82] @ '' x shell '' @ [CHR 0xE2, CHR 0x94, CHR 0x82] @ '' C prune '' @ [CHR 0xE2, CHR 0x94, CHR 0x82] @ '' s stop '' @ [CHR 0xE2, CHR 0x94, CHR 0x82] @ '' R restart '' @ [CHR 0xE2, CHR 0x94, CHR 0x82] @ '' S stress '' @ [CHR 0xE2, CHR 0x94, CHR 0x82] @ '' M map '' @ [CHR 0xE2, CHR 0x94, CHR 0x82] @ '' r refresh '' @ [CHR 0xE2, CHR 0x94, CHR 0x82] @ '' ? help '' @ [CHR 0xE2, CHR 0x94, CHR 0x82] @ '' q quit'',
     tx_TableHost = ''HOST'',
     tx_TableName = ''NAME'',
     tx_TableState = ''STATE'',
     tx_NoContainers = ''No running containers'',
     tx_ErrorSmallTerminal = ''Terminal is too small (min 60 cols).'',
     tx_StressTestTitle = ''Stress Test '' @ [CHR 0xE2, CHR 0x80, CHR 0x94] @ '' Spawn stress container (30s)'',
     tx_StressTestMenu = ''[c] CPU (2 cores @ 100%)'' @ [CHR 0x0A] @ ''  [m] Memory (256MB)'' @ [CHR 0x0A] @ ''  [b] Both'' @ [CHR 0x0A] @ ''  [Esc] Cancel'',
     tx_ConfirmStop = ''stop'',
     tx_ConfirmRestart = ''restart'',
     tx_ServiceMapTitle = ''Service & Network Map'',
     tx_ServiceMapNoCustom = ''No custom networks detected.'',
     tx_ServiceMapBack = ''[M / Esc] Back to Dashboard'',
     tx_SecPrivileged = ''Privileged Mode enabled (grants near full control over host)'',
     tx_SecRootUser = ''Container runs internal processes as root user'',
     tx_SecDBPort = ''Database port (e.g. 3306, 5432) widely exposed on 0.0.0.0. Phishing risk.'',
     tx_SecSensitiveCap = ''Sensitive Linux Capabilities injected (e.g. SYS_ADMIN/NET_ADMIN)'',
     tx_SecNoResourceQuotas = ''No CPU or Memory limits configured (Risk of Host DoS)'',
     tx_SecWritableRootFS = ''Root Filesystem is writable (Immutable readonly-rootfs is best practice)'',
     tx_SecInsecurePort = ''Insecure management ports (SSH:22 or Telnet:23) exposed'',
     tx_SecMissingNoNewPrivs = ''Missing '' @ [CHR 0x27] @ ''no-new-privileges'' @ [CHR 0x27] @ '' flag (Allows SUID escalation)'',
     tx_SecHostNetwork = ''Running with --network=host (Bypasses network isolation)'',
     tx_AlertSecPrivileged = ''Privileged Mode'',
     tx_AlertSecRootUser = ''Root User'',
     tx_AlertSecDBPort = ''DB Port Exposed'',
     tx_AlertSecSensitiveCap = ''Sensitive CAP_ADD'',
     tx_AlertSecNoQuotas = ''No Resource Quotas'',
     tx_AlertSecWritableFS = ''Writable RootFS'',
     tx_AlertSecInsecurePort = ''Insecure Port'',
     tx_AlertSecNoNewPrivs = ''Missing No-New-Privileges'',
     tx_AlertSecHostNet = ''Host Networking''\<rparr>"

definition Pt :: Messages where
  "Pt = \<lparr>
     tx_DetailsTitle = ''Detalhes'',
     tx_Name = ''Nome:'',
     tx_Image = ''Imagem:'',
     tx_Status = ''Status:'',
     tx_Command = ''solicita'' @ [CHR 0xC3, CHR 0xA7, CHR 0xC3, CHR 0xA3] @ ''o:'',
     tx_Created = ''Criado:'',
     tx_Ports = ''Portas:'',
     tx_Networks = ''Redes:'',
     tx_SecurityAudit = ''Auditoria de Seguran'' @ [CHR 0xC3, CHR 0xA7] @ ''a'',
     tx_Metrics = ''M'' @ [CHR 0xC3, CHR 0xA9] @ ''tricas'',
     tx_Memory = ''Mem'' @ [CHR 0xC3, CHR 0xB3] @ ''ria:'',
     tx_NetworkDown = ''Rede '' @ [CHR 0xE2, CHR 0x86, CHR 0x93] @ '':'',
     tx_NetworkUp = ''Rede '' @ [CHR 0xE2, CHR 0x86, CHR 0x91] @ '':'',
     tx_LogsTitle = ''Logs: %s'',
     tx_EventsTitle = ''Eventos'',
     tx_WaitingEvents = ''Aguardando eventos...'',
     tx_HelpBar = ''  '' @ [CHR 0xE2, CHR 0x86, CHR 0x91, CHR 0xE2, CHR 0x86, CHR 0x93] @ '' nav '' @ [CHR 0xE2, CHR 0x94, CHR 0x82] @ '' space selec. mult. '' @ [CHR 0xE2, CHR 0x94, CHR 0x82] @ '' enter detalhe '' @ [CHR 0xE2, CHR 0x94, CHR 0x82] @ '' l log 1 '' @ [CHR 0xE2, CHR 0x94, CHR 0x82] @ '' L log N '' @ [CHR 0xE2, CHR 0x94, CHR 0x82] @ '' / buscar log '' @ [CHR 0xE2, CHR 0x94, CHR 0x82] @ '' f seguir '' @ [CHR 0xE2, CHR 0x94, CHR 0x82] @ '' E export '' @ [CHR 0xE2, CHR 0x94, CHR 0x82] @ '' x shell '' @ [CHR 0xE2, CHR 0x94, CHR 0x82] @ '' C faxina '' @ [CHR 0xE2, CHR 0x94, CHR 0x82] @ '' s stop '' @ [CHR 0xE2, CHR 0x94, CHR 0x82] @ '' R restart '' @ [CHR 0xE2, CHR 0x94, CHR 0x82] @ '' S stress '' @ [CHR 0xE2, CHR 0x94, CHR 0x82] @ '' M map '' @ [CHR 0xE2, CHR 0x94, CHR 0x82] @ '' r refresh '' @ [CHR 0xE2, CHR 0x94, CHR 0x82] @ '' ? ajuda '' @ [CHR 0xE2, CHR 0x94, CHR 0x82] @ '' q sair'',
     tx_TableHost = ''HOST'',
     tx_TableName = ''NOME'',
     tx_TableState = ''ESTADO'',
     tx_NoContainers = ''Nenhum container em execu'' @ [CHR 0xC3, CHR 0xA7, CHR 0xC3, CHR 0xA3] @ ''o'',
     tx_ErrorSmallTerminal = ''Terminal muito pequeno (min 60 cols).'',
     tx_StressTestTitle = ''Stress Test '' @ [CHR 0xE2, CHR 0x80, CHR 0x94] @ '' Criar container de stress (30s)'',
     tx_StressTestMenu = ''[c] CPU (2 cores a 100%)'' @ [CHR 0x0A] @ ''  [m] Mem'' @ [CHR 0xC3, CHR 0xB3] @ ''ria (256MB)'' @ [CHR 0x0A] @ ''  [b] Ambos'' @ [CHR 0x0A] @ ''  [Esc] Cancelar'',
     tx_ConfirmStop = ''parar'',
     tx_ConfirmRestart = ''reiniciar'',
     tx_ServiceMapTitle = ''Mapa de Servi'' @ [CHR 0xC3, CHR 0xA7] @ ''os e Redes'',
     tx_ServiceMapNoCustom = ''Nenhuma rede customizada detectada.'',
     tx_ServiceMapBack = ''[M / Esc] Voltar ao Dashboard'',
     tx_SecPrivileged = ''Modo Privilegiado habilitado (d'' @ [CHR 0xC3, CHR 0xA1] @ '' controle quase total sobre o host)'',
     tx_SecRootUser = ''Container est'' @ [CHR 0xC3, CHR 0xA1] @ '' rodando suas rotinas internas com o usu'' @ [CHR 0xC3, CHR 0xA1] @ ''rio root'',
     tx_SecDBPort = ''Porta de Banco de Dados (ex: 3306, 5432) exposta sem restri'' @ [CHR 0xC3, CHR 0xA7, CHR 0xC3, CHR 0xB5] @ ''es em 0.0.0.0. Perigoso para invas'' @ [CHR 0xC3, CHR 0xB5] @ ''es.'',
     tx_SecSensitiveCap = ''Capabilities Linux muito sens'' @ [CHR 0xC3, CHR 0xAD] @ ''veis foram injetadas (ex: SYS_ADMIN/NET_ADMIN)'',
     tx_SecNoResourceQuotas = ''Container sem limite de Mem'' @ [CHR 0xC3, CHR 0xB3] @ ''ria ou CPU configurado (Risco de DoS no Host)'',
     tx_SecWritableRootFS = ''Root Filesystem aberto para escrita (O ideal '' @ [CHR 0xC3, CHR 0xA9] @ '' rodar containers imut'' @ [CHR 0xC3, CHR 0xA1] @ ''veis c/ readonly-rootfs)'',
     tx_SecInsecurePort = ''Portas de gerenciamento inseguras (SSH:22 ou Telnet:23) expostas pelo container'',
     tx_SecMissingNoNewPrivs = ''Faltando flag '' @ [CHR 0x27] @ ''no-new-privileges'' @ [CHR 0x27] @ '' (Permite escalonamento SUID)'',
     tx_SecHostNetwork = ''Rodando com --network=host (Burla o isolamento de rede nativo)'',
     tx_AlertSecPrivileged = ''Modo Privilegiado'',
     tx_AlertSecRootUser = ''Usu'' @ [CHR 0xC3, CHR 0xA1] @ ''rio Root'',
     tx_AlertSecDBPort = ''Porta DB Exposta'',
     tx_AlertSecSensitiveCap = ''CAP_ADD Sens'' @ [CHR 0xC3, CHR 0xAD] @ ''vel'',
     tx_AlertSecNoQuotas = ''Sem Limites de Recurso'',
     tx_AlertSecWritableFS = ''RootFS Grav'' @ [CHR 0xC3, CHR 0xA1] @ ''vel'',
     tx_AlertSecInsecurePort = ''Porta Insegura'',
     tx_AlertSecNoNewPrivs = ''Sem No-New-Privileges'',
     tx_AlertSecHostNet = ''Rede Host''\<rparr>"

definition i18n_Get :: "string \<Rightarrow> Messages" where
  "i18n_Get lang = (if lang = ''pt'' \<or> lang = ''pt-BR'' then Pt else En)"

text \<open>All texts of a catalogue, in the order of the fields.\<close>

definition texts :: "Messages \<Rightarrow> string list" where
  "texts t =
     [tx_DetailsTitle t,
      tx_Name t,
      tx_Image t,
      tx_Status t,
      tx_Command t,
      tx_Created t,
      tx_Ports t,
      tx_Networks t,
      tx_SecurityAudit t,
      tx_Metrics t,
      tx_Memory t,
      tx_NetworkDown t,
      tx_NetworkUp t,
      tx_LogsTitle t,
      tx_EventsTitle t,
      tx_WaitingEvents t,
      tx_HelpBar t,
      tx_TableHost t,
      tx_TableName t,
      tx_TableState t,
      tx_NoContainers t,
      tx_ErrorSmallTerminal t,
      tx_StressTestTitle t,
      tx_StressTestMenu t,
      tx_ConfirmStop t,
      tx_ConfirmRestart t,
      tx_ServiceMapTitle t,
      tx_ServiceMapNoCustom t,
      tx_ServiceMapBack t,
      tx_SecPrivileged t,
      tx_SecRootUser t,
      tx_SecDBPort t,
      tx_SecSensitiveCap t,
      tx_SecNoResourceQuotas t,
      tx_SecWritableRootFS t,
      tx_SecInsecurePort t,
      tx_SecMissingNoNewPrivs t,
      tx_SecHostNetwork t,
      tx_AlertSecPrivileged t,
      tx_AlertSecRootUser t,
      tx_AlertSecDBPort t,
      tx_AlertSecSensitiveCap t,
      tx_AlertSecNoQuotas t,
      tx_AlertSecWritableFS t,
      tx_AlertSecInsecurePort t,
      tx_AlertSecNoNewPrivs t,
      tx_AlertSecHostNet t]"

end
