(* ===== verification/Tui.thy ===== *)
theory Tui
  imports Security Topology Storage Store I18n
begin

text \<open>
  \<^verbatim>\<open>internal/tui/tui.go\<close>: the state of the dashboard, its messages and commands, and the handlers of
  \<open>Update\<close>. A command (\<open>tea.Cmd\<close>) is a value that says what it will do; running it is a function of
  the outside world (the Docker client, the receiver, the clock). A handler returns the new state and
  the commands it schedules, or panics where Go would: an index out of range, a method of a nil error.
\<close>

section \<open>Icons\<close>

text \<open>The literals of the source outside ASCII, as their UTF-8 bytes.\<close>

definition icon_cross :: string where "icon_cross = [CHR 0xE2, CHR 0x9D, CHR 0x8C]"
definition icon_check :: string where "icon_check = [CHR 0xE2, CHR 0x9C, CHR 0x85]"
definition icon_bolt :: string where "icon_bolt = [CHR 0xE2, CHR 0x9A, CHR 0xA1]"
definition icon_broom :: string where "icon_broom = [CHR 0xF0, CHR 0x9F, CHR 0xA7, CHR 0xB9]"
definition icon_shield :: string where "icon_shield = [CHR 0xF0, CHR 0x9F, CHR 0x9B, CHR 0xA1, CHR 0xEF, CHR 0xB8, CHR 0x8F]"
definition icon_warn :: string where "icon_warn = [CHR 0xE2, CHR 0x9A, CHR 0xA0, CHR 0xEF, CHR 0xB8, CHR 0x8F]"
definition icon_siren :: string where "icon_siren = [CHR 0xF0, CHR 0x9F, CHR 0x9A, CHR 0xA8]"
definition icon_export :: string where "icon_export = [CHR 0xF0, CHR 0x9F, CHR 0x93, CHR 0xA4]"

definition dockerEventIcon :: "string \<Rightarrow> string" where
  "dockerEventIcon action =
     (if action = ''start'' then [CHR 0xF0, CHR 0x9F, CHR 0x9F, CHR 0xA2]
      else if action = ''stop'' then [CHR 0xF0, CHR 0x9F, CHR 0x9F, CHR 0xA1]
      else if action = ''die'' then [CHR 0xF0, CHR 0x9F, CHR 0x94, CHR 0xB4]
      else if action = ''create'' then [CHR 0xF0, CHR 0x9F, CHR 0x93, CHR 0xA6]
      else if action = ''destroy'' then [CHR 0xF0, CHR 0x9F, CHR 0x97, CHR 0x91, CHR 0xEF, CHR 0xB8, CHR 0x8F] @ '' ''
      else if action = ''pause'' then [CHR 0xE2, CHR 0x8F, CHR 0xB8, CHR 0xEF, CHR 0xB8, CHR 0x8F] @ '' ''
      else if action = ''unpause'' then [CHR 0xE2, CHR 0x96, CHR 0xB6, CHR 0xEF, CHR 0xB8, CHR 0x8F] @ '' ''
      else [CHR 0xF0, CHR 0x9F, CHR 0x93, CHR 0x8B])"

section \<open>Messages, commands, state\<close>

text \<open>
  A log channel is a number. The error of a message is \<open>None\<close> when the Go error is nil.
\<close>

type_synonym log_chan = nat

datatype msg =
    KeyMsg string
  | WindowSizeMsg int int
  | ContainerListMsg "ContainerDisplay list"
  | StatsMsg stats
  | DockerEventMsg ContainerEvent
  | DockerErrorMsg "error option"
  | LogLineMsg string string "log_chan option"
  | ActionResultMsg bool string string "error option"
  | StressResultMsg bool string "error option"
  | DiskUsageMsg SystemDiskUsage
  | PruneResultMsg "64 word" string "error option"
  | HostStatsMsg float64 float64
  | TickMsg time

text \<open>
  The commands, with what their closures capture of the model that changes: \<open>showAll\<close>, the target of
  an action, the channel of a log.
\<close>

datatype cmd =
    FetchContainers bool
  | FetchStats bool
  | FetchHostStats
  | WatchDockerEvents
  | TickCmd
  | WaitForNextLog string log_chan
  | ExecuteAction string string string
  | ExecuteStress string
  | ExecuteShell string
  | RunPrune string
  | FetchDiskUsage
  | Quit

record LogEntry =
  le_Container :: string
  le_Text :: string

record EventLogEntry =
  el_Time :: time
  el_Icon :: string
  el_Action :: string
  el_Name :: string

record Model =
  m_containers :: "ContainerDisplay list"
  m_stats :: stats
  m_events :: "EventLogEntry list"
  m_sysInfo :: "string \<rightharpoonup> string"
  m_alertEngine :: "Engine option"
  m_activeAlerts :: "Alert list"
  m_securityAlerts :: "Alert list"
  m_securityAlertsMap :: "string \<rightharpoonup> Alert list"
  m_alertMarks :: "string \<rightharpoonup> string"
  m_auditor :: "Auditor option"
  m_logLines :: "LogEntry list"
  m_showLogs :: bool
  m_logContainers :: "string list"
  m_logOffset :: int
  m_logSearch :: string
  m_searchMode :: bool
  m_selectedIDs :: "string set"
  m_showAll :: bool
  m_confirmAction :: string
  m_showStress :: bool
  m_showCleanup :: bool
  m_diskUsage :: SystemDiskUsage
  m_pruning :: bool
  m_pruneFeedback :: string
  m_showMap :: bool
  m_mapData :: "NetworkEdge list"
  m_cursor :: int
  m_showHelp :: bool
  m_showDetail :: bool
  m_width :: int
  m_height :: int
  m_startTime :: time
  m_version :: string
  m_store :: "SQLiteStore option"
  m_cfg :: Config
  m_eventCount :: int
  m_lastUpdate :: time
  m_quitting :: bool
  m_msg :: Messages
  m_hostCPU :: float64
  m_hostMem :: float64

text \<open>
  What a handler reads of the outside while it runs: the clock, the order in which ranges visit maps,
  the Docker client and the file system. \<open>te_createTemp pattern content\<close> is the creation of the
  temporary file and the write of its content.
\<close>

record tui_env =
  te_now :: time
  te_uni :: "string \<Rightarrow> string"
  te_inspect :: "string \<Rightarrow> error + ContainerJSON"
  te_sched :: "ContainerDisplay list \<Rightarrow> ContainerDisplay list"
  te_statsRange :: "stats \<Rightarrow> stats_range"
  te_activeRange :: "Engine \<Rightarrow> (string \<times> Alert) list"
  te_bestOrder :: "(string \<times> Alert) list \<Rightarrow> (string \<times> Alert) list"
  te_logs :: "string \<Rightarrow> error + log_chan"
  te_networks :: "error + NetworkInspect list"
  te_createTemp :: "string \<Rightarrow> string \<Rightarrow> error + string"

type_synonym handled = "(Model \<times> cmd list) outcome"

text \<open>\<open>NewModel\<close>. Fields that the struct literal leaves out have their zero value.\<close>

definition NewModel :: "(string \<Rightarrow> int) \<Rightarrow> time \<Rightarrow> (string \<rightharpoonup> string) \<Rightarrow> string \<Rightarrow> Config \<Rightarrow> SQLiteStore option \<Rightarrow> Model" where
  "NewModel portInt now sysInfo version cfg store =
     \<lparr>m_containers = [], m_stats = Map.empty, m_events = [], m_sysInfo = sysInfo,
      m_alertEngine = (if al_Enabled (Alerts cfg) then Some (NewEngine (al_Rules (Alerts cfg))) else None),
      m_activeAlerts = [], m_securityAlerts = [], m_securityAlertsMap = Map.empty, m_alertMarks = Map.empty,
      m_auditor = Some (NewAuditor portInt), m_logLines = [], m_showLogs = False, m_logContainers = [],
      m_logOffset = 0, m_logSearch = '''', m_searchMode = False, m_selectedIDs = {}, m_showAll = False,
      m_confirmAction = '''', m_showStress = False, m_showCleanup = False,
      m_diskUsage = \<lparr>ImagesReclaimable = 0, VolumesReclaimable = 0\<rparr>, m_pruning = False,
      m_pruneFeedback = '''', m_showMap = False, m_mapData = [], m_cursor = 0, m_showHelp = False,
      m_showDetail = False, m_width = 0, m_height = 0, m_startTime = now, m_version = version,
      m_store = None, m_cfg = cfg, m_eventCount = 0, m_lastUpdate = now, m_quitting = False,
      m_msg = i18n_Get (Language cfg), m_hostCPU = Fin 0, m_hostMem = Fin 0\<rparr>"

definition Init :: "Model \<Rightarrow> cmd list" where
  "Init m = [FetchContainers (m_showAll m), FetchStats (m_showAll m), FetchHostStats, WatchDockerEvents, TickCmd]"

section \<open>Handlers of messages\<close>

text \<open>A slice index \<open>xs[i]\<close>: it panics out of range.\<close>

definition index_at :: "'a list \<Rightarrow> int \<Rightarrow> 'a outcome" where
  "index_at xs i = (if 0 \<le> i \<and> i < int (length xs) then Ret (xs ! nat i) else Panic)"

definition push_event :: "time \<Rightarrow> string \<Rightarrow> string \<Rightarrow> string \<Rightarrow> Model \<Rightarrow> Model" where
  "push_event now icon action name m =
     m\<lparr>m_events := \<lparr>el_Time = now, el_Icon = icon, el_Action = action, el_Name = name\<rparr> # m_events m\<rparr>"

text \<open>The four marks of the container table.\<close>

definition mark_sec_crit :: string where "mark_sec_crit = '' '' @ icon_shield @ '' '' @ icon_siren"
definition mark_sec_warn :: string where "mark_sec_warn = '' '' @ icon_shield @ '' '' @ icon_warn"
definition mark_crit :: string where "mark_crit = '' '' @ icon_siren"
definition mark_warn :: string where "mark_warn = '' '' @ icon_warn"

text \<open>Reading a key that a \<open>map[string]string\<close> does not have gives the empty string.\<close>

definition mark_at :: "(string \<rightharpoonup> string) \<Rightarrow> string \<Rightarrow> string" where
  "mark_at marks i = (case marks i of None \<Rightarrow> '''' | Some s \<Rightarrow> s)"

definition markSecurity :: "Alert \<Rightarrow> (string \<rightharpoonup> string) \<Rightarrow> (string \<rightharpoonup> string)" where
  "markSecurity sa marks =
     (if a_Severity sa = ''critical'' then marks(a_ContainerID sa \<mapsto> mark_sec_crit)
      else if mark_at marks (a_ContainerID sa) \<noteq> mark_sec_crit then marks(a_ContainerID sa \<mapsto> mark_sec_warn)
      else marks)"

definition markActive :: "Alert \<Rightarrow> (string \<rightharpoonup> string) \<Rightarrow> (string \<rightharpoonup> string)" where
  "markActive a marks =
     (if a_Severity a = ''critical'' then marks(a_ContainerID a \<mapsto> mark_crit)
      else if mark_at marks (a_ContainerID a) \<noteq> mark_crit \<and> mark_at marks (a_ContainerID a) \<noteq> mark_sec_crit
        then marks(a_ContainerID a \<mapsto> mark_warn)
      else marks)"

definition updateAlertMarks :: "Model \<Rightarrow> Model" where
  "updateAlertMarks m =
     m\<lparr>m_alertMarks := fold markActive (m_activeAlerts m) (fold markSecurity (m_securityAlerts m) Map.empty)\<rparr>"

definition groupAlerts :: "Alert list \<Rightarrow> (string \<rightharpoonup> Alert list)" where
  "groupAlerts as =
     fold (\<lambda>a g. g(a_ContainerID a \<mapsto> (case g (a_ContainerID a) of None \<Rightarrow> [] | Some l \<Rightarrow> l) @ [a])) as Map.empty"

definition processSecurityAlerts :: "tui_env \<Rightarrow> Model \<Rightarrow> Model" where
  "processSecurityAlerts env m =
     (case m_auditor m of
        None \<Rightarrow> m
      | Some auditor \<Rightarrow>
          (let oldAlertsCount = length (m_securityAlerts m);
               (auditor, found) = Audit (te_sched env) (te_inspect env) (te_now env) (m_containers m) auditor;
               m = m\<lparr>m_auditor := Some auditor, m_securityAlerts := found, m_securityAlertsMap := groupAlerts found\<rparr>;
               m = (if length (m_securityAlerts m) > oldAlertsCount
                    then push_event (te_now env) (icon_shield @ '' '') ''SEC-AUDIT''
                           (nat_str (length (m_securityAlerts m)) @ '' issues found'') m
                    else m)
           in updateAlertMarks m))"

definition handleContainerListMsg :: "tui_env \<Rightarrow> ContainerDisplay list \<Rightarrow> Model \<Rightarrow> handled" where
  "handleContainerListMsg env containers m =
     (let m = m\<lparr>m_containers := containers, m_lastUpdate := te_now env\<rparr>;
          m = (if m_cursor m \<ge> int (length (m_containers m)) \<and> length (m_containers m) > 0
               then m\<lparr>m_cursor := int (length (m_containers m)) - 1\<rparr> else m);
          m = processSecurityAlerts env m
      in Ret (m, []))"

definition alertEvent :: "tui_env \<Rightarrow> Alert \<Rightarrow> Model \<Rightarrow> Model" where
  "alertEvent env a m =
     push_event (te_now env) (if a_Severity a = ''critical'' then icon_siren else icon_warn @ '' '') ''ALERT'' (FormatAlert a) m"

definition handleStatsMsg :: "tui_env \<Rightarrow> stats \<Rightarrow> Model \<Rightarrow> handled" where
  "handleStatsMsg env st m =
     (let m = m\<lparr>m_stats := st\<rparr>;
          m = (case m_alertEngine m of
                 None \<Rightarrow> m
               | Some engine \<Rightarrow>
                   (let (engine, newAlerts) = Evaluate engine (te_now env) (te_statsRange env st);
                        m = m\<lparr>m_alertEngine := Some engine,
                              m_activeAlerts := GetActiveAlerts (te_bestOrder env) (te_activeRange env engine)\<rparr>
                    in fold (alertEvent env) newAlerts m))
      in Ret (updateAlertMarks m, []))"

definition handleDockerEventMsg :: "tui_env \<Rightarrow> ContainerEvent \<Rightarrow> Model \<Rightarrow> handled" where
  "handleDockerEventMsg env event m =
     (let m = m\<lparr>m_eventCount := m_eventCount m + 1\<rparr>;
          m = push_event (te_now env) (dockerEventIcon (ev_Action event)) (ev_Action event) (ev_ContainerName event) m;
          m = m\<lparr>m_store := map_option (SaveEvent (ev_Action event) (ev_ContainerName event) '''') (m_store m)\<rparr>;
          m = (if length (m_events m) > 50 then m\<lparr>m_events := take 50 (m_events m)\<rparr> else m)
      in Ret (m, [FetchContainers (m_showAll m), FetchStats (m_showAll m), WatchDockerEvents]))"

definition handleLogLineMsg :: "string \<Rightarrow> string \<Rightarrow> log_chan option \<Rightarrow> Model \<Rightarrow> handled" where
  "handleLogLineMsg container line nextCh m =
     (let m = m\<lparr>m_logLines := m_logLines m @ [\<lparr>le_Container = container, le_Text = line\<rparr>]\<rparr>;
          m = (if length (m_logLines m) > 1000
               then m\<lparr>m_logLines := drop (length (m_logLines m) - 1000) (m_logLines m)\<rparr> else m)
      in (case nextCh of
            Some ch \<Rightarrow> Ret (m, [WaitForNextLog container ch])
          | None \<Rightarrow> Ret (m, [])))"

definition handleActionResultMsg :: "tui_env \<Rightarrow> bool \<Rightarrow> string \<Rightarrow> string \<Rightarrow> Model \<Rightarrow> handled" where
  "handleActionResultMsg env success action container m =
     (let icon = (if \<not> success then icon_cross else icon_check);
          action = (if \<not> success then action @ '' FAILED'' else action);
          m = push_event (te_now env) icon action container m
      in Ret (m, [FetchContainers (m_showAll m), FetchStats (m_showAll m)]))"

text \<open>\<open>msg.err.Error()\<close>: a nil error panics.\<close>

definition err_Error :: "error option \<Rightarrow> string outcome" where
  "err_Error err = (case err of Some e \<Rightarrow> Ret e | None \<Rightarrow> Panic)"

definition handleStressResultMsg :: "tui_env \<Rightarrow> bool \<Rightarrow> string \<Rightarrow> error option \<Rightarrow> Model \<Rightarrow> handled" where
  "handleStressResultMsg env success mode err m =
     bind_outcome
       (if \<not> success then bind_outcome (err_Error err) (\<lambda>e. Ret (icon_cross, ''stress FAILED: '' @ e))
        else Ret (icon_bolt, ''stress-'' @ mode @ '' (30s)''))
       (\<lambda>(icon, name).
          let m = push_event (te_now env) icon ''stress'' name m
          in Ret (m, [FetchContainers (m_showAll m), FetchStats (m_showAll m)]))"

definition formatBytes :: "64 word \<Rightarrow> string" where
  "formatBytes b =
     (let KB = 1024; MB = KB * 1024; GB = MB * 1024
      in if unat b \<ge> GB then fmt_f1 (f_div (f64_of_uint64 b) (f64_of_int (int GB))) @ ''GB''
         else if unat b \<ge> MB then fmt_f1 (f_div (f64_of_uint64 b) (f64_of_int (int MB))) @ ''MB''
         else if unat b \<ge> KB then fmt_f1 (f_div (f64_of_uint64 b) (f64_of_int (int KB))) @ ''KB''
         else nat_str (unat b) @ ''B'')"

definition handlePruneResultMsg :: "tui_env \<Rightarrow> 64 word \<Rightarrow> string \<Rightarrow> error option \<Rightarrow> Model \<Rightarrow> handled" where
  "handlePruneResultMsg env reclaimed target err m =
     (let m = m\<lparr>m_pruning := False\<rparr>;
          m = (case err of
                 Some e \<Rightarrow>
                   push_event (te_now env) icon_cross ''prune fail'' e
                     (m\<lparr>m_pruneFeedback := icon_cross @ '' Error cleaning '' @ target @ '': '' @ e\<rparr>)
               | None \<Rightarrow>
                   (let reclaimedStr = formatBytes reclaimed
                    in push_event (te_now env) (icon_broom @ '' '') (''prune '' @ target) (''Freed '' @ reclaimedStr)
                         (m\<lparr>m_pruneFeedback := icon_check @ '' Cleanup complete! Reclaimed '' @ reclaimedStr @ '' of free space.''\<rparr>)))
      in Ret (m, [FetchDiskUsage]))"

definition handleTickMsg :: "time \<Rightarrow> Model \<Rightarrow> handled" where
  "handleTickMsg t m =
     (let m = m\<lparr>m_lastUpdate := t\<rparr>
      in if \<not> m_showLogs m \<and> \<not> m_showMap m \<and> m_confirmAction m = ''''
         then Ret (m, [FetchContainers (m_showAll m), FetchStats (m_showAll m), FetchHostStats, TickCmd])
         else Ret (m, [TickCmd]))"

section \<open>Handlers of keys\<close>

type_synonym key_handled = "(Model \<times> cmd list \<times> bool) outcome"

definition handleConfirmKeys :: "string \<Rightarrow> Model \<Rightarrow> key_handled" where
  "handleConfirmKeys k m =
     (if k = ''y'' \<or> k = ''Y'' then
        (let action = m_confirmAction m; m = m\<lparr>m_confirmAction := ''''\<rparr>
         in if m_cursor m < int (length (m_containers m)) then
              bind_outcome (index_at (m_containers m) (m_cursor m)) (\<lambda>c.
                Ret (m, [ExecuteAction action (cd_ID c) (cd_Name c)], True))
            else Ret (m, [], True))
      else Ret (m\<lparr>m_confirmAction := ''''\<rparr>, [], True))"

definition handleStressKeys :: "string \<Rightarrow> Model \<Rightarrow> key_handled" where
  "handleStressKeys k m =
     (if k = ''c'' \<or> k = ''m'' \<or> k = ''b'' then
        (let m = m\<lparr>m_showStress := False\<rparr>;
             mode = (if k = ''c'' then ''cpu'' else if k = ''m'' then ''memory'' else ''both'')
         in Ret (m, [ExecuteStress mode], True))
      else Ret (m\<lparr>m_showStress := False\<rparr>, [], True))"

definition handleCleanupKeys :: "string \<Rightarrow> Model \<Rightarrow> key_handled" where
  "handleCleanupKeys k m =
     (if k = ''esc'' \<or> k = ''c'' \<or> k = ''C'' then Ret (m\<lparr>m_showCleanup := False, m_pruneFeedback := ''''\<rparr>, [], True)
      else if k = ''i'' then Ret (m\<lparr>m_pruning := True, m_pruneFeedback := ''''\<rparr>, [RunPrune ''images''], True)
      else if k = ''v'' then Ret (m\<lparr>m_pruning := True, m_pruneFeedback := ''''\<rparr>, [RunPrune ''volumes''], True)
      else Ret (m, [], True))"

definition handleSearchKeys :: "string \<Rightarrow> Model \<Rightarrow> key_handled" where
  "handleSearchKeys k m =
     (if k = ''esc'' \<and> m_searchMode m then Ret (m\<lparr>m_searchMode := False, m_logSearch := ''''\<rparr>, [], True)
      else Ret (m, [], True))"

definition handleModalKeys :: "string \<Rightarrow> Model \<Rightarrow> key_handled" where
  "handleModalKeys k m =
     (if m_confirmAction m \<noteq> '''' then handleConfirmKeys k m
      else if m_showStress m then handleStressKeys k m
      else if m_showCleanup m then handleCleanupKeys k m
      else if m_searchMode m then handleSearchKeys k m
      else Ret (m, [], False))"

definition handleSearchToggle :: "Model \<Rightarrow> Model" where
  "handleSearchToggle m = (if m_showLogs m then m\<lparr>m_searchMode := True\<rparr> else m)"

definition handleScrollUp :: "Model \<Rightarrow> Model" where
  "handleScrollUp m =
     (if m_showLogs m then m\<lparr>m_logOffset := m_logOffset m + 1\<rparr>
      else if m_cursor m > 0 then m\<lparr>m_cursor := m_cursor m - 1\<rparr>
      else m)"

definition handleScrollDown :: "Model \<Rightarrow> Model" where
  "handleScrollDown m =
     (if m_showLogs m then (if m_logOffset m > 0 then m\<lparr>m_logOffset := m_logOffset m - 1\<rparr> else m)
      else if m_cursor m < int (length (m_containers m)) - 1 then m\<lparr>m_cursor := m_cursor m + 1\<rparr>
      else m)"

definition handleScrollReset :: "Model \<Rightarrow> Model" where
  "handleScrollReset m = (if m_showLogs m then m\<lparr>m_logOffset := 0\<rparr> else m)"

text \<open>\<open>selectedIDs\<close> only ever holds \<open>true\<close>: it is the set of its keys.\<close>

definition handleSpaceSelection :: "Model \<Rightarrow> Model outcome" where
  "handleSpaceSelection m =
     (if \<not> m_showLogs m \<and> \<not> m_showDetail m \<and> \<not> m_showMap m \<and> m_cursor m < int (length (m_containers m)) then
        bind_outcome (index_at (m_containers m) (m_cursor m)) (\<lambda>c.
          let i = cd_ID c
          in Ret (if i \<in> m_selectedIDs m then m\<lparr>m_selectedIDs := m_selectedIDs m - {i}\<rparr>
                  else m\<lparr>m_selectedIDs := insert i (m_selectedIDs m)\<rparr>))
      else Ret m)"

definition handleNavigationKeys :: "string \<Rightarrow> Model \<Rightarrow> handled" where
  "handleNavigationKeys k m =
     bind_outcome
       (if k = ''/'' then Ret (handleSearchToggle m)
        else if k = ''up'' \<or> k = ''k'' then Ret (handleScrollUp m)
        else if k = ''down'' \<or> k = ''j'' then Ret (handleScrollDown m)
        else if k = ''f'' then Ret (handleScrollReset m)
        else if k = '' '' then handleSpaceSelection m
        else Ret m)
       (\<lambda>m. Ret (m, []))"

text \<open>The filter of the log view, shared by the panel and the export.\<close>

definition log_matches :: "(string \<Rightarrow> string) \<Rightarrow> string \<Rightarrow> LogEntry \<Rightarrow> bool" where
  "log_matches uni search entry \<longleftrightarrow>
     search = '''' \<or> str_contains (to_lower uni (le_Text entry)) (to_lower uni search)"

definition exportContent :: "(string \<Rightarrow> string) \<Rightarrow> Model \<Rightarrow> string" where
  "exportContent uni m =
     concat (map (\<lambda>entry. (if length (m_logContainers m) > 1 then ''['' @ le_Container entry @ ''] '' else '''') @
                          le_Text entry @ nl)
       (filter (log_matches uni (m_logSearch m)) (m_logLines m)))"

definition exportLogs :: "tui_env \<Rightarrow> Model \<Rightarrow> handled" where
  "exportLogs env m =
     (if \<not> m_showLogs m \<or> length (m_logLines m) = 0 then Ret (m, [])
      else
        let content = exportContent (te_uni env) m;
            lineCount = length (filter (log_matches (te_uni env) (m_logSearch m)) (m_logLines m));
            pattern = ''castle-rock-logs-'' @
              (case m_logContainers m of [name] \<Rightarrow> name @ ''-'' | _ \<Rightarrow> ''multi-'') @ ''*.txt''
        in (case te_createTemp env pattern content of
              Inl err \<Rightarrow> Ret (push_event (te_now env) icon_cross ''export fail'' err m, [])
            | Inr fileName \<Rightarrow>
                Ret (push_event (te_now env) icon_export ''export''
                       (nat_str lineCount @ '' lines '' @ arrow @ '' '' @ fileName) m, [])))"

fun tailSelected :: "(string \<Rightarrow> error + log_chan) \<Rightarrow> ContainerDisplay list \<Rightarrow> cmd list" where
  "tailSelected logs [] = []"
| "tailSelected logs (c # cs) =
     (case logs (cd_ID c) of
        Inr ch \<Rightarrow> WaitForNextLog (cd_Name c) ch # tailSelected logs cs
      | Inl err \<Rightarrow> tailSelected logs cs)"

definition startMultiTailLogs :: "tui_env \<Rightarrow> Model \<Rightarrow> handled" where
  "startMultiTailLogs env m =
     (if m_showLogs m \<or> m_selectedIDs m = {} then Ret (m, [])
      else
        let chosen = filter (\<lambda>c. cd_ID c \<in> m_selectedIDs m) (m_containers m)
        in Ret (m\<lparr>m_showLogs := True, m_logOffset := 0,
                  m_logLines := [\<lparr>le_Container = ''System'', le_Text = ''Loading aggregate logs...''\<rparr>],
                  m_logContainers := map cd_Name chosen\<rparr>,
                tailSelected (te_logs env) chosen))"

definition toggleSingleContainerLogs :: "tui_env \<Rightarrow> Model \<Rightarrow> handled" where
  "toggleSingleContainerLogs env m =
     (if m_showLogs m then Ret (m\<lparr>m_showLogs := False, m_logLines := []\<rparr>, [])
      else if m_cursor m \<ge> int (length (m_containers m)) then Ret (m, [])
      else bind_outcome (index_at (m_containers m) (m_cursor m)) (\<lambda>c.
        let m = m\<lparr>m_showLogs := True, m_logOffset := 0,
                  m_logLines := [\<lparr>le_Container = cd_Name c, le_Text = ''Loading logs...''\<rparr>],
                  m_logContainers := [cd_Name c]\<rparr>
        in (case te_logs env (cd_ID c) of
              Inr ch \<Rightarrow> Ret (m, [WaitForNextLog (cd_Name c) ch])
            | Inl err \<Rightarrow> Ret (m, []))))"

definition handleLogKeys :: "tui_env \<Rightarrow> string \<Rightarrow> Model \<Rightarrow> handled" where
  "handleLogKeys env k m =
     (if k = ''E'' then exportLogs env m
      else if k = ''L'' then startMultiTailLogs env m
      else if k = ''l'' then toggleSingleContainerLogs env m
      else Ret (m, []))"

definition executeShell :: "Model \<Rightarrow> cmd list outcome" where
  "executeShell m = bind_outcome (index_at (m_containers m) (m_cursor m)) (\<lambda>c. Ret [ExecuteShell (cd_Name c)])"

definition handleActionKeys :: "string \<Rightarrow> Model \<Rightarrow> handled" where
  "handleActionKeys k m =
     (if k = ''s'' then
        Ret (if m_cursor m < int (length (m_containers m)) then m\<lparr>m_confirmAction := ''stop''\<rparr> else m, [])
      else if k = ''R'' then
        Ret (if m_cursor m < int (length (m_containers m)) then m\<lparr>m_confirmAction := ''restart''\<rparr> else m, [])
      else if k = ''x'' then
        (if \<not> m_showLogs m \<and> \<not> m_showDetail m \<and> \<not> m_showMap m \<and> m_cursor m < int (length (m_containers m))
         then bind_outcome (executeShell m) (\<lambda>cs. Ret (m, cs)) else Ret (m, []))
      else if k = ''S'' then Ret (m\<lparr>m_showStress := True\<rparr>, [])
      else Ret (m, []))"

definition handleViewKeys :: "tui_env \<Rightarrow> string \<Rightarrow> Model \<Rightarrow> handled" where
  "handleViewKeys env k m =
     (if k = ''?'' then Ret (m\<lparr>m_showHelp := \<not> m_showHelp m\<rparr>, [])
      else if k = ''enter'' then Ret (m\<lparr>m_showDetail := \<not> m_showDetail m\<rparr>, [])
      else if k = ''esc'' then
        Ret (m\<lparr>m_showDetail := False, m_showHelp := False, m_showLogs := False, m_logLines := [],
               m_searchMode := False, m_logSearch := '''', m_confirmAction := '''', m_showStress := False,
               m_showMap := False, m_showCleanup := False\<rparr>, [])
      else if k = ''C'' then
        (if \<not> m_showLogs m \<and> \<not> m_showDetail m \<and> \<not> m_showMap m then
           (let m = m\<lparr>m_showCleanup := \<not> m_showCleanup m\<rparr>
            in if m_showCleanup m then Ret (m, [FetchDiskUsage]) else Ret (m, []))
         else Ret (m, []))
      else if k = ''m'' \<or> k = ''M'' then
        (let m = m\<lparr>m_showMap := \<not> m_showMap m\<rparr>
         in if m_showMap m then
              (case BuildMap (te_networks env) of
                 Inr edges \<Rightarrow> Ret (m\<lparr>m_mapData := edges\<rparr>, [])
               | Inl err \<Rightarrow> Ret (m, []))
            else Ret (m, []))
      else Ret (m, []))"

definition handleNormalKeys :: "tui_env \<Rightarrow> string \<Rightarrow> Model \<Rightarrow> handled" where
  "handleNormalKeys env k m =
     (if k \<in> set [''a'', ''A''] then
        (let m = m\<lparr>m_showAll := \<not> m_showAll m\<rparr>
         in Ret (m, [FetchContainers (m_showAll m), FetchStats (m_showAll m)]))
      else if k \<in> set [''q'', ''ctrl+c''] then Ret (m\<lparr>m_quitting := True\<rparr>, [Quit])
      else if k \<in> set [''/'', ''up'', ''k'', ''down'', ''j'', ''f'', '' ''] then handleNavigationKeys k m
      else if k \<in> set [''l'', ''L'', ''E''] then handleLogKeys env k m
      else if k \<in> set [''s'', ''R'', ''x'', ''S''] then handleActionKeys k m
      else if k = ''r'' then Ret (m, [FetchContainers (m_showAll m), FetchStats (m_showAll m)])
      else if k \<in> set [''?'', ''enter'', ''esc'', ''C'', ''m'', ''M''] then handleViewKeys env k m
      else Ret (m, []))"

definition handleKeyMsg :: "tui_env \<Rightarrow> string \<Rightarrow> Model \<Rightarrow> handled" where
  "handleKeyMsg env k m =
     bind_outcome (handleModalKeys k m) (\<lambda>(m', cmds, done).
       if done then Ret (m', cmds) else handleNormalKeys env k m)"

section \<open>Update\<close>

definition Update :: "tui_env \<Rightarrow> msg \<Rightarrow> Model \<Rightarrow> handled" where
  "Update env msg m =
     (case msg of
        KeyMsg k \<Rightarrow> handleKeyMsg env k m
      | WindowSizeMsg w h \<Rightarrow> Ret (m\<lparr>m_width := w, m_height := h\<rparr>, [])
      | ContainerListMsg cs \<Rightarrow> handleContainerListMsg env cs m
      | StatsMsg st \<Rightarrow> handleStatsMsg env st m
      | DockerEventMsg e \<Rightarrow> handleDockerEventMsg env e m
      | DockerErrorMsg err \<Rightarrow> bind_outcome (err_Error err) (\<lambda>e. Ret (push_event (te_now env) icon_cross ''error'' e m, []))
      | LogLineMsg c line nextCh \<Rightarrow> handleLogLineMsg c line nextCh m
      | ActionResultMsg success action c err \<Rightarrow> handleActionResultMsg env success action c m
      | StressResultMsg success mode err \<Rightarrow> handleStressResultMsg env success mode err m
      | DiskUsageMsg usage \<Rightarrow> Ret (m\<lparr>m_diskUsage := usage\<rparr>, [])
      | PruneResultMsg reclaimed target err \<Rightarrow> handlePruneResultMsg env reclaimed target err m
      | HostStatsMsg cpu mem \<Rightarrow> Ret (m\<lparr>m_hostCPU := cpu, m_hostMem := mem\<rparr>, [])
      | TickMsg t \<Rightarrow> handleTickMsg t m)"

section \<open>Running the commands\<close>

text \<open>
  The commands call the interface \<open>docker.ContainerEngine\<close>, the receiver, the host probes and the
  clock. \<open>'w\<close> is the state of the outside world that these calls read and change.
\<close>

text \<open>What the \<open>select\<close> of \<open>watchDockerEvents\<close> may receive; a closed error channel gives a nil error.\<close>

datatype watched = CtxDone | FromErrCh "error option" | EventChClosed | FromEventCh ContainerEvent

record 'w world =
  ListRunningContainersDetailed_api :: "bool \<Rightarrow> 'w \<Rightarrow> (error + ContainerDisplay list) \<times> 'w"
  ListRunningContainers_api :: "bool \<Rightarrow> 'w \<Rightarrow> (error + ContainerInfo list) \<times> 'w"
  GetAllContainerStats_api :: "ContainerInfo list \<Rightarrow> 'w \<Rightarrow> (error + stats) \<times> 'w"
  WatchEvents_api :: "'w \<Rightarrow> watched \<times> 'w"
  StopContainer_api :: "string \<Rightarrow> 'w \<Rightarrow> error option \<times> 'w"
  RestartContainer_api :: "string \<Rightarrow> 'w \<Rightarrow> error option \<times> 'w"
  RunStressTest_api :: "string \<Rightarrow> int \<Rightarrow> 'w \<Rightarrow> error option \<times> 'w"
  PruneImages_api :: "'w \<Rightarrow> (64 word \<times> error option) \<times> 'w"
  PruneVolumes_api :: "'w \<Rightarrow> (64 word \<times> error option) \<times> 'w"
  GetDiskUsage_api :: "'w \<Rightarrow> (error + SystemDiskUsage) \<times> 'w"
  receive_log :: "log_chan \<Rightarrow> 'w \<Rightarrow> string option \<times> 'w"
  exec_docker :: "string \<Rightarrow> string \<Rightarrow> 'w \<Rightarrow> error option \<times> 'w"
  cpu_Percent :: "'w \<Rightarrow> float64 list"
  mem_UsedPercent :: "'w \<Rightarrow> float64 option"
  clock :: "'w \<Rightarrow> time"
  remote_containers :: "'w \<Rightarrow> ContainerInfo list option"
  remote_metrics :: "'w \<Rightarrow> ContainerMetrics list option"
  evolves :: "'w \<Rightarrow> 'w \<Rightarrow> bool"

definition localHost :: "string \<Rightarrow> string" where
  "localHost hostID = (if hostID = '''' then ''local'' else hostID)"

text \<open>The display of a container reported by a worker: the fields a worker does not send are zero.\<close>

definition remoteDisplay :: "ContainerInfo \<Rightarrow> ContainerDisplay" where
  "remoteDisplay r =
     \<lparr>cd_HostID = ci_HostID r, cd_ID = ci_ID r, cd_Name = ci_Name r, cd_Image = ci_Image r, cd_Status = ci_Status r,
      cd_State = ci_State r, cd_Command = '''', cd_Ports = ci_Ports r, cd_Created = '''', cd_Networks = [],
      cd_Labels = [], cd_SizeRw = '''', cd_Env = [], cd_HealthStatus = '''', cd_HealthLog = '''', cd_Mounts = [],
      cd_RestartPolicy = '''', cd_RestartCount = 0, cd_CPULimit = Fin 0, cd_MemoryLimit = 0, cd_Entrypoint = ''''\<rparr>"

definition fetchContainers :: "'w world \<Rightarrow> Config \<Rightarrow> bool \<Rightarrow> 'w \<Rightarrow> msg \<times> 'w" where
  "fetchContainers api cfg showAll w =
     (case ListRunningContainersDetailed_api api showAll w of
        (Inl err, w) \<Rightarrow> (DockerErrorMsg (Some err), w)
      | (Inr containers, w) \<Rightarrow>
          (let containers = map (\<lambda>c. c\<lparr>cd_HostID := localHost (cl_HostID (Cluster cfg))\<rparr>) containers;
               containers = (case remote_containers api w of
                               None \<Rightarrow> containers
                             | Some remotes \<Rightarrow> containers @ map remoteDisplay remotes)
           in (ContainerListMsg containers, w)))"

definition mergeRemote :: "ContainerMetrics list \<Rightarrow> stats \<Rightarrow> stats" where
  "mergeRemote rs st = fold (\<lambda>r st. st(cm_ContainerID r \<mapsto> r)) rs st"

definition fetchStats :: "'w world \<Rightarrow> bool \<Rightarrow> 'w \<Rightarrow> msg \<times> 'w" where
  "fetchStats api showAll w =
     (case ListRunningContainers_api api showAll w of
        (Inl err, w) \<Rightarrow> (DockerErrorMsg (Some err), w)
      | (Inr containers, w) \<Rightarrow>
          (case GetAllContainerStats_api api containers w of
             (Inl err, w) \<Rightarrow> (DockerErrorMsg (Some err), w)
           | (Inr st, w) \<Rightarrow>
               (StatsMsg (case remote_metrics api w of None \<Rightarrow> st | Some rs \<Rightarrow> mergeRemote rs st), w)))"

definition watchDockerEvents :: "'w world \<Rightarrow> 'w \<Rightarrow> msg option \<times> 'w" where
  "watchDockerEvents api w =
     (case WatchEvents_api api w of
        (CtxDone, w) \<Rightarrow> (None, w)
      | (FromErrCh err, w) \<Rightarrow> (Some (DockerErrorMsg err), w)
      | (EventChClosed, w) \<Rightarrow> (None, w)
      | (FromEventCh event, w) \<Rightarrow> (Some (DockerEventMsg event), w))"

definition fetchHostStats :: "'w world \<Rightarrow> 'w \<Rightarrow> msg" where
  "fetchHostStats api w =
     HostStatsMsg (case cpu_Percent api w of [] \<Rightarrow> Fin 0 | c # _ \<Rightarrow> c)
                  (case mem_UsedPercent api w of None \<Rightarrow> Fin 0 | Some v \<Rightarrow> v)"

definition fetchDiskUsage :: "'w world \<Rightarrow> 'w \<Rightarrow> msg \<times> 'w" where
  "fetchDiskUsage api w =
     (case GetDiskUsage_api api w of
        (Inl err, w) \<Rightarrow> (DockerErrorMsg (Some err), w)
      | (Inr du, w) \<Rightarrow> (DiskUsageMsg du, w))"

definition runPrune :: "'w world \<Rightarrow> string \<Rightarrow> 'w \<Rightarrow> msg \<times> 'w" where
  "runPrune api target w =
     (case (if target = ''images'' then PruneImages_api api w
            else if target = ''volumes'' then PruneVolumes_api api w
            else ((0, None), w)) of
        ((reclaimed, err), w) \<Rightarrow> (PruneResultMsg reclaimed target err, w))"

definition waitForNextLog :: "'w world \<Rightarrow> string \<Rightarrow> log_chan \<Rightarrow> 'w \<Rightarrow> msg option \<times> 'w" where
  "waitForNextLog api containerName logCh w =
     (case receive_log api logCh w of
        (None, w) \<Rightarrow> (None, w)
      | (Some line, w) \<Rightarrow> (Some (LogLineMsg containerName line (Some logCh)), w))"

definition executeAction :: "'w world \<Rightarrow> string \<Rightarrow> string \<Rightarrow> string \<Rightarrow> 'w \<Rightarrow> msg \<times> 'w" where
  "executeAction api action containerID containerName w =
     (case (if action = ''stop'' then StopContainer_api api containerID w
            else if action = ''restart'' then RestartContainer_api api containerID w
            else (None, w)) of
        (err, w) \<Rightarrow> (ActionResultMsg (err = None) action containerName err, w))"

definition executeStress :: "'w world \<Rightarrow> string \<Rightarrow> 'w \<Rightarrow> msg \<times> 'w" where
  "executeStress api mode w =
     (case RunStressTest_api api mode 30 w of (err, w) \<Rightarrow> (StressResultMsg (err = None) mode err, w))"

definition runShell :: "'w world \<Rightarrow> string \<Rightarrow> 'w \<Rightarrow> msg option \<times> 'w" where
  "runShell api name w =
     (case exec_docker api name ''/bin/sh'' w of
        (None, w) \<Rightarrow> (None, w)
      | (Some err, w) \<Rightarrow>
          (case exec_docker api name ''/bin/bash'' w of
             (None, w) \<Rightarrow> (None, w)
           | (Some err2, w) \<Rightarrow> (Some (DockerErrorMsg (Some (''shell exec failed (sh/bash): '' @ err2))), w)))"

definition run_cmd :: "'w world \<Rightarrow> Config \<Rightarrow> cmd \<Rightarrow> 'w \<Rightarrow> msg option \<times> 'w" where
  "run_cmd api cfg c w =
     (case c of
        FetchContainers showAll \<Rightarrow> apfst Some (fetchContainers api cfg showAll w)
      | FetchStats showAll \<Rightarrow> apfst Some (fetchStats api showAll w)
      | FetchHostStats \<Rightarrow> (Some (fetchHostStats api w), w)
      | WatchDockerEvents \<Rightarrow> watchDockerEvents api w
      | TickCmd \<Rightarrow> (Some (TickMsg (clock api w)), w)
      | WaitForNextLog name ch \<Rightarrow> waitForNextLog api name ch w
      | ExecuteAction action i name \<Rightarrow> apfst Some (executeAction api action i name w)
      | ExecuteStress mode \<Rightarrow> apfst Some (executeStress api mode w)
      | ExecuteShell name \<Rightarrow> runShell api name w
      | RunPrune target \<Rightarrow> apfst Some (runPrune api target w)
      | FetchDiskUsage \<Rightarrow> apfst Some (fetchDiskUsage api w)
      | Quit \<Rightarrow> (None, w))"

section \<open>The runtime\<close>

text \<open>
  The event loop of the terminal library runs the scheduled commands concurrently and hands their
  messages, and the user's input, to \<open>Update\<close> one at a time. A state of the system is the model, the
  commands still running, the messages waiting for delivery and the world, which may change at any
  time the way \<open>evolves\<close> allows. \<open>runs api s0 h s\<close> says that \<open>s\<close> is reached from \<open>s0\<close> by handling the messages \<open>h\<close>, newest first.
\<close>

record 'w system =
  sy_model :: Model
  sy_pending :: "cmd multiset"
  sy_inbox :: "msg multiset"
  sy_world :: 'w

fun is_input :: "msg \<Rightarrow> bool" where
  "is_input (KeyMsg k) = True"
| "is_input (WindowSizeMsg w h) = True"
| "is_input _ = False"

definition start_system :: "Model \<Rightarrow> 'w \<Rightarrow> 'w system" where
  "start_system m w = \<lparr>sy_model = m, sy_pending = mset (Init m), sy_inbox = {#}, sy_world = w\<rparr>"

inductive runs :: "'w world \<Rightarrow> 'w system \<Rightarrow> msg list \<Rightarrow> 'w system \<Rightarrow> bool" for api s0 where
  runs_refl: "runs api s0 [] s0"
| runs_input: "runs api s0 h s \<Longrightarrow> is_input msg \<Longrightarrow> Update env msg (sy_model s) = Ret (m', cs) \<Longrightarrow>
    runs api s0 (msg # h) (s\<lparr>sy_model := m', sy_pending := sy_pending s + mset cs\<rparr>)"
| runs_command: "runs api s0 h s \<Longrightarrow> c \<in># sy_pending s \<Longrightarrow>
    run_cmd api (m_cfg (sy_model s)) c (sy_world s) = (result, w') \<Longrightarrow>
    runs api s0 h (s\<lparr>sy_pending := sy_pending s - {#c#},
      sy_inbox := sy_inbox s + (case result of None \<Rightarrow> {#} | Some msg \<Rightarrow> {#msg#}), sy_world := w'\<rparr>)"
| runs_deliver: "runs api s0 h s \<Longrightarrow> msg \<in># sy_inbox s \<Longrightarrow> Update env msg (sy_model s) = Ret (m', cs) \<Longrightarrow>
    runs api s0 (msg # h) (s\<lparr>sy_model := m', sy_inbox := sy_inbox s - {#msg#}, sy_pending := sy_pending s + mset cs\<rparr>)"
| runs_elapse: "runs api s0 h s \<Longrightarrow> evolves api (sy_world s) w' \<Longrightarrow> runs api s0 h (s\<lparr>sy_world := w'\<rparr>)"

section \<open>Invariant\<close>

text \<open>
  The selection points at a container unless the list is empty, the log buffer is bounded, the scroll
  offset is not negative, at most one modal dialogue is open, and the grep filter is empty: no handler
  writes it. No event store is attached, since \<open>NewModel\<close> drops the one it is given.
\<close>

definition modals :: "Model \<Rightarrow> bool list" where
  "modals m = [m_confirmAction m \<noteq> '''', m_showStress m, m_showCleanup m, m_searchMode m]"

definition tui_inv :: "Model \<Rightarrow> bool" where
  "tui_inv m \<longleftrightarrow>
     0 \<le> m_cursor m \<and> (m_cursor m < int (length (m_containers m)) \<or> m_containers m = []) \<and>
     length (m_logLines m) \<le> 1000 \<and> 0 \<le> m_logOffset m \<and> m_logSearch m = '''' \<and>
     m_confirmAction m \<in> {'''', ''stop'', ''restart''} \<and> length (filter id (modals m)) \<le> 1 \<and>
     (m_searchMode m \<longrightarrow> m_showLogs m) \<and>
     (m_showCleanup m \<longrightarrow> \<not> m_showLogs m \<and> \<not> m_showDetail m \<and> \<not> m_showMap m) \<and>
     m_store m = None"

lemmas handler_defs =
  handleConfirmKeys_def handleStressKeys_def handleCleanupKeys_def handleSearchKeys_def handleSearchToggle_def
  handleScrollUp_def handleScrollDown_def handleScrollReset_def handleSpaceSelection_def handleNavigationKeys_def
  exportLogs_def startMultiTailLogs_def toggleSingleContainerLogs_def handleLogKeys_def executeShell_def
  handleActionKeys_def handleViewKeys_def

lemmas message_defs =
  handleContainerListMsg_def handleStatsMsg_def handleDockerEventMsg_def handleLogLineMsg_def
  handleActionResultMsg_def handleStressResultMsg_def handlePruneResultMsg_def handleTickMsg_def

lemma index_at_Ret [simp]: "index_at xs i = Ret x \<longleftrightarrow> 0 \<le> i \<and> i < int (length xs) \<and> x = xs ! nat i"
  by (auto simp: index_at_def)

lemma err_Error_Ret [simp]: "err_Error err = Ret e \<longleftrightarrow> err = Some e"
  by (auto simp: err_Error_def split: option.splits)

lemma push_event_eq: "\<exists>evs. push_event now icon action name m = m\<lparr>m_events := evs\<rparr>"
  by (auto simp: push_event_def)

lemma processSecurityAlerts_frame:
  "\<exists>au sa sm evs mk. processSecurityAlerts env m =
     m\<lparr>m_auditor := au, m_securityAlerts := sa, m_securityAlertsMap := sm, m_events := evs, m_alertMarks := mk\<rparr>"
proof (cases "m_auditor m")
  case None
  then have "processSecurityAlerts env m = m\<lparr>m_auditor := m_auditor m, m_securityAlerts := m_securityAlerts m,
      m_securityAlertsMap := m_securityAlertsMap m, m_events := m_events m, m_alertMarks := m_alertMarks m\<rparr>"
    by (simp add: processSecurityAlerts_def)
  then show ?thesis by blast
next
  case (Some a)
  obtain a' found where "Audit (te_sched env) (te_inspect env) (te_now env) (m_containers m) a = (a', found)"
    by fastforce
  with Some have "processSecurityAlerts env m =
     m\<lparr>m_auditor := Some a', m_securityAlerts := found, m_securityAlertsMap := groupAlerts found,
       m_events := (if length found > length (m_securityAlerts m)
          then \<lparr>el_Time = te_now env, el_Icon = icon_shield @ '' '', el_Action = ''SEC-AUDIT'',
                el_Name = nat_str (length found) @ '' issues found''\<rparr> # m_events m
          else m_events m),
       m_alertMarks := fold markActive (m_activeAlerts m) (fold markSecurity found Map.empty)\<rparr>"
    by (simp add: processSecurityAlerts_def updateAlertMarks_def push_event_def Let_def)
  then show ?thesis by blast
qed

lemma fold_alertEvent_frame: "\<exists>evs. fold (alertEvent env) as m = m\<lparr>m_events := evs\<rparr>"
proof (induction as arbitrary: m)
  case Nil
  show ?case by (auto intro: exI [of _ "m_events m"])
next
  case (Cons a as)
  obtain evs where "alertEvent env a m = m\<lparr>m_events := evs\<rparr>"
    using push_event_eq by (fastforce simp: alertEvent_def)
  moreover obtain evs' where "fold (alertEvent env) as (m\<lparr>m_events := evs\<rparr>) = m\<lparr>m_events := evs\<rparr>\<lparr>m_events := evs'\<rparr>"
    using Cons.IH by blast
  ultimately show ?case by auto
qed

lemma handleStatsMsg_frame:
  "\<exists>evs en aa mk. handleStatsMsg env st m =
     Ret (m\<lparr>m_stats := st, m_alertEngine := en, m_activeAlerts := aa, m_events := evs, m_alertMarks := mk\<rparr>, [])"
proof (cases "m_alertEngine m")
  case None
  then have "handleStatsMsg env st m = Ret (m\<lparr>m_stats := st, m_alertEngine := None, m_activeAlerts := m_activeAlerts m,
      m_events := m_events m, m_alertMarks := m_alertMarks (updateAlertMarks (m\<lparr>m_stats := st\<rparr>))\<rparr>, [])"
    by (simp add: handleStatsMsg_def updateAlertMarks_def)
  then show ?thesis by blast
next
  case (Some e)
  obtain e' new where E: "Evaluate e (te_now env) (te_statsRange env st) = (e', new)" by fastforce
  define m1 where "m1 = m\<lparr>m_stats := st, m_alertEngine := Some e',
     m_activeAlerts := GetActiveAlerts (te_bestOrder env) (te_activeRange env e')\<rparr>"
  obtain evs where "fold (alertEvent env) new m1 = m1\<lparr>m_events := evs\<rparr>"
    using fold_alertEvent_frame by blast
  with Some E have "handleStatsMsg env st m = Ret (updateAlertMarks (m1\<lparr>m_events := evs\<rparr>), [])"
    by (simp add: handleStatsMsg_def m1_def Let_def)
  then show ?thesis by (simp add: updateAlertMarks_def m1_def) blast
qed

lemma index_at_in_range [simp]: "0 \<le> i \<Longrightarrow> i < int (length xs) \<Longrightarrow> index_at xs i = Ret (xs ! nat i)"
  by simp

text \<open>A handler that returns, with the invariant.\<close>

definition sound :: "handled \<Rightarrow> bool" where
  "sound r \<longleftrightarrow> (\<exists>m cs. r = Ret (m, cs) \<and> tui_inv m)"

lemma sound_Ret [simp]: "sound (Ret (m, cs)) \<longleftrightarrow> tui_inv m"
  by (simp add: sound_def)

lemma sound_if: "(b \<Longrightarrow> sound r) \<Longrightarrow> (\<not> b \<Longrightarrow> sound r') \<Longrightarrow> sound (if b then r else r')"
  by simp

lemma tui_inv_push_event [simp]: "tui_inv (push_event now icon action name m) = tui_inv m"
  by (simp add: tui_inv_def modals_def push_event_def)

text \<open>Updates that touch no field of the invariant.\<close>

lemma tui_inv_frames [simp]:
  "tui_inv (m\<lparr>m_width := wi, m_height := he\<rparr>) = tui_inv m"
  "tui_inv (m\<lparr>m_diskUsage := du\<rparr>) = tui_inv m"
  "tui_inv (m\<lparr>m_hostCPU := c, m_hostMem := me\<rparr>) = tui_inv m"
  "tui_inv (m\<lparr>m_lastUpdate := t\<rparr>) = tui_inv m"
  "tui_inv (m\<lparr>m_showAll := sh\<rparr>) = tui_inv m"
  "tui_inv (m\<lparr>m_quitting := q\<rparr>) = tui_inv m"
  "tui_inv (m\<lparr>m_mapData := d\<rparr>) = tui_inv m"
  "tui_inv (m\<lparr>m_selectedIDs := sel\<rparr>) = tui_inv m"
  "tui_inv (m\<lparr>m_showHelp := hlp\<rparr>) = tui_inv m"
  "tui_inv (m\<lparr>m_events := evs\<rparr>) = tui_inv m"
  "tui_inv (m\<lparr>m_eventCount := n\<rparr>) = tui_inv m"
  "tui_inv (m\<lparr>m_pruning := b\<rparr>) = tui_inv m"
  "tui_inv (m\<lparr>m_pruneFeedback := fb\<rparr>) = tui_inv m"
  "tui_inv (m\<lparr>m_stats := st, m_alertEngine := en, m_activeAlerts := aa, m_events := evs, m_alertMarks := mk\<rparr>) = tui_inv m"
  "tui_inv (m\<lparr>m_auditor := au, m_securityAlerts := sa, m_securityAlertsMap := sm, m_events := evs, m_alertMarks := mk\<rparr>) = tui_inv m"
  by (simp_all add: tui_inv_def modals_def)

lemma tui_inv_logLines: "tui_inv m \<Longrightarrow> length l \<le> 1000 \<Longrightarrow> tui_inv (m\<lparr>m_logLines := l\<rparr>)"
  by (simp add: tui_inv_def modals_def)

lemma tui_inv_bounds:
  assumes "tui_inv m"
  shows "0 \<le> m_cursor m" and "0 \<le> m_logOffset m" and "length (m_logLines m) \<le> 1000" and "m_logSearch m = ''''"
    and "m_store m = None"
  using assms by (simp_all add: tui_inv_def)

text \<open>In normal mode no dialogue is open.\<close>

definition normal_mode :: "Model \<Rightarrow> bool" where
  "normal_mode m \<longleftrightarrow> m_confirmAction m = '''' \<and> \<not> m_showStress m \<and> \<not> m_showCleanup m \<and> \<not> m_searchMode m"

text \<open>Updates that keep the invariant under a condition.\<close>

lemma tui_inv_cursor_step:
  "tui_inv m \<Longrightarrow> 0 \<le> c \<Longrightarrow> c \<le> m_cursor m \<or> c < int (length (m_containers m)) \<Longrightarrow> tui_inv (m\<lparr>m_cursor := c\<rparr>)"
  by (simp add: tui_inv_def modals_def) linarith

lemma tui_inv_logOffset: "tui_inv m \<Longrightarrow> 0 \<le> i \<Longrightarrow> tui_inv (m\<lparr>m_logOffset := i\<rparr>)"
  by (simp add: tui_inv_def modals_def)

lemma tui_inv_searchMode: "tui_inv m \<Longrightarrow> normal_mode m \<Longrightarrow> m_showLogs m \<Longrightarrow> tui_inv (m\<lparr>m_searchMode := True\<rparr>)"
  by (simp add: tui_inv_def modals_def normal_mode_def)

lemma tui_inv_confirmAction:
  "tui_inv m \<Longrightarrow> normal_mode m \<Longrightarrow> a \<in> {''stop'', ''restart''} \<Longrightarrow> tui_inv (m\<lparr>m_confirmAction := a\<rparr>)"
  by (auto simp add: tui_inv_def modals_def normal_mode_def)

lemma tui_inv_showStress: "tui_inv m \<Longrightarrow> normal_mode m \<Longrightarrow> tui_inv (m\<lparr>m_showStress := True\<rparr>)"
  by (simp add: tui_inv_def modals_def normal_mode_def)

lemma tui_inv_open_logs:
  "tui_inv m \<Longrightarrow> normal_mode m \<Longrightarrow> length ls \<le> 1000 \<Longrightarrow>
   tui_inv (m\<lparr>m_showLogs := True, m_logOffset := 0, m_logLines := ls, m_logContainers := ns\<rparr>)"
  by (simp add: tui_inv_def modals_def normal_mode_def)

lemma tui_inv_close_logs:
  "tui_inv m \<Longrightarrow> normal_mode m \<Longrightarrow> tui_inv (m\<lparr>m_showLogs := False, m_logLines := []\<rparr>)"
  by (simp add: tui_inv_def modals_def normal_mode_def)

lemma tui_inv_views:
  "tui_inv m \<Longrightarrow> normal_mode m \<Longrightarrow> tui_inv (m\<lparr>m_showDetail := d\<rparr>)"
  "tui_inv m \<Longrightarrow> normal_mode m \<Longrightarrow> tui_inv (m\<lparr>m_showMap := d\<rparr>)"
  "tui_inv m \<Longrightarrow> normal_mode m \<Longrightarrow> \<not> m_showLogs m \<Longrightarrow> \<not> m_showDetail m \<Longrightarrow> \<not> m_showMap m \<Longrightarrow> tui_inv (m\<lparr>m_showCleanup := d\<rparr>)"
  by (simp_all add: tui_inv_def modals_def normal_mode_def)

lemma tui_inv_escape:
  "tui_inv m \<Longrightarrow>
   tui_inv (m\<lparr>m_showDetail := False, m_showHelp := False, m_showLogs := False, m_logLines := [],
               m_searchMode := False, m_logSearch := '''', m_confirmAction := '''', m_showStress := False,
               m_showMap := False, m_showCleanup := False\<rparr>)"
  by (simp add: tui_inv_def modals_def)

lemmas inv_updates = tui_inv_cursor_step tui_inv_logOffset tui_inv_searchMode tui_inv_confirmAction tui_inv_showStress
  tui_inv_open_logs tui_inv_close_logs tui_inv_views tui_inv_escape

lemma space_selection_returns: "tui_inv m \<Longrightarrow> \<exists>sel. handleSpaceSelection m = Ret (m\<lparr>m_selectedIDs := sel\<rparr>)"
  by (auto simp: handleSpaceSelection_def tui_inv_bounds Let_def intro: exI [of _ "m_selectedIDs m"])

lemma navigation_sound:
  assumes "tui_inv m" and "normal_mode m"
  shows "sound (handleNavigationKeys k m)"
proof -
  have "tui_inv (handleSearchToggle m)" "tui_inv (handleScrollUp m)" "tui_inv (handleScrollDown m)" "tui_inv (handleScrollReset m)"
    using assms tui_inv_bounds [OF assms(1)]
    by (auto simp: handleSearchToggle_def handleScrollUp_def handleScrollDown_def handleScrollReset_def
        intro!: tui_inv_cursor_step tui_inv_logOffset tui_inv_searchMode)
  moreover obtain sel where "handleSpaceSelection m = Ret (m\<lparr>m_selectedIDs := sel\<rparr>)"
    using space_selection_returns assms(1) by blast
  ultimately show ?thesis using assms(1) by (simp add: handleNavigationKeys_def)
qed

lemma log_keys_sound:
  assumes "tui_inv m" and "normal_mode m"
  shows "sound (handleLogKeys env k m)"
proof -
  have "sound (exportLogs env m)" "sound (startMultiTailLogs env m)" "sound (toggleSingleContainerLogs env m)"
    using assms tui_inv_bounds [OF assms(1)]
    by (simp_all add: exportLogs_def startMultiTailLogs_def toggleSingleContainerLogs_def Let_def inv_updates split: sum.split)
  with assms show ?thesis by (simp add: handleLogKeys_def)
qed

lemma action_keys_sound:
  assumes "tui_inv m" and "normal_mode m"
  shows "sound (handleActionKeys k m)"
  using assms tui_inv_bounds [OF assms(1)]
  by (simp add: handleActionKeys_def executeShell_def inv_updates)

lemma view_keys_sound:
  assumes "tui_inv m" and "normal_mode m"
  shows "sound (handleViewKeys env k m)"
  using assms by (simp add: handleViewKeys_def Let_def inv_updates split: sum.split)

lemma normal_keys_sound: "tui_inv m \<Longrightarrow> normal_mode m \<Longrightarrow> sound (handleNormalKeys env k m)"
  unfolding handleNormalKeys_def Let_def
  by (intro sound_if navigation_sound log_keys_sound action_keys_sound view_keys_sound) simp_all

lemma modal_keys_cases:
  assumes "tui_inv m"
  shows "normal_mode m \<and> handleModalKeys k m = Ret (m, [], False) \<or>
         \<not> normal_mode m \<and> (\<exists>m' cs. handleModalKeys k m = Ret (m', cs, True) \<and> tui_inv m')"
proof -
  have "tui_inv (m\<lparr>m_confirmAction := ''''\<rparr>)" "tui_inv (m\<lparr>m_showStress := False\<rparr>)"
    "tui_inv (m\<lparr>m_showCleanup := False, m_pruneFeedback := ''''\<rparr>)" "tui_inv (m\<lparr>m_searchMode := False, m_logSearch := ''''\<rparr>)"
    "tui_inv (m\<lparr>m_pruning := True, m_pruneFeedback := ''''\<rparr>)"
    using assms by (simp_all add: tui_inv_def modals_def split: if_splits)
  then show ?thesis
    using assms tui_inv_bounds [OF assms]
    by (simp add: handleModalKeys_def handleConfirmKeys_def handleStressKeys_def handleCleanupKeys_def
        handleSearchKeys_def normal_mode_def Let_def)
qed

lemma keys_sound:
  assumes "tui_inv m"
  shows "sound (handleKeyMsg env k m)"
  using modal_keys_cases [OF assms, of k] assms normal_keys_sound
  by (auto simp: handleKeyMsg_def)

text \<open>The messages on which \<open>Update\<close> dereferences a nil error.\<close>

fun nil_error :: "msg \<Rightarrow> bool" where
  "nil_error (DockerErrorMsg None) = True"
| "nil_error (StressResultMsg False mode None) = True"
| "nil_error _ = False"

lemma container_list_sound:
  assumes "tui_inv m"
  shows "sound (handleContainerListMsg env cs m)"
proof -
  define m1 where "m1 = m\<lparr>m_containers := cs, m_lastUpdate := te_now env\<rparr>"
  define m2 where "m2 = (if m_cursor m1 \<ge> int (length (m_containers m1)) \<and> length (m_containers m1) > 0
               then m1\<lparr>m_cursor := int (length (m_containers m1)) - 1\<rparr> else m1)"
  have "tui_inv m2"
    using assms by (auto simp: m2_def m1_def tui_inv_def modals_def)
  moreover have "handleContainerListMsg env cs m = Ret (processSecurityAlerts env m2, [])"
    by (simp add: handleContainerListMsg_def Let_def m2_def m1_def)
  moreover obtain au sa sm evs mk where "processSecurityAlerts env m2 =
     m2\<lparr>m_auditor := au, m_securityAlerts := sa, m_securityAlertsMap := sm, m_events := evs, m_alertMarks := mk\<rparr>"
    using processSecurityAlerts_frame by blast
  ultimately show ?thesis by simp
qed

lemma docker_event_sound: "tui_inv m \<Longrightarrow> sound (handleDockerEventMsg env e m)"
  by (simp add: handleDockerEventMsg_def Let_def push_event_def tui_inv_def modals_def split: if_splits)

lemma log_line_sound: "tui_inv m \<Longrightarrow> sound (handleLogLineMsg c line ch m)"
  by (simp add: handleLogLineMsg_def Let_def tui_inv_def modals_def split: option.split)

lemma Update_sound:
  assumes "tui_inv m" and "\<not> nil_error msg"
  shows "sound (Update env msg m)"
proof (cases msg)
  case (DockerErrorMsg err)
  with assms show ?thesis by (cases err) (simp_all add: Update_def err_Error_def)
next
  case (StressResultMsg success mode err)
  with assms show ?thesis
    by (cases err; cases success) (simp_all add: Update_def handleStressResultMsg_def err_Error_def Let_def)
next
  case (StatsMsg st)
  with assms show ?thesis
    using handleStatsMsg_frame [of env st m] by (auto simp: Update_def)
next
  case (PruneResultMsg r t err)
  with assms show ?thesis
    by (simp add: Update_def handlePruneResultMsg_def Let_def split: option.split)
qed (use assms in \<open>simp_all add: Update_def keys_sound container_list_sound docker_event_sound log_line_sound
       handleActionResultMsg_def handleTickMsg_def Let_def\<close>)

lemma Update_nil_error: "nil_error msg \<Longrightarrow> Update env msg m = Panic"
  by (cases msg rule: nil_error.cases)
    (simp_all add: Update_def err_Error_def handleStressResultMsg_def)

lemma Update_inv: "tui_inv m \<Longrightarrow> Update env msg m = Ret (m', cs) \<Longrightarrow> tui_inv m'"
  using Update_sound [of m msg env] Update_nil_error [of msg env m] by (cases "nil_error msg") auto

lemma NewModel_inv: "tui_inv (NewModel portInt now sysInfo version cfg store)"
  by (simp add: NewModel_def tui_inv_def modals_def)

lemma runs_inv: "runs api s0 h s \<Longrightarrow> tui_inv (sy_model s0) \<Longrightarrow> tui_inv (sy_model s)"
  by (induction rule: runs.induct) (auto intro: Update_inv)

section \<open>What the handlers schedule\<close>

text \<open>
  Commands of the heartbeat and of the event watch are scheduled by the handlers of their own
  messages only; actions on containers by the confirmation dialogue only.
\<close>

fun is_key :: "msg \<Rightarrow> bool" where
  "is_key (KeyMsg k) = True"
| "is_key _ = False"

lemma tailSelected_cmds: "c \<in> set (tailSelected logs cs) \<Longrightarrow> \<exists>n ch. c = WaitForNextLog n ch"
  by (induction cs) (auto split: sum.splits)

fun plain_cmd :: "cmd \<Rightarrow> bool" where
  "plain_cmd TickCmd = False"
| "plain_cmd WatchDockerEvents = False"
| "plain_cmd (ExecuteAction a i n) = False"
| "plain_cmd Quit = False"
| "plain_cmd _ = True"

definition emits :: "(cmd \<Rightarrow> bool) \<Rightarrow> handled \<Rightarrow> bool" where
  "emits P r \<longleftrightarrow> (\<forall>m cs c. r = Ret (m, cs) \<longrightarrow> c \<in> set cs \<longrightarrow> P c)"

lemma emits_Ret [simp]: "emits P (Ret (m, cs)) \<longleftrightarrow> list_all P cs"
  by (auto simp: emits_def list_all_iff)

lemma emits_if: "(b \<Longrightarrow> emits P r) \<Longrightarrow> (\<not> b \<Longrightarrow> emits P r') \<Longrightarrow> emits P (if b then r else r')"
  by simp

lemma emits_mono: "emits P r \<Longrightarrow> (\<And>c. P c \<Longrightarrow> Q c) \<Longrightarrow> emits Q r"
  by (auto simp: emits_def)

lemma tailSelected_plain: "list_all plain_cmd (tailSelected logs cs)"
  using tailSelected_cmds [of _ logs cs] by (fastforce simp: list_all_iff)

lemma navigation_emits: "emits P (handleNavigationKeys k m)"
  by (auto simp: handleNavigationKeys_def emits_def)

lemma log_keys_emit: "emits plain_cmd (handleLogKeys env k m)"
proof -
  have "emits plain_cmd (exportLogs env m)" "emits plain_cmd (startMultiTailLogs env m)"
    by (simp_all add: exportLogs_def startMultiTailLogs_def Let_def tailSelected_plain split: sum.split)
  moreover have "emits plain_cmd (toggleSingleContainerLogs env m)"
    by (auto simp: toggleSingleContainerLogs_def emits_def Let_def split: if_splits sum.splits)
  ultimately show ?thesis by (simp add: handleLogKeys_def)
qed

lemma action_keys_emit: "emits plain_cmd (handleActionKeys k m)"
proof -
  have "emits plain_cmd (bind_outcome (executeShell m) (\<lambda>cs. Ret (m, cs)))"
    by (auto simp: executeShell_def emits_def)
  then show ?thesis by (simp add: handleActionKeys_def)
qed

lemma view_keys_emit: "emits plain_cmd (handleViewKeys env k m)"
  by (simp add: handleViewKeys_def Let_def split: sum.split)

lemma normal_keys_emit:
  "emits (\<lambda>c. plain_cmd c \<or> c = Quit \<and> (k = ''q'' \<or> k = ''ctrl+c'')) (handleNormalKeys env k m)"
  unfolding handleNormalKeys_def Let_def
  by (intro emits_if navigation_emits emits_mono [OF log_keys_emit] emits_mono [OF action_keys_emit]
      emits_mono [OF view_keys_emit]) auto

text \<open>What a dialogue schedules: a confirmed action on the selected container, or a plain command.\<close>

definition confirmed :: "string \<Rightarrow> Model \<Rightarrow> cmd \<Rightarrow> bool" where
  "confirmed k m c \<longleftrightarrow>
     (k = ''y'' \<or> k = ''Y'') \<and> m_confirmAction m \<noteq> '''' \<and> 0 \<le> m_cursor m \<and> m_cursor m < int (length (m_containers m)) \<and>
     c = ExecuteAction (m_confirmAction m) (cd_ID (m_containers m ! nat (m_cursor m))) (cd_Name (m_containers m ! nat (m_cursor m)))"

lemma modal_keys_cmds:
  "handleModalKeys k m = Ret (m', cs, b) \<Longrightarrow> c \<in> set cs \<Longrightarrow> plain_cmd c \<or> confirmed k m c"
  by (auto simp: handleModalKeys_def handleConfirmKeys_def handleStressKeys_def handleCleanupKeys_def
      handleSearchKeys_def Let_def confirmed_def split: if_splits)

lemma key_emits:
  "emits (\<lambda>c. plain_cmd c \<or> confirmed k m c \<or> c = Quit \<and> (k = ''q'' \<or> k = ''ctrl+c'')) (handleKeyMsg env k m)"
proof (cases "handleModalKeys k m")
  case (Ret r)
  then obtain m1 cs b where M: "handleModalKeys k m = Ret (m1, cs, b)" by (cases r) auto
  with normal_keys_emit [of k env m] show ?thesis
    by (cases b) (auto simp: handleKeyMsg_def list_all_iff dest: modal_keys_cmds elim: emits_mono)
next
  case Panic
  then show ?thesis by (simp add: handleKeyMsg_def emits_def)
qed

text \<open>The same for the states handlers return.\<close>

definition yields :: "(Model \<Rightarrow> bool) \<Rightarrow> handled \<Rightarrow> bool" where
  "yields P r \<longleftrightarrow> (\<forall>m cs. r = Ret (m, cs) \<longrightarrow> P m)"

lemma yields_Ret [simp]: "yields P (Ret (m, cs)) \<longleftrightarrow> P m"
  by (simp add: yields_def)

lemma yields_if: "(b \<Longrightarrow> yields P r) \<Longrightarrow> (\<not> b \<Longrightarrow> yields P r') \<Longrightarrow> yields P (if b then r else r')"
  by simp

abbreviation asks :: "string \<Rightarrow> Model \<Rightarrow> bool" where
  "asks k m \<equiv> m_confirmAction m = '''' \<or> k = ''s'' \<and> m_confirmAction m = ''stop'' \<or> k = ''R'' \<and> m_confirmAction m = ''restart''"

lemma push_event_fields [simp]:
  "m_confirmAction (push_event now icon action name m) = m_confirmAction m"
  "m_containers (push_event now icon action name m) = m_containers m"
  "m_cursor (push_event now icon action name m) = m_cursor m"
  "m_showAll (push_event now icon action name m) = m_showAll m"
  "m_logLines (push_event now icon action name m) = m_logLines m"
  "m_quitting (push_event now icon action name m) = m_quitting m"
  by (simp_all add: push_event_def)

lemma shell_yields: "P m \<Longrightarrow> yields P (bind_outcome (executeShell m) (\<lambda>cs. Ret (m, cs)))"
  by (auto simp: yields_def)

lemma normal_keys_ask:
  assumes "m_confirmAction m = ''''"
  shows "yields (asks k) (handleNormalKeys env k m)"
proof -
  have "yields (asks k) (handleNavigationKeys k m)"
    using assms by (auto simp: handleNavigationKeys_def handleSearchToggle_def handleScrollUp_def handleScrollDown_def
        handleScrollReset_def handleSpaceSelection_def yields_def Let_def split: if_splits)
  moreover have "yields (asks k) (exportLogs env m)" "yields (asks k) (startMultiTailLogs env m)"
    using assms by (simp_all add: exportLogs_def startMultiTailLogs_def Let_def split: sum.split)
  moreover have "yields (asks k) (toggleSingleContainerLogs env m)"
    using assms by (auto simp: toggleSingleContainerLogs_def yields_def Let_def split: if_splits sum.splits)
  moreover have "yields (asks k) (handleActionKeys k m)"
    using assms by (simp add: handleActionKeys_def shell_yields)
  moreover have "yields (asks k) (handleViewKeys env k m)"
    using assms by (simp add: handleViewKeys_def Let_def split: sum.split)
  ultimately show ?thesis
    using assms unfolding handleNormalKeys_def handleLogKeys_def Let_def by (intro yields_if) simp_all
qed

lemma key_asks: "handleKeyMsg env k m = Ret (m', cs) \<Longrightarrow> asks k m'"
proof -
  assume H: "handleKeyMsg env k m = Ret (m', cs)"
  then obtain m1 cs1 b where M: "handleModalKeys k m = Ret (m1, cs1, b)"
    by (auto simp: handleKeyMsg_def)
  show ?thesis
  proof (cases b)
    case True
    have "m_confirmAction m1 = ''''"
      using M by (auto simp: handleModalKeys_def handleConfirmKeys_def handleStressKeys_def handleCleanupKeys_def
          handleSearchKeys_def Let_def split: if_splits)
    with True H M show ?thesis by (simp add: handleKeyMsg_def)
  next
    case False
    then have "m_confirmAction m = ''''"
      using M by (auto simp: handleModalKeys_def handleConfirmKeys_def handleStressKeys_def handleCleanupKeys_def
          handleSearchKeys_def Let_def split: if_splits)
    from normal_keys_ask [OF this, of k env] False H M show ?thesis
      by (simp add: handleKeyMsg_def yields_def)
  qed
qed

text \<open>Messages that are not keys: the commands they schedule, and what they leave alone.\<close>

fun is_tick :: "msg \<Rightarrow> bool" where
  "is_tick (TickMsg t) = True"
| "is_tick _ = False"

fun is_docker_event :: "msg \<Rightarrow> bool" where
  "is_docker_event (DockerEventMsg e) = True"
| "is_docker_event _ = False"

fun other_cmd :: "msg \<Rightarrow> cmd \<Rightarrow> bool" where
  "other_cmd msg TickCmd = is_tick msg"
| "other_cmd msg WatchDockerEvents = is_docker_event msg"
| "other_cmd msg c = plain_cmd c"

lemma container_list_frame:
  "\<exists>m1. handleContainerListMsg env cs m = Ret (m1, []) \<and> m_containers m1 = cs \<and>
     m_confirmAction m1 = m_confirmAction m \<and> m_showStress m1 = m_showStress m \<and> m_showCleanup m1 = m_showCleanup m \<and>
     m_searchMode m1 = m_searchMode m \<and> m_quitting m1 = m_quitting m \<and>
     m_cursor m1 = (if m_cursor m \<ge> int (length cs) \<and> cs \<noteq> [] then int (length cs) - 1 else m_cursor m)"
proof -
  define m2 where "m2 = (if m_cursor m \<ge> int (length cs) \<and> length cs > 0
     then m\<lparr>m_containers := cs, m_lastUpdate := te_now env, m_cursor := int (length cs) - 1\<rparr>
     else m\<lparr>m_containers := cs, m_lastUpdate := te_now env\<rparr>)"
  obtain au sa sm evs mk where "processSecurityAlerts env m2 =
     m2\<lparr>m_auditor := au, m_securityAlerts := sa, m_securityAlertsMap := sm, m_events := evs, m_alertMarks := mk\<rparr>"
    using processSecurityAlerts_frame by blast
  then show ?thesis by (auto simp: handleContainerListMsg_def Let_def m2_def)
qed

lemma other_frame:
  assumes "\<not> is_key msg" and "Update env msg m = Ret (m', cs)"
  shows "list_all (other_cmd msg) cs \<and> m_confirmAction m' = m_confirmAction m \<and> m_quitting m' = m_quitting m
    \<and> count (mset cs) TickCmd = (if is_tick msg then 1 else 0)
    \<and> count (mset cs) WatchDockerEvents = (if is_docker_event msg then 1 else 0)"
proof (cases msg)
  case (ContainerListMsg l)
  with assms container_list_frame [of env l m] show ?thesis by (auto simp: Update_def)
next
  case (StatsMsg st)
  with assms handleStatsMsg_frame [of env st m] show ?thesis by (auto simp: Update_def)
next
  case (StressResultMsg success mode err)
  with assms show ?thesis by (auto simp: Update_def handleStressResultMsg_def Let_def split: if_splits)
next
  case (PruneResultMsg r t err)
  with assms show ?thesis by (cases err) (auto simp: Update_def handlePruneResultMsg_def Let_def)
qed (use assms in \<open>auto simp: Update_def handleDockerEventMsg_def handleLogLineMsg_def handleActionResultMsg_def
       handleTickMsg_def Let_def split: if_splits option.splits\<close>)

end
