(* ===== verification/TuiRun.thy ===== *)
theory TuiRun
  imports Tui
begin

text \<open>
  Runs of the dashboard: what holds in every state its event loop reaches and along every sequence of
  messages. The development's view of \<^verbatim>\<open>internal/tui/tui.go\<close> as a system: model, scheduled commands
  and the messages they deliver.
\<close>

section \<open>Commands and messages in flight\<close>

lemma Update_counts:
  assumes "Update env msg m = Ret (m', cs)"
  shows "count (mset cs) TickCmd = (if is_tick msg then 1 else 0)"
    and "count (mset cs) WatchDockerEvents = (if is_docker_event msg then 1 else 0)"
proof -
  have "count (mset cs) TickCmd = 0 \<and> count (mset cs) WatchDockerEvents = 0 \<and> \<not> is_tick msg \<and> \<not> is_docker_event msg" if key: "is_key msg"
  proof -
    obtain k where k: "msg = KeyMsg k" using key by (cases msg) auto
    have "list_all (\<lambda>c. plain_cmd c \<or> confirmed k m c \<or> c = Quit \<and> (k = ''q'' \<or> k = ''ctrl+c'')) cs"
      using key_emits [of k m env] assms k by (auto simp: Update_def)
    then have "TickCmd \<notin> set cs" "WatchDockerEvents \<notin> set cs" by (auto simp: list_all_iff confirmed_def)
    then show ?thesis using k by (simp add: count_mset_0_iff)
  qed
  with other_frame [OF _ assms]
  show "count (mset cs) TickCmd = (if is_tick msg then 1 else 0)"
    and "count (mset cs) WatchDockerEvents = (if is_docker_event msg then 1 else 0)"
    by (cases "is_key msg"; simp)+
qed

text \<open>What the commands deliver.\<close>

lemmas command_defs = fetchContainers_def fetchStats_def fetchHostStats_def watchDockerEvents_def waitForNextLog_def
  executeAction_def executeStress_def runShell_def runPrune_def fetchDiskUsage_def

lemma run_cmd_delivers:
  assumes "run_cmd api cfg c w = (Some msg, w')"
  shows "is_tick msg \<longleftrightarrow> c = TickCmd"
    and "is_docker_event msg \<longrightarrow> c = WatchDockerEvents"
    and "\<not> is_input msg"
    and "nil_error msg \<longrightarrow> c = WatchDockerEvents \<and> msg = DockerErrorMsg None"
  using assms by (auto simp: run_cmd_def command_defs Let_def apfst_def map_prod_def
      split: cmd.splits prod.splits sum.splits option.splits watched.splits elim: nil_error.elims)

text \<open>Heartbeats and event watches in flight: a command still running or its message waiting.\<close>

definition ticks :: "'w system \<Rightarrow> nat" where
  "ticks s = count (sy_pending s) TickCmd + size (filter_mset is_tick (sy_inbox s))"

definition watches :: "'w system \<Rightarrow> nat" where
  "watches s = count (sy_pending s) WatchDockerEvents + size (filter_mset is_docker_event (sy_inbox s))"

lemma size_filter_remove: "x \<in># M \<Longrightarrow> P x \<Longrightarrow> Suc (size (filter_mset P (M - {#x#}))) = size (filter_mset P M)"
  by (metis filter_mset_add_mset insert_DiffM size_add_mset)

lemma size_filter_remove_not: "x \<in># M \<Longrightarrow> \<not> P x \<Longrightarrow> filter_mset P (M - {#x#}) = filter_mset P M"
  by (metis filter_mset_add_mset insert_DiffM)

lemma runs_ticks: "runs api s0 h s \<Longrightarrow> ticks s = ticks s0"
proof (induction rule: runs.induct)
  case (runs_input h s msg env m' cs)
  then show ?case using Update_counts(1) [OF runs_input.hyps(3)]
    by (cases msg) (auto simp: ticks_def simp del: count_mset_0_iff)
next
  case (runs_command h s c result w')
  have "0 < count (sy_pending s) c" using runs_command.hyps(2) by simp
  moreover have "result \<noteq> None \<and> is_tick (the result)" if "c = TickCmd"
    using runs_command.hyps(3) that by (auto simp: run_cmd_def)
  moreover have "\<not> is_tick msg" if "c \<noteq> TickCmd" "result = Some msg" for msg
    using run_cmd_delivers(1) [of api "m_cfg (sy_model s)" c "sy_world s" msg w'] runs_command.hyps(3) that by simp
  ultimately have "ticks (s\<lparr>sy_pending := sy_pending s - {#c#},
      sy_inbox := sy_inbox s + (case result of None \<Rightarrow> {#} | Some msg \<Rightarrow> {#msg#}), sy_world := w'\<rparr>) = ticks s"
    by (cases result; cases "c = TickCmd") (simp_all add: ticks_def)
  with runs_command.IH show ?case by simp
next
  case (runs_deliver h s msg env m' cs)
  then show ?case
    using Update_counts(1) [OF runs_deliver.hyps(3)] size_filter_remove [of msg "sy_inbox s" is_tick]
      size_filter_remove_not [of msg "sy_inbox s" is_tick]
    by (cases "is_tick msg") (auto simp: ticks_def simp del: count_mset_0_iff)
qed (simp_all add: ticks_def)

lemma runs_watches: "runs api s0 h s \<Longrightarrow> watches s \<le> watches s0"
proof (induction rule: runs.induct)
  case (runs_input h s msg env m' cs)
  then show ?case using Update_counts(2) [OF runs_input.hyps(3)]
    by (cases msg) (auto simp: watches_def simp del: count_mset_0_iff)
next
  case (runs_command h s c result w')
  have "watches (s\<lparr>sy_pending := sy_pending s - {#c#},
      sy_inbox := sy_inbox s + (case result of None \<Rightarrow> {#} | Some msg \<Rightarrow> {#msg#}), sy_world := w'\<rparr>) \<le> watches s"
    using run_cmd_delivers(2) [of api "m_cfg (sy_model s)" c "sy_world s" _ w'] runs_command.hyps
      count_greater_zero_iff [of "sy_pending s" c]
    by (cases result; cases "c = WatchDockerEvents") (auto simp: watches_def simp del: count_mset_0_iff)
  with runs_command.IH show ?case by simp
next
  case (runs_deliver h s msg env m' cs)
  then show ?case
    using Update_counts(2) [OF runs_deliver.hyps(3)] size_filter_remove [of msg "sy_inbox s" is_docker_event]
      size_filter_remove_not [of msg "sy_inbox s" is_docker_event]
    by (cases "is_docker_event msg") (auto simp: watches_def simp del: count_mset_0_iff)
qed (simp_all add: watches_def)

lemma runs_start_inv:
  "runs api (start_system (NewModel portInt now sysInfo version cfg store) w) h s \<Longrightarrow> tui_inv (sy_model s)"
  by (erule runs_inv) (simp add: start_system_def NewModel_inv)

text \<open>No command delivers user input or a failed stress test without its error.\<close>

lemma runs_inbox:
  "runs api s0 h s \<Longrightarrow> (\<And>msg. msg \<in># sy_inbox s0 \<Longrightarrow> \<not> is_input msg \<and> (nil_error msg \<longrightarrow> msg = DockerErrorMsg None)) \<Longrightarrow>
   msg \<in># sy_inbox s \<Longrightarrow> \<not> is_input msg \<and> (nil_error msg \<longrightarrow> msg = DockerErrorMsg None)"
proof (induction arbitrary: msg rule: runs.induct)
  case (runs_command h s c result w')
  then show ?case
    using run_cmd_delivers(3,4) [of api "m_cfg (sy_model s)" c "sy_world s" msg w']
    by (cases result) auto
next
  case (runs_deliver h s msg env m' cs)
  then show ?case by (auto dest: in_diffD)
qed auto

section \<open>Confirmations\<close>

text \<open>
  A pending question was asked by the last key: the history, newest first, is some messages that are
  not keys, then \<open>s\<close> or \<open>R\<close>.
\<close>

fun asked_by :: "msg list \<Rightarrow> string \<Rightarrow> bool" where
  "asked_by [] a = False"
| "asked_by (KeyMsg k # h) a = (k = ''s'' \<and> a = ''stop'' \<or> k = ''R'' \<and> a = ''restart'')"
| "asked_by (_ # h) a = asked_by h a"

lemma asked_by_other: "\<not> is_key msg \<Longrightarrow> asked_by (msg # h) a = asked_by h a"
  by (cases msg) simp_all

lemma asked_by_key: "Update env msg m = Ret (m', cs) \<Longrightarrow> is_key msg \<Longrightarrow> m_confirmAction m' \<noteq> '''' \<Longrightarrow> asked_by (msg # h) (m_confirmAction m')"
  by (cases msg) (auto simp: Update_def dest!: key_asks)

lemma asked_by_step:
  assumes "Update env msg m = Ret (m', cs)" and "m_confirmAction m \<noteq> '''' \<longrightarrow> asked_by h (m_confirmAction m)"
  shows "m_confirmAction m' \<noteq> '''' \<longrightarrow> asked_by (msg # h) (m_confirmAction m')"
  using asked_by_key [OF assms(1)] other_frame [OF _ assms(1)] assms(2)
  by (cases "is_key msg") (auto simp: asked_by_other)

lemma runs_asked:
  "runs api s0 h s \<Longrightarrow> m_confirmAction (sy_model s0) = '''' \<Longrightarrow>
   m_confirmAction (sy_model s) \<noteq> '''' \<longrightarrow> asked_by h (m_confirmAction (sy_model s))"
proof (induction rule: runs.induct)
  case (runs_input h s msg env m' cs)
  then show ?case using asked_by_step [OF runs_input.hyps(3)] by simp
next
  case (runs_deliver h s msg env m' cs)
  then show ?case using asked_by_step [OF runs_deliver.hyps(3)] by simp
qed simp_all

lemma action_scheduled:
  assumes "Update env msg m = Ret (m', cs)" and "ExecuteAction a i n \<in> set cs"
  shows "\<exists>k. msg = KeyMsg k \<and> confirmed k m (ExecuteAction a i n)"
proof (cases "is_key msg")
  case True
  then obtain k where "msg = KeyMsg k" by (cases msg) auto
  with assms key_emits [of k m env] show ?thesis by (auto simp: Update_def list_all_iff)
next
  case False
  with other_frame [OF False assms(1)] assms(2) show ?thesis by (auto simp: list_all_iff)
qed

lemma y_confirms:
  "m_confirmAction m \<noteq> '''' \<Longrightarrow> 0 \<le> m_cursor m \<Longrightarrow> m_cursor m < int (length (m_containers m)) \<Longrightarrow>
   Update env (KeyMsg ''y'') m = Ret (m\<lparr>m_confirmAction := ''''\<rparr>,
     [ExecuteAction (m_confirmAction m) (cd_ID (m_containers m ! nat (m_cursor m))) (cd_Name (m_containers m ! nat (m_cursor m)))])"
  by (simp add: Update_def handleKeyMsg_def handleModalKeys_def handleConfirmKeys_def Let_def)

section \<open>Marks of the container table\<close>

definition alert_on :: "string \<Rightarrow> Alert list \<Rightarrow> bool" where
  "alert_on i as \<longleftrightarrow> list_ex (\<lambda>a. a_ContainerID a = i) as"

definition critical_on :: "string \<Rightarrow> Alert list \<Rightarrow> bool" where
  "critical_on i as \<longleftrightarrow> list_ex (\<lambda>a. a_ContainerID a = i \<and> a_Severity a = ''critical'') as"

text \<open>The mark of a container by priority: what the two loops of \<open>updateAlertMarks\<close> compute.\<close>

definition mark_of :: "Alert list \<Rightarrow> Alert list \<Rightarrow> string \<Rightarrow> string" where
  "mark_of sec active i =
     (if critical_on i active then mark_crit
      else if critical_on i sec then mark_sec_crit
      else if alert_on i active then mark_warn
      else if alert_on i sec then mark_sec_warn
      else '''')"

lemmas on_defs = alert_on_def critical_on_def
lemmas mark_defs = mark_crit_def mark_warn_def mark_sec_crit_def mark_sec_warn_def icon_siren_def icon_warn_def icon_shield_def

lemma mark_at_upd [simp]: "mark_at (mk(i \<mapsto> s)) j = (if i = j then s else mark_at mk j)"
  by (simp add: mark_at_def)

lemma mark_at_empty [simp]: "mark_at Map.empty j = ''''"
  by (simp add: mark_at_def)

lemma marks_distinct [simp]:
  "mark_crit \<noteq> mark_sec_crit" "mark_sec_crit \<noteq> mark_crit" "mark_warn \<noteq> mark_crit" "mark_warn \<noteq> mark_sec_crit"
  "mark_sec_warn \<noteq> mark_crit" "mark_sec_warn \<noteq> mark_sec_crit" "mark_sec_crit \<noteq> ''''" "mark_crit \<noteq> ''''"
  "'''' \<noteq> mark_sec_crit" "'''' \<noteq> mark_crit"
  by (simp_all add: mark_defs)

lemma fold_markSecurity:
  "mark_at (fold markSecurity as mk) i =
     (if critical_on i as \<or> mark_at mk i = mark_sec_crit then mark_sec_crit
      else if alert_on i as then mark_sec_warn else mark_at mk i)"
  by (induction as arbitrary: mk) (auto simp: on_defs markSecurity_def)

lemma fold_markActive:
  "mark_at (fold markActive as mk) i =
     (if critical_on i as \<or> mark_at mk i = mark_crit then mark_crit
      else if mark_at mk i = mark_sec_crit then mark_sec_crit
      else if alert_on i as then mark_warn else mark_at mk i)"
  by (induction as arbitrary: mk) (auto simp: on_defs markActive_def)

section \<open>Sequences of messages\<close>

text \<open>\<open>Update\<close> on one message after the other, with the commands of all of them.\<close>

fun run_msgs :: "tui_env \<Rightarrow> msg list \<Rightarrow> Model \<Rightarrow> handled" where
  "run_msgs env [] m = Ret (m, [])"
| "run_msgs env (msg # msgs) m =
     bind_outcome (Update env msg m) (\<lambda>(m, cs). bind_outcome (run_msgs env msgs m) (\<lambda>(m, ds). Ret (m, cs @ ds)))"

definition last_lines :: "nat \<Rightarrow> 'a list \<Rightarrow> 'a list" where
  "last_lines n xs = drop (length xs - n) xs"

lemma last_lines_snoc: "last_lines n (last_lines n xs @ ys) = last_lines n (xs @ ys)"
  by (cases "length xs \<le> n") (simp_all add: last_lines_def add.commute)

lemma last_lines_all: "length xs \<le> n \<Longrightarrow> last_lines n xs = xs"
  by (simp add: last_lines_def)

lemma run_log_lines:
  assumes "length (m_logLines m) \<le> 1000"
  shows "run_msgs env (map (\<lambda>e. LogLineMsg (le_Container e) (le_Text e) (Some ch)) ls) m =
     Ret (m\<lparr>m_logLines := last_lines 1000 (m_logLines m @ ls)\<rparr>, map (\<lambda>e. WaitForNextLog (le_Container e) ch) ls)"
  using assms
proof (induction ls arbitrary: m)
  case Nil
  then show ?case by (simp add: last_lines_all)
next
  case (Cons e ls)
  have step: "Update env (LogLineMsg (le_Container e) (le_Text e) (Some ch)) m =
      Ret (m\<lparr>m_logLines := last_lines 1000 (m_logLines m @ [e])\<rparr>, [WaitForNextLog (le_Container e) ch])"
    by (cases e) (simp add: Update_def handleLogLineMsg_def Let_def last_lines_def)
  have "length (m_logLines (m\<lparr>m_logLines := last_lines 1000 (m_logLines m @ [e])\<rparr>)) \<le> 1000"
    by (simp add: last_lines_def)
  from Cons.IH [OF this] step show ?case by (simp add: last_lines_snoc)
qed

section \<open>An example\<close>

definition ex_env :: tui_env where
  "ex_env = \<lparr>te_now = 7, te_uni = id, te_inspect = (\<lambda>i. Inl ''gone''), te_sched = id, te_statsRange = (\<lambda>st. []),
     te_activeRange = (\<lambda>e. []), te_bestOrder = id, te_logs = (\<lambda>i. Inr 3), te_networks = Inr [],
     te_createTemp = (\<lambda>p c. Inr ''/tmp/castle-rock-logs-1.txt'')\<rparr>"

definition ex_world :: "unit world" where
  "ex_world = \<lparr>ListRunningContainersDetailed_api = (\<lambda>b w. (Inr [ex_display ''aaaaaaaaaaaa''], w)),
     ListRunningContainers_api = (\<lambda>b w. (Inr [], w)), GetAllContainerStats_api = (\<lambda>cs w. (Inr Map.empty, w)),
     WatchEvents_api = (\<lambda>w. (FromErrCh None, w)), StopContainer_api = (\<lambda>i w. (None, w)), RestartContainer_api = (\<lambda>i w. (None, w)),
     RunStressTest_api = (\<lambda>m n w. (None, w)), PruneImages_api = (\<lambda>w. ((0, None), w)), PruneVolumes_api = (\<lambda>w. ((0, None), w)),
     GetDiskUsage_api = (\<lambda>w. (Inl ''down'', w)), receive_log = (\<lambda>ch w. (None, w)), exec_docker = (\<lambda>n sh w. (None, w)),
     cpu_Percent = (\<lambda>w. []), mem_UsedPercent = (\<lambda>w. None), clock = (\<lambda>w. 9), remote_containers = (\<lambda>w. None),
     remote_metrics = (\<lambda>w. None), evolves = (\<lambda>w w'. True)\<rparr>"

definition ex_start :: "unit system" where
  "ex_start = start_system (NewModel (\<lambda>s. 0) 0 Map.empty ''0.3.0'' DefaultConfig None) ()"

text \<open>A run to a state where the list has one container and the user has just pressed \<open>s\<close>.\<close>

lemma ex_run:
  "\<exists>l m P. runs ex_world ex_start [KeyMsg ''s'', ContainerListMsg [l]]
     \<lparr>sy_model = m, sy_pending = P, sy_inbox = {#}, sy_world = ()\<rparr> \<and>
     m_containers m = [l] \<and> m_cursor m = 0 \<and> m_confirmAction m = ''stop'' \<and> cd_ID l = ''aaaaaaaaaaaa'' \<and> cd_Name l = ''web''"
proof -
  define m0 where "m0 = NewModel (\<lambda>s. 0) 0 Map.empty ''0.3.0'' DefaultConfig None"
  define l where "l = (ex_display ''aaaaaaaaaaaa'')\<lparr>cd_HostID := ''local''\<rparr>"
  define P where "P = mset [FetchStats False, FetchHostStats, WatchDockerEvents, TickCmd]"
  have s0: "ex_start = \<lparr>sy_model = m0, sy_pending = add_mset (FetchContainers False) P, sy_inbox = {#}, sy_world = ()\<rparr>"
    by (simp add: ex_start_def start_system_def m0_def P_def Init_def NewModel_def)
  have "run_cmd ex_world (m_cfg m0) (FetchContainers False) () = (Some (ContainerListMsg [l]), ())"
    by (simp add: run_cmd_def fetchContainers_def ex_world_def localHost_def m0_def NewModel_def DefaultConfig_def l_def)
  from runs_command [OF runs_refl, of "FetchContainers False" ex_start ex_world, unfolded s0, simplified, OF this]
  have r1: "runs ex_world ex_start [] \<lparr>sy_model = m0, sy_pending = P, sy_inbox = {#ContainerListMsg [l]#}, sy_world = ()\<rparr>"
    by (simp add: s0)
  obtain m1 where m1: "handleContainerListMsg ex_env [l] m0 = Ret (m1, [])" "m_containers m1 = [l]"
    "m_confirmAction m1 = ''''" "\<not> m_showStress m1" "\<not> m_showCleanup m1" "\<not> m_searchMode m1" "m_cursor m1 = 0"
    using container_list_frame [of ex_env "[l]" m0] by (auto simp: m0_def NewModel_def)
  have r2: "runs ex_world ex_start [ContainerListMsg [l]] \<lparr>sy_model = m1, sy_pending = P, sy_inbox = {#}, sy_world = ()\<rparr>"
    using runs_deliver [OF r1, of "ContainerListMsg [l]" ex_env m1 "[]"] m1 by (simp add: Update_def)
  have "Update ex_env (KeyMsg ''s'') m1 = Ret (m1\<lparr>m_confirmAction := ''stop''\<rparr>, [])"
    using m1 by (simp add: Update_def handleKeyMsg_def handleModalKeys_def handleNormalKeys_def handleActionKeys_def)
  from runs_input [OF r2 _, of "KeyMsg ''s''", simplified, OF this] m1 show ?thesis
    by (intro exI [of _ l] exI [of _ "m1\<lparr>m_confirmAction := ''stop''\<rparr>"] exI [of _ P]) (simp add: l_def ex_display_def)
qed

section \<open>Properties\<close>

text \<open>
  C14: in every state the dashboard reaches, the selection points at a container unless the list is
  empty, the log buffer holds at most a thousand lines, at most one dialogue is open, a pending action
  is a stop or a restart, the grep filter is empty and no event store is attached.
\<close>

theorem dashboard_invariant:
  assumes "runs api (start_system (NewModel portInt now sysInfo version cfg store) w) h s"
  shows "let m = sy_model s in
     (m_containers m \<noteq> [] \<longrightarrow> 0 \<le> m_cursor m \<and> m_cursor m < int (length (m_containers m))) \<and>
     length (m_logLines m) \<le> 1000 \<and> 0 \<le> m_logOffset m \<and> length (filter id (modals m)) \<le> 1 \<and>
     m_confirmAction m \<in> {'''', ''stop'', ''restart''} \<and> m_logSearch m = '''' \<and> m_store m = None"
  using runs_start_inv [OF assms] by (auto simp: tui_inv_def Let_def)

theorem dashboard_invariant_witness:
  "\<exists>m P. runs ex_world ex_start [KeyMsg ''s'', ContainerListMsg (m_containers m)]
       \<lparr>sy_model = m, sy_pending = P, sy_inbox = {#}, sy_world = ()\<rparr> \<and>
     m_containers m \<noteq> [] \<and> m_cursor m < int (length (m_containers m)) \<and> length (filter id (modals m)) \<le> 1"
proof -
  from ex_run obtain l m P where r: "runs ex_world ex_start [KeyMsg ''s'', ContainerListMsg [l]]
     \<lparr>sy_model = m, sy_pending = P, sy_inbox = {#}, sy_world = ()\<rparr>" and c: "m_containers m = [l]" by blast
  from dashboard_invariant [OF r [unfolded ex_start_def]] r c show ?thesis
    by (intro exI [of _ m] exI [of _ P]) (simp add: Let_def)
qed

text \<open>
  C15: The event loop of the dashboard never panics, except on the one message that carries a nil
  error: \<open>watchDockerEvents\<close> reads the error channel, and the client closes it without an error when
  the context ends.
\<close>

theorem update_panics_only_on_nil_error:
  assumes "runs api (start_system (NewModel portInt now sysInfo version cfg store) w) h s"
    and "is_input msg \<or> msg \<in># sy_inbox s"
  shows "Update env msg (sy_model s) = Panic \<longleftrightarrow> msg = DockerErrorMsg None"
proof -
  have "Update env msg (sy_model s) = Panic \<longleftrightarrow> nil_error msg"
    using Update_sound [OF runs_start_inv [OF assms(1)], of msg env] Update_nil_error [of msg env "sy_model s"]
    by (cases "nil_error msg") (auto simp: sound_def)
  moreover have "nil_error msg \<longleftrightarrow> msg = DockerErrorMsg None"
    using assms(2) runs_inbox [OF assms(1), of msg] by (cases msg) (auto simp: start_system_def)
  ultimately show ?thesis by simp
qed

theorem update_panics_only_on_nil_error_witness:
  "\<exists>s. runs ex_world ex_start [] s \<and> DockerErrorMsg None \<in># sy_inbox s \<and> Update ex_env (DockerErrorMsg None) (sy_model s) = Panic"
proof -
  have "run_cmd ex_world cfg WatchDockerEvents () = (Some (DockerErrorMsg None), ())" for cfg
    by (simp add: run_cmd_def watchDockerEvents_def ex_world_def)
  from runs_command [OF runs_refl [of ex_world ex_start], of WatchDockerEvents]
  obtain s where s: "runs ex_world ex_start [] s" "DockerErrorMsg None \<in># sy_inbox s"
    using \<open>\<And>cfg. run_cmd ex_world cfg WatchDockerEvents () = _\<close>
    by (fastforce simp: ex_start_def start_system_def Init_def)
  from update_panics_only_on_nil_error [OF s(1) [unfolded ex_start_def], of "DockerErrorMsg None" ex_env] s show ?thesis by blast
qed

text \<open>
  C5: A container is stopped or restarted only after the user has asked for it and confirmed: the
  action is scheduled by \<open>y\<close> or \<open>Y\<close>, the previous key was the \<open>s\<close> or \<open>R\<close> that asks for it, and the
  target is the container under the cursor.
\<close>

theorem actions_need_confirmation:
  assumes "runs api (start_system (NewModel portInt now sysInfo version cfg store) w) h s"
    and "Update env msg (sy_model s) = Ret (m', cs)" and "ExecuteAction a i n \<in> set cs"
  shows "(msg = KeyMsg ''y'' \<or> msg = KeyMsg ''Y'') \<and> asked_by h a \<and>
     0 \<le> m_cursor (sy_model s) \<and> m_cursor (sy_model s) < int (length (m_containers (sy_model s))) \<and>
     i = cd_ID (m_containers (sy_model s) ! nat (m_cursor (sy_model s))) \<and>
     n = cd_Name (m_containers (sy_model s) ! nat (m_cursor (sy_model s)))"
proof -
  obtain k where "msg = KeyMsg k" "confirmed k (sy_model s) (ExecuteAction a i n)"
    using action_scheduled [OF assms(2,3)] by blast
  moreover have "m_confirmAction (sy_model s) \<noteq> '''' \<longrightarrow> asked_by h (m_confirmAction (sy_model s))"
    using runs_asked [OF assms(1)] by (simp add: start_system_def NewModel_def)
  ultimately show ?thesis by (auto simp: confirmed_def)
qed

theorem actions_need_confirmation_witness:
  "\<exists>h s m' cs. runs ex_world ex_start h s \<and> Update ex_env (KeyMsg ''y'') (sy_model s) = Ret (m', cs) \<and>
     ExecuteAction ''stop'' ''aaaaaaaaaaaa'' ''web'' \<in> set cs \<and> asked_by h ''stop''"
proof -
  from ex_run obtain l m P where r: "runs ex_world ex_start [KeyMsg ''s'', ContainerListMsg [l]]
     \<lparr>sy_model = m, sy_pending = P, sy_inbox = {#}, sy_world = ()\<rparr>"
    and c: "m_containers m = [l]" "m_cursor m = 0" "m_confirmAction m = ''stop''" "cd_ID l = ''aaaaaaaaaaaa''" "cd_Name l = ''web''"
    by blast
  then have "Update ex_env (KeyMsg ''y'') m = Ret (m\<lparr>m_confirmAction := ''''\<rparr>, [ExecuteAction ''stop'' ''aaaaaaaaaaaa'' ''web''])"
    by (simp add: y_confirms)
  with actions_need_confirmation [OF r [unfolded ex_start_def], of ex_env "KeyMsg ''y''"] r show ?thesis by fastforce
qed

text \<open>
  C34: a list that arrives while a stop is pending changes its target: the confirmation acts on the
  container then under the cursor, not on the one for which the question was asked.
\<close>

theorem confirmation_follows_the_list:
  assumes "tui_inv m" and "m_confirmAction m = ''stop''" and "m_cursor m < int (length cs)"
  shows "\<exists>m1 m2. Update env (ContainerListMsg cs) m = Ret (m1, []) \<and>
     Update env (KeyMsg ''y'') m1 = Ret (m2, [ExecuteAction ''stop'' (cd_ID (cs ! nat (m_cursor m))) (cd_Name (cs ! nat (m_cursor m)))])"
proof -
  obtain m1 where "handleContainerListMsg env cs m = Ret (m1, [])" "m_containers m1 = cs"
    "m_confirmAction m1 = ''stop''" "m_cursor m1 = m_cursor m"
    using container_list_frame [of env cs m] assms(2,3) by auto
  moreover from this have "Update env (KeyMsg ''y'') m1 = Ret (m1\<lparr>m_confirmAction := ''''\<rparr>,
      [ExecuteAction ''stop'' (cd_ID (cs ! nat (m_cursor m))) (cd_Name (cs ! nat (m_cursor m)))])"
    using assms(3) tui_inv_bounds(1) [OF assms(1)] by (simp add: y_confirms)
  ultimately show ?thesis by (auto simp: Update_def)
qed

theorem confirmation_follows_the_list_witness:
  "\<exists>m m1 m2. m_containers m = [ex_display ''aaaaaaaaaaaa''] \<and> m_cursor m = 0 \<and> m_confirmAction m = ''stop'' \<and>
     Update ex_env (ContainerListMsg [ex_display ''bbbbbbbbbbbb'', ex_display ''aaaaaaaaaaaa'']) m = Ret (m1, []) \<and>
     Update ex_env (KeyMsg ''y'') m1 = Ret (m2, [ExecuteAction ''stop'' ''bbbbbbbbbbbb'' ''web''])"
proof -
  define m where "m = (NewModel (\<lambda>s. 0) 0 Map.empty ''0.3.0'' DefaultConfig None)\<lparr>m_containers := [ex_display ''aaaaaaaaaaaa''],
     m_confirmAction := ''stop''\<rparr>"
  have "tui_inv m" by (simp add: m_def NewModel_def tui_inv_def modals_def)
  moreover have f: "m_containers m = [ex_display ''aaaaaaaaaaaa'']" "m_cursor m = 0" "m_confirmAction m = ''stop''"
    by (simp_all add: m_def NewModel_def)
  moreover have "cd_ID (ex_display ''bbbbbbbbbbbb'') = ''bbbbbbbbbbbb''" "cd_Name (ex_display ''bbbbbbbbbbbb'') = ''web''"
    by (simp_all add: ex_display_def)
  ultimately show ?thesis
    using confirmation_follows_the_list [of m "[ex_display ''bbbbbbbbbbbb'', ex_display ''aaaaaaaaaaaa'']" ex_env]
    by (simp del: ex_simps) blast
qed

text \<open>
  C31: the heartbeat never stops and never doubles: in every reachable state exactly one refresh tick
  is in flight.
\<close>

theorem one_heartbeat:
  assumes "runs api (start_system (NewModel portInt now sysInfo version cfg store) w) h s"
  shows "count (sy_pending s) TickCmd + size (filter_mset is_tick (sy_inbox s)) = 1"
  using runs_ticks [OF assms] by (simp add: ticks_def start_system_def Init_def)

theorem one_heartbeat_witness:
  "\<exists>s. runs ex_world ex_start [TickMsg 9] s \<and> sy_inbox s = {#} \<and> count (sy_pending s) TickCmd = 1"
proof -
  have "run_cmd ex_world cfg TickCmd () = (Some (TickMsg 9), ())" for cfg
    by (simp add: run_cmd_def ex_world_def)
  then have r: "runs ex_world ex_start [] (ex_start\<lparr>sy_pending := sy_pending ex_start - {#TickCmd#},
      sy_inbox := {#TickMsg 9#}, sy_world := ()\<rparr>)"
    using runs_command [OF runs_refl [of ex_world ex_start], of TickCmd "Some (TickMsg 9)" "()"]
    by (simp add: ex_start_def start_system_def Init_def)
  obtain m' cs where "Update ex_env (TickMsg 9) (sy_model ex_start) = Ret (m', cs)"
    by (cases "Update ex_env (TickMsg 9) (sy_model ex_start)") (auto simp: Update_def handleTickMsg_def Let_def split: if_splits)
  from runs_deliver [OF r, of "TickMsg 9" ex_env m' cs, simplified, OF this]
  obtain s where s: "runs ex_world ex_start [TickMsg 9] s" "sy_inbox s = {#}" by fastforce
  with one_heartbeat [OF s(1) [unfolded ex_start_def]] show ?thesis by auto
qed

text \<open>
  C32: at most one watch for Docker events is in flight, and one that ends without an event is never
  replaced: from a state with none, no Docker event is ever handled again. Nothing restarts the watch
  after an error.
\<close>

theorem lost_event_watch_stays_lost:
  assumes "runs api s0 h s"
  shows "watches s \<le> watches s0 \<and> (watches s0 = 0 \<longrightarrow> filter is_docker_event h = [])"
proof (intro conjI impI)
  show "watches s \<le> watches s0" by (rule runs_watches [OF assms])
next
  assume none: "watches s0 = 0"
  from assms show "filter is_docker_event h = []"
  proof (induction rule: runs.induct)
    case (runs_input h s msg env m' cs)
    then show ?case by (cases msg) auto
  next
    case (runs_deliver h s msg env m' cs)
    from runs_watches [OF runs_deliver.hyps(1)] none have "size (filter_mset is_docker_event (sy_inbox s)) = 0"
      unfolding watches_def by linarith
    with runs_deliver.hyps(2) have "\<not> is_docker_event msg" by (auto simp: filter_mset_eq_conv)
    with runs_deliver.IH show ?case by simp
  qed simp_all
qed

theorem lost_event_watch_stays_lost_witness:
  "\<exists>s. runs ex_world ex_start [] s \<and> watches ex_start = 1 \<and> watches s = 0 \<and>
     (\<forall>h s'. runs ex_world s h s' \<longrightarrow> filter is_docker_event h = [])"
proof -
  define s where "s = ex_start\<lparr>sy_pending := sy_pending ex_start - {#WatchDockerEvents#},
      sy_inbox := {#DockerErrorMsg None#}, sy_world := ()\<rparr>"
  have "run_cmd ex_world cfg WatchDockerEvents () = (Some (DockerErrorMsg None), ())" for cfg
    by (simp add: run_cmd_def watchDockerEvents_def ex_world_def)
  then have "runs ex_world ex_start [] s"
    using runs_command [OF runs_refl [of ex_world ex_start], of WatchDockerEvents "Some (DockerErrorMsg None)" "()"]
    by (simp add: s_def ex_start_def start_system_def Init_def)
  moreover have "watches ex_start = 1" "watches s = 0"
    by (simp_all add: watches_def s_def ex_start_def start_system_def Init_def)
  ultimately show ?thesis using lost_event_watch_stays_lost [of ex_world s] by blast
qed

text \<open>
  The program quits exactly on \<open>q\<close> or Ctrl+C outside the dialogues; in a dialogue, the search bar
  included, these keys do not quit.
\<close>

theorem quit_only_in_normal_mode:
  assumes "tui_inv m"
  shows "(\<exists>m' cs. Update env msg m = Ret (m', cs) \<and> Quit \<in> set cs) \<longleftrightarrow>
     normal_mode m \<and> (msg = KeyMsg ''q'' \<or> msg = KeyMsg ''ctrl+c'')"
proof
  assume "normal_mode m \<and> (msg = KeyMsg ''q'' \<or> msg = KeyMsg ''ctrl+c'')"
  then show "\<exists>m' cs. Update env msg m = Ret (m', cs) \<and> Quit \<in> set cs"
    by (auto simp: Update_def handleKeyMsg_def handleModalKeys_def normal_mode_def handleNormalKeys_def)
next
  assume "\<exists>m' cs. Update env msg m = Ret (m', cs) \<and> Quit \<in> set cs"
  then obtain m' cs where u: "Update env msg m = Ret (m', cs)" "Quit \<in> set cs" by blast
  have "is_key msg"
    using other_frame [OF _ u(1)] u(2) by (cases "is_key msg") (auto simp: list_all_iff)
  then obtain k where k: "msg = KeyMsg k" by (cases msg) auto
  then have "k = ''q'' \<or> k = ''ctrl+c''"
    using key_emits [of k m env] u by (auto simp: Update_def list_all_iff confirmed_def)
  moreover have "normal_mode m"
    using modal_keys_cases [OF assms, of k] modal_keys_cmds [of k m m' cs True Quit] u k
    by (auto simp: Update_def handleKeyMsg_def confirmed_def)
  ultimately show "normal_mode m \<and> (msg = KeyMsg ''q'' \<or> msg = KeyMsg ''ctrl+c'')" using k by simp
qed

theorem quit_only_in_normal_mode_witness:
  "let m = NewModel (\<lambda>s. 0) 0 Map.empty ''0.3.0'' DefaultConfig None in
   (\<exists>m' cs. Update ex_env (KeyMsg ''q'') m = Ret (m', cs) \<and> Quit \<in> set cs)"
proof -
  have "normal_mode (NewModel (\<lambda>s. 0) 0 Map.empty ''0.3.0'' DefaultConfig None)"
    by (simp add: normal_mode_def NewModel_def)
  then show ?thesis
    using quit_only_in_normal_mode [OF NewModel_inv, of ex_env "KeyMsg ''q''" "\<lambda>s. 0" 0 Map.empty "''0.3.0''" DefaultConfig None]
    by (simp add: Let_def)
qed

text \<open>
  The log buffer holds the last thousand lines of what it had and what arrived, in order, and
  each line that arrives asks for the next one of its stream, whatever is displayed.
\<close>

theorem log_buffer_keeps_the_last_thousand:
  assumes "tui_inv m"
  shows "run_msgs env (map (\<lambda>e. LogLineMsg (le_Container e) (le_Text e) (Some ch)) ls) m =
     Ret (m\<lparr>m_logLines := drop (length (m_logLines m @ ls) - 1000) (m_logLines m @ ls)\<rparr>,
          map (\<lambda>e. WaitForNextLog (le_Container e) ch) ls)"
  using run_log_lines [OF tui_inv_bounds(3) [OF assms]] by (simp add: last_lines_def)

theorem log_buffer_keeps_the_last_thousand_witness:
  "run_msgs ex_env [LogLineMsg ''web'' ''hello'' (Some 3)] (NewModel (\<lambda>s. 0) 0 Map.empty ''0.3.0'' DefaultConfig None) =
     Ret ((NewModel (\<lambda>s. 0) 0 Map.empty ''0.3.0'' DefaultConfig None)\<lparr>m_logLines := [\<lparr>le_Container = ''web'', le_Text = ''hello''\<rparr>]\<rparr>,
          [WaitForNextLog ''web'' 3])"
  using log_buffer_keeps_the_last_thousand [OF NewModel_inv, of ex_env 3 "[\<lparr>le_Container = ''web'', le_Text = ''hello''\<rparr>]"
      "\<lambda>s. 0" 0 Map.empty "''0.3.0''" DefaultConfig None]
  by (simp add: NewModel_def del: run_msgs.simps)

text \<open>
  C35: the mark of a container is determined by priority: a critical metric alert, a critical security
  finding, any metric alert, any security finding, none; the order of the alerts does not matter.
\<close>

theorem alert_mark_by_priority:
  "mark_at (m_alertMarks (updateAlertMarks m)) i = mark_of (m_securityAlerts m) (m_activeAlerts m) i"
  by (simp add: updateAlertMarks_def fold_markActive fold_markSecurity mark_of_def)

end
