(* ===== verification/TuiView.thy ===== *)
theory TuiView
  imports TuiRun
begin

text \<open>
  \<^verbatim>\<open>internal/tui/tui.go\<close>: \<open>View\<close> and its helpers, the rendering of the model. The styling library is a
  parameter: a style is the chain of calls that builds it, and \<open>ve_render\<close> applies it to a text. A
  slice or an index out of range panics, so rendering returns an \<open>outcome\<close> wherever the code cuts or
  indexes with a value it computes.
\<close>

section \<open>Styles\<close>

datatype style =
    NewStyle
  | Bold style
  | Foreground string style
  | Background string style
  | Padding nat nat style
  | MarginLeft nat style
  | Width int style
  | RoundedBorder string style

definition primaryColor :: string where "primaryColor = ''#7C3AED''"
definition secondaryColor :: string where "secondaryColor = ''#06B6D4''"
definition successColor :: string where "successColor = ''#22C55E''"
definition warningColor :: string where "warningColor = ''#EAB308''"
definition dangerColor :: string where "dangerColor = ''#EF4444''"
definition mutedColor :: string where "mutedColor = ''#6B7280''"

definition titleStyle :: style where "titleStyle = Padding 0 2 (Background primaryColor (Foreground ''#FFFFFF'' (Bold NewStyle)))"
definition statusBarStyle :: style where "statusBarStyle = Padding 0 1 (Background ''#3B3552'' (Foreground ''#FFFFFF'' NewStyle))"
definition selectedStyle :: style where "selectedStyle = Foreground primaryColor (Bold NewStyle)"
definition normalStyle :: style where "normalStyle = Foreground ''#E2E8F0'' NewStyle"
definition headerStyle :: style where "headerStyle = Foreground secondaryColor (Bold NewStyle)"
definition stateRunning :: style where "stateRunning = Bold (Foreground successColor NewStyle)"
definition statePaused :: style where "statePaused = Bold (Foreground warningColor NewStyle)"
definition stateStopped :: style where "stateStopped = Bold (Foreground dangerColor NewStyle)"
definition cpuLowStyle :: style where "cpuLowStyle = Foreground successColor NewStyle"
definition cpuMedStyle :: style where "cpuMedStyle = Foreground warningColor NewStyle"
definition cpuHighStyle :: style where "cpuHighStyle = Bold (Foreground dangerColor NewStyle)"
definition memLowStyle :: style where "memLowStyle = Foreground successColor NewStyle"
definition memMedStyle :: style where "memMedStyle = Foreground warningColor NewStyle"
definition memHighStyle :: style where "memHighStyle = Bold (Foreground dangerColor NewStyle)"
definition netStyle :: style where "netStyle = Foreground secondaryColor NewStyle"
definition alertCritStyle :: style where "alertCritStyle = Padding 0 1 (Background dangerColor (Foreground ''#FFFFFF'' (Bold NewStyle)))"
definition alertWarnStyle :: style where "alertWarnStyle = Padding 0 1 (Background warningColor (Foreground ''#000000'' (Bold NewStyle)))"
definition eventPanelStyle :: style where "eventPanelStyle = Padding 0 1 (RoundedBorder mutedColor NewStyle)"
definition logPanelStyle :: style where "logPanelStyle = Padding 0 1 (RoundedBorder secondaryColor NewStyle)"
definition helpStyle :: style where "helpStyle = Foreground mutedColor NewStyle"
definition confirmStyle :: style where "confirmStyle = Padding 0 2 (Background dangerColor (Foreground ''#FFFFFF'' (Bold NewStyle)))"
definition stressStyle :: style where "stressStyle = Padding 0 2 (Background ''#F97316'' (Foreground ''#FFFFFF'' (Bold NewStyle)))"

abbreviation fg :: "string \<Rightarrow> style" where "fg c \<equiv> Foreground c NewStyle"
abbreviation boldFg :: "string \<Rightarrow> style" where "boldFg c \<equiv> Foreground c (Bold NewStyle)"

text \<open>
  What rendering reads of the outside: the styling library, the time since the start as it is printed,
  the format \<open>15:04:05\<close> of a time, and the case mapping of Unicode.
\<close>

record view_env =
  ve_render :: "style \<Rightarrow> string \<Rightarrow> string"
  ve_uptime :: string
  ve_clock :: "time \<Rightarrow> string"
  ve_uni :: "string \<Rightarrow> string"

section \<open>Formatting\<close>

text \<open>A string slice \<open>s[:n]\<close> with a computed bound, and a slice \<open>xs[i:j]\<close>.\<close>

definition cut_at :: "int \<Rightarrow> 'a list \<Rightarrow> 'a list outcome" where
  "cut_at n s = (if 0 \<le> n \<and> n \<le> int (length s) then Ret (take (nat n) s) else Panic)"

definition subslice :: "'a list \<Rightarrow> int \<Rightarrow> int \<Rightarrow> 'a list outcome" where
  "subslice xs i j =
     (if 0 \<le> i \<and> i \<le> j \<and> j \<le> int (length xs) then Ret (take (nat (j - i)) (drop (nat i) xs)) else Panic)"

definition truncate :: "string \<Rightarrow> int \<Rightarrow> string outcome" where
  "truncate s n = (if int (length s) \<le> n then Ret s else bind_outcome (cut_at (n - 3) s) (\<lambda>t. Ret (t @ ''...'')))"

definition min_int :: "int \<Rightarrow> int \<Rightarrow> int" where
  "min_int a b = (if a < b then a else b)"

definition formatCPU :: "view_env \<Rightarrow> float64 \<Rightarrow> string" where
  "formatCPU ve p =
     (let s = fmt_f1 p @ ''%''
      in if f_le (Fin 80) p then ve_render ve cpuHighStyle s
         else if f_le (Fin 40) p then ve_render ve cpuMedStyle s
         else ve_render ve cpuLowStyle s)"

definition formatMemPercent :: "view_env \<Rightarrow> float64 \<Rightarrow> string" where
  "formatMemPercent ve p =
     (let s = fmt_f1 p @ ''%''
      in if f_le (Fin 80) p then ve_render ve memHighStyle s
         else if f_le (Fin 50) p then ve_render ve memMedStyle s
         else ve_render ve memLowStyle s)"

definition formatBytesShort :: "64 word \<Rightarrow> string" where
  "formatBytesShort b =
     (let KB = 1024; MB = KB * 1024; GB = MB * 1024
      in if unat b \<ge> GB then fmt_f0 (f_div (f64_of_uint64 b) (f64_of_int (int GB))) @ ''G''
         else if unat b \<ge> MB then fmt_f0 (f_div (f64_of_uint64 b) (f64_of_int (int MB))) @ ''M''
         else if unat b \<ge> KB then fmt_f0 (f_div (f64_of_uint64 b) (f64_of_int (int KB))) @ ''K''
         else nat_str (unat b) @ ''B'')"

text \<open>\<open>strings.ReplaceAll\<close> with a non-empty pattern.\<close>

function replace_all :: "string \<Rightarrow> string \<Rightarrow> string \<Rightarrow> string" where
  "replace_all old new s =
     (if old = [] \<or> s = [] then s
      else if has_prefix s old then new @ replace_all old new (drop (length old) s)
      else hd s # replace_all old new (tl s))"
  by pat_completeness auto
termination
  by (relation "measure (\<lambda>(old, new, s). length s)") auto

declare replace_all.simps [simp del]

text \<open>\<open>Sprintf\<close> with a format of the catalogue that has one verb \<open>%s\<close>.\<close>

fun sprintf_s :: "string \<Rightarrow> string \<Rightarrow> string" where
  "sprintf_s [] a = []"
| "sprintf_s (c # s) a = (if has_prefix (c # s) ''%s'' then a @ drop 1 s else c # sprintf_s s a)"

section \<open>Header and table\<close>

definition renderHeader :: "view_env \<Rightarrow> Model \<Rightarrow> string" where
  "renderHeader ve m =
     (let title = ve_render ve titleStyle ('' '' @ [CHR 0xF0, CHR 0x9F, CHR 0x8F, CHR 0xB0] @ '' Castle Rock Agent '');
          dockerVer = (case m_sysInfo m ''Server Version'' of Some v \<Rightarrow> v | None \<Rightarrow> ''N/A'');
          alertIndicator = (if length (m_activeAlerts m) > 0
            then ('' '' @ [CHR 0xE2, CHR 0x94, CHR 0x82] @ '' '' @ [CHR 0xF0, CHR 0x9F, CHR 0x9A, CHR 0xA8] @ '' '') @ nat_str (length (m_activeAlerts m)) @ '' alerts'' else '''');
          info = ve_render ve statusBarStyle
            ('' v'' @ m_version m @ ('' '' @ [CHR 0xE2, CHR 0x94, CHR 0x82] @ '' Docker '') @ dockerVer @ ('' '' @ [CHR 0xE2, CHR 0x94, CHR 0x82] @ '' '' @ [CHR 0xE2, CHR 0x8F, CHR 0xB1] @ ''  '') @ ve_uptime ve @ ('' '' @ [CHR 0xE2, CHR 0x94, CHR 0x82] @ '' '' @ [CHR 0xF0, CHR 0x9F, CHR 0x93, CHR 0xA1] @ '' '') @
             int_str (m_eventCount m) @ '' events'' @ alertIndicator @ '' '')
      in title @ ''  '' @ info)"

definition getContainerAlertMark :: "Model \<Rightarrow> string \<Rightarrow> string" where
  "getContainerAlertMark m i = mark_at (m_alertMarks m) i"

definition getContainerHealthMark :: "string \<Rightarrow> string" where
  "getContainerHealthMark healthStatus =
     (if healthStatus = ''healthy'' then ('' '' @ [CHR 0xE2, CHR 0x9D, CHR 0xA4, CHR 0xEF, CHR 0xB8, CHR 0x8F])
      else if healthStatus = ''unhealthy'' then ('' '' @ [CHR 0xF0, CHR 0x9F, CHR 0xA9, CHR 0xBA])
      else if healthStatus = ''starting'' then ('' '' @ [CHR 0xE2, CHR 0x8F, CHR 0xB3])
      else '''')"

definition stateText :: "view_env \<Rightarrow> string \<Rightarrow> string" where
  "stateText ve st =
     (if st = ''running'' then ve_render ve stateRunning ([CHR 0xE2, CHR 0x97, CHR 0x8F] @ '' up'')
      else if st = ''paused'' then ve_render ve statePaused ([CHR 0xE2, CHR 0x97, CHR 0x89] @ '' pause'')
      else ve_render ve stateStopped (([CHR 0xE2, CHR 0x97, CHR 0x8B] @ '' '') @ st))"

definition formatContainerRow :: "view_env \<Rightarrow> Model \<Rightarrow> int \<Rightarrow> ContainerDisplay \<Rightarrow> string outcome" where
  "formatContainerRow ve m index c =
     (let (cursor, style) = (if index = m_cursor m then (([CHR 0xE2, CHR 0x96, CHR 0xB8] @ '' ''), selectedStyle) else (''  '', normalStyle));
          state = stateText ve (cd_State c);
          muted = ve_render ve (fg mutedColor);
          (cpuStr, memPctStr, memUseStr, netStr) =
            (case m_stats m (cd_ID c) of
               None \<Rightarrow> (muted ''  -  '', muted ''  -  '', muted ''   -   '', muted ''    -     '')
             | Some st \<Rightarrow>
                 (formatCPU ve (cm_CPUPercent st), formatMemPercent ve (cm_MemoryPercent st), formatBytes (cm_MemoryUsage st),
                  ve_render ve netStyle (formatBytesShort (cm_NetworkRx st) @ ''/'' @ formatBytesShort (cm_NetworkTx st))));
          alertMark = getContainerAlertMark m (cd_ID c) @ getContainerHealthMark (cd_HealthStatus c)
      in bind_outcome (truncate (cd_HostID c) 6) (\<lambda>hostID.
           bind_outcome (truncate (cd_Name c) 18) (\<lambda>name.
             let hostID = (if hostID = '''' then ''local'' else hostID);
                 i = short_id (cd_ID c);
                 aligned = (\<lambda>w s. ve_render ve (Width w NewStyle) s)
             in Ret (ve_render ve style
                  (cursor @ pad_runes 6 hostID @ '' '' @ pad_runes 12 i @ '' '' @ pad_runes 20 name @ '' '' @
                   aligned 7 cpuStr @ '' '' @ aligned 7 memPctStr @ '' '' @ aligned 9 memUseStr @ '' '' @
                   aligned 10 netStr @ '' '' @ state @ alertMark)))))"

fun tableRows :: "view_env \<Rightarrow> Model \<Rightarrow> int \<Rightarrow> ContainerDisplay list \<Rightarrow> string outcome" where
  "tableRows ve m i [] = Ret ''''"
| "tableRows ve m i (c # cs) =
     bind_outcome (formatContainerRow ve m i c) (\<lambda>row.
       bind_outcome (tableRows ve m (i + 1) cs) (\<lambda>rest. Ret (row @ nl @ rest)))"

definition renderContainerTable :: "view_env \<Rightarrow> Model \<Rightarrow> string outcome" where
  "renderContainerTable ve m =
     (if length (m_containers m) = 0
      then Ret (ve_render ve (Padding 1 2 (fg mutedColor)) (([CHR 0xF0, CHR 0x9F, CHR 0x93, CHR 0xAD] @ '' '') @ tx_NoContainers (m_msg m) @ nl))
      else
        let header = ''  '' @ pad_runes 6 (tx_TableHost (m_msg m)) @ '' '' @ pad_runes 12 ''ID'' @ '' '' @
              pad_runes 20 (tx_TableName (m_msg m)) @ '' '' @ pad_runes 7 ''CPU%'' @ '' '' @ pad_runes 7 ''MEM%'' @ '' '' @
              pad_runes 9 ''MEM'' @ '' '' @ pad_runes 10 ''NET'' @ '' '' @ tx_TableState (m_msg m)
        in bind_outcome (tableRows ve m 0 (m_containers m)) (\<lambda>rows.
             Ret (ve_render ve headerStyle header @ nl @ rows)))"

section \<open>Details of a container\<close>

definition secDescription :: "Messages \<Rightarrow> string \<Rightarrow> string" where
  "secDescription t rule =
     (if rule = ''Sec: Privileged Mode'' then tx_SecPrivileged t
      else if rule = ''Sec: Root User'' then tx_SecRootUser t
      else if rule = ''Sec: DB Port Exposed globally'' then tx_SecDBPort t
      else if rule = ''Sec: Sensitive CAP_ADD'' then tx_SecSensitiveCap t
      else if rule = ''Sec: No Resource Quotas'' then tx_SecNoResourceQuotas t
      else if rule = ''Sec: Writable RootFS'' then tx_SecWritableRootFS t
      else if rule = ''Sec: Insecure Port Exposed'' then tx_SecInsecurePort t
      else if rule = ''Sec: Missing No-New-Privileges'' then tx_SecMissingNoNewPrivs t
      else if rule = ''Sec: Host Networking Mode'' then tx_SecHostNetwork t
      else rule)"

definition appendSecurityAlerts :: "view_env \<Rightarrow> Model \<Rightarrow> string \<Rightarrow> int \<Rightarrow> string" where
  "appendSecurityAlerts ve m containerID maxW =
     (case m_securityAlertsMap m containerID of
        None \<Rightarrow> ''''
      | Some as \<Rightarrow>
          if length as > 0 then
            ve_render ve (boldFg warningColor) (nl @ ('' '' @ [CHR 0xF0, CHR 0x9F, CHR 0x9B, CHR 0xA1, CHR 0xEF, CHR 0xB8, CHR 0x8F] @ '' '') @ tx_SecurityAudit (m_msg m)) @ nl @
            concat (map (\<lambda>a.
              let (icon, style) = (if a_Severity a = ''critical'' then (icon_siren, alertCritStyle) else (icon_warn, alertWarnStyle));
                  desc = secDescription (m_msg m) (a_RuleName a)
              in ve_render ve (Width (maxW - 4) style) ('' '' @ icon @ '' '' @ desc) @ nl) as)
          else '''')"

definition moreLine :: "view_env \<Rightarrow> nat \<Rightarrow> string" where
  "moreLine ve n = ''   '' @ ve_render ve (fg mutedColor) (''... +'' @ nat_str n @ '' more'') @ nl"

definition mountLines :: "view_env \<Rightarrow> string list \<Rightarrow> string" where
  "mountLines ve ms =
     concat (map (\<lambda>mt. ''   '' @ ve_render ve (fg mutedColor) mt @ nl) (take 8 ms)) @
     (if length ms > 8 then moreLine ve (length ms - 8) else '''')"

definition appendCommandAndMounts :: "view_env \<Rightarrow> ContainerDisplay \<Rightarrow> string" where
  "appendCommandAndMounts ve c =
     (if cd_Entrypoint c \<noteq> '''' then
        ve_render ve (boldFg secondaryColor) (nl @ ('' '' @ [CHR 0xE2, CHR 0x9A, CHR 0x99, CHR 0xEF, CHR 0xB8, CHR 0x8F] @ ''  Command'')) @ nl @ ''   '' @
        ve_render ve (fg primaryColor) (cd_Entrypoint c) @ nl
      else '''') @
     (if length (cd_Mounts c) > 0 then
        ve_render ve (boldFg secondaryColor) (nl @ ('' '' @ [CHR 0xF0, CHR 0x9F, CHR 0x93, CHR 0x82] @ '' Volumes / Mounts'')) @ nl @ mountLines ve (cd_Mounts c)
      else '''')"

definition appendRestartAndLimits :: "view_env \<Rightarrow> ContainerDisplay \<Rightarrow> string" where
  "appendRestartAndLimits ve c =
     (if cd_RestartPolicy c \<noteq> '''' then
        ve_render ve (boldFg secondaryColor) (nl @ ('' '' @ [CHR 0xF0, CHR 0x9F, CHR 0x94, CHR 0x84] @ '' Restart Policy'')) @ nl @ ''   '' @ cd_RestartPolicy c @
        (if cd_RestartCount c > 0
         then ve_render ve (fg ''#BF616A'') (''  (crashed '' @ int_str (cd_RestartCount c) @ ''x)'') else '''') @ nl
      else '''') @
     (let unlimited = ve_render ve (fg ''#BF616A'') (''unlimited '' @ [CHR 0xE2, CHR 0x9A, CHR 0xA0]);
          cpuLabel = (if f_lt (Fin 0) (cd_CPULimit c)
            then ve_render ve (fg ''#A3BE8C'') (fmt_f1 (cd_CPULimit c) @ '' cores'') else unlimited);
          memLabel = (if cd_MemoryLimit c > 0
            then ve_render ve (fg ''#A3BE8C'') (formatBytes (word_of_int (cd_MemoryLimit c))) else unlimited)
      in nl @ '' '' @ ve_render ve (boldFg secondaryColor) ([CHR 0xF0, CHR 0x9F, CHR 0x9A, CHR 0xA7] @ '' Resource Limits'') @ nl @
         ''   CPU: '' @ cpuLabel @ ''   MEM: '' @ memLabel @ nl)"

definition healthSection :: "view_env \<Rightarrow> ContainerDisplay \<Rightarrow> string" where
  "healthSection ve c =
     (if cd_HealthStatus c \<noteq> '''' then
        (let (healthIcon, healthColor) =
               (if cd_HealthStatus c = ''unhealthy'' then (([CHR 0xE2, CHR 0x9A, CHR 0xA0, CHR 0xEF, CHR 0xB8, CHR 0x8F] @ '' ''), ''#BF616A'')
                else if cd_HealthStatus c = ''starting'' then (([CHR 0xE2, CHR 0x8F, CHR 0xB3]), ''#EBCB8B'')
                else (([CHR 0xE2, CHR 0x9C, CHR 0x85]), ''#A3BE8C''))
         in nl @ '' '' @ ve_render ve (boldFg healthColor) (healthIcon @ '' Health: '' @ cd_HealthStatus c) @ nl @
            (if cd_HealthLog c \<noteq> ''''
             then ''   '' @ ve_render ve (fg mutedColor) (''Last check: '' @ cd_HealthLog c) @ nl else ''''))
      else '''')"

definition envLine :: "view_env \<Rightarrow> string \<Rightarrow> string" where
  "envLine ve env =
     (case split_first (CHR ''='') env of
        (k, Some val) \<Rightarrow>
          ''   '' @ ve_render ve (fg primaryColor) k @ ''='' @ (if length val > 50 then take 47 val @ ''...'' else val) @ nl
      | (k, None) \<Rightarrow> ''   '' @ env @ nl)"

definition envSection :: "view_env \<Rightarrow> string list \<Rightarrow> string" where
  "envSection ve env =
     (if length env > 0 then
        ve_render ve (boldFg secondaryColor) (nl @ ('' '' @ [CHR 0xF0, CHR 0x9F, CHR 0x94, CHR 0x8E] @ '' Env Variables'')) @ nl @
        concat (map (envLine ve) (take 15 env)) @
        (if length env > 15 then moreLine ve (length env - 15) else '''')
      else '''')"

definition appendHealthAndEnv :: "view_env \<Rightarrow> ContainerDisplay \<Rightarrow> string" where
  "appendHealthAndEnv ve c = healthSection ve c @ envSection ve (cd_Env c)"

definition appendStats :: "view_env \<Rightarrow> Model \<Rightarrow> ContainerDisplay \<Rightarrow> string" where
  "appendStats ve m c =
     (case m_stats m (cd_ID c) of
        None \<Rightarrow> ''''
      | Some st \<Rightarrow>
          nl @ '' '' @ ve_render ve (boldFg secondaryColor) (([CHR 0xF0, CHR 0x9F, CHR 0x93, CHR 0x8A] @ '' '') @ tx_Metrics (m_msg m)) @ nl @
          '' CPU:      '' @ formatCPU ve (cm_CPUPercent st) @ nl @
          '' '' @ pad_runes 9 (tx_Memory (m_msg m)) @ '' '' @ formatBytes (cm_MemoryUsage st) @ '' / '' @
            formatBytes (cm_MemoryLimit st) @ '' ('' @ formatMemPercent ve (cm_MemoryPercent st) @ '')'' @ nl @
          '' '' @ pad_runes 9 (tx_NetworkDown (m_msg m)) @ '' '' @ pad_runes 12 (formatBytes (cm_NetworkRx st)) @ '' '' @
            pad_runes 9 (tx_NetworkUp (m_msg m)) @ '' '' @ formatBytes (cm_NetworkTx st) @ nl)"

definition panelWidth :: "int \<Rightarrow> int \<Rightarrow> int" where
  "panelWidth w cap = (let maxW = min_int w cap in if maxW < 40 then 40 else maxW)"

definition renderContainerDetail :: "view_env \<Rightarrow> Model \<Rightarrow> string outcome" where
  "renderContainerDetail ve m =
     (if m_cursor m \<ge> int (length (m_containers m)) then Ret ''''
      else bind_outcome (index_at (m_containers m) (m_cursor m)) (\<lambda>c.
        let maxW = panelWidth (m_width m - 6) 72;
            detail = Width maxW (MarginLeft 2 (Padding 0 1 (RoundedBorder primaryColor NewStyle)));
            t = m_msg m;
            row = (\<lambda>k v. '' '' @ pad_runes 9 k @ '' '' @ v @ nl);
            b = '' '' @ ve_render ve (boldFg primaryColor) (tx_DetailsTitle t) @ ''  '' @ ve_render ve (fg mutedColor) (cd_ID c) @ nl @
                row (tx_Name t) (cd_Name c) @ row (tx_Image t) (cd_Image c) @ row (tx_Status t) (cd_Status c) @
                row (tx_Command t) (cd_Command c) @ row (tx_Created t) (cd_Created c) @
                (if length (cd_Ports c) > 0 then row (tx_Ports t) (cd_Ports c) else '''') @
                (if length (cd_Networks c) > 0 then row (tx_Networks t) (join '', '' (cd_Networks c)) else '''') @
                appendSecurityAlerts ve m (cd_ID c) maxW @ appendCommandAndMounts ve c @ appendRestartAndLimits ve c @
                appendHealthAndEnv ve c @ appendStats ve m c
        in Ret (ve_render ve detail b @ nl)))"

section \<open>Logs\<close>

definition q :: string where "q = [CHR 0x22]"

definition highlight :: "view_env \<Rightarrow> string \<Rightarrow> string \<Rightarrow> string \<Rightarrow> string" where
  "highlight ve level color text =
     (let pat = q @ ''level'' @ q @ '':'' @ q @ level @ q in replace_all pat (ve_render ve (fg color) pat) text)"

definition formatLogText :: "view_env \<Rightarrow> string \<Rightarrow> string" where
  "formatLogText ve text =
     (let text = (if length text > 30 \<and> text ! 4 = CHR ''-'' \<and> text ! 7 = CHR ''-'' \<and> text ! 10 = CHR ''T''
                  then ve_render ve (fg ''#5C6370'') (take 30 text) @ drop 30 text else text)
      in if str_contains text (q @ '':'')
         then highlight ve ''info'' ''#61AFEF'' (highlight ve ''warn'' ''#E5C07B'' (highlight ve ''error'' ''#E06C75'' text))
         else text)"

definition filterAndFormatLogs :: "view_env \<Rightarrow> Model \<Rightarrow> LogEntry list" where
  "filterAndFormatLogs ve m =
     map (\<lambda>entry. \<lparr>le_Container = le_Container entry, le_Text = formatLogText ve (le_Text entry)\<rparr>)
       (filter (log_matches (ve_uni ve) (m_logSearch m)) (m_logLines m))"

definition buildLogFooter :: "view_env \<Rightarrow> Model \<Rightarrow> string" where
  "buildLogFooter ve m =
     (if m_searchMode m then nl @ ''  '' @ ve_render ve (fg primaryColor) (([CHR 0xF0, CHR 0x9F, CHR 0x94, CHR 0x8D] @ '' Search: '') @ m_logSearch m @ ([CHR 0xE2, CHR 0x96, CHR 0x88]))
      else if m_logSearch m \<noteq> '''' then nl @ ''  '' @ ve_render ve (fg mutedColor) (''Active filter: '' @ m_logSearch m)
      else '''') @
     (if m_logOffset m > 0
      then ve_render ve (fg warningColor) (''  [History offset: '' @ int_str (m_logOffset m) @ '']'') else '''')"

text \<open>The slice of the filtered lines that the panel shows.\<close>

definition maxLogLines :: "Model \<Rightarrow> int" where
  "maxLogLines m = (if m_height m > 50 then 15 else 10)"

definition logWindow :: "Model \<Rightarrow> LogEntry list \<Rightarrow> LogEntry list outcome" where
  "logWindow m filtered =
     (let maxLines = maxLogLines m;
          start = (if int (length filtered) > maxLines + m_logOffset m
                   then int (length filtered) - maxLines - m_logOffset m else 0);
          end1 = start + maxLines;
          end1 = (if end1 > int (length filtered) then int (length filtered) else end1)
      in subslice filtered start end1)"

definition logLine :: "view_env \<Rightarrow> Model \<Rightarrow> LogEntry \<Rightarrow> string outcome" where
  "logLine ve m entry =
     bind_outcome
       (if int (length (le_Text entry)) > m_width m + 50
        then bind_outcome (cut_at (m_width m + 50) (le_Text entry)) (\<lambda>t. Ret (t @ ''...''))
        else Ret (le_Text entry))
       (\<lambda>truncated.
          let prefix = (if length (m_logContainers m) > 1
                        then ve_render ve (fg primaryColor) (''['' @ le_Container entry @ ''] '') else '''')
          in Ret (''  '' @ prefix @ ve_render ve (fg ''#A0AEC0'') truncated @ nl))"

definition renderLogPanel :: "view_env \<Rightarrow> Model \<Rightarrow> string outcome" where
  "renderLogPanel ve m =
     (let names = join '', '' (m_logContainers m);
          title = ve_render ve (MarginLeft 2 (boldFg secondaryColor)) (sprintf_s (([CHR 0xF0, CHR 0x9F, CHR 0x93, CHR 0x9C] @ '' '') @ tx_LogsTitle (m_msg m)) names)
      in bind_outcome (logWindow m (filterAndFormatLogs ve m)) (\<lambda>shown.
           bind_outcome (mapM_outcome (logLine ve m) shown) (\<lambda>lines.
             Ret (title @ nl @ ve_render ve (MarginLeft 2 (Width (panelWidth (m_width m - 4) 90) logPanelStyle)) (concat lines) @
                  buildLogFooter ve m))))"

section \<open>Alerts, events, help, clean-up\<close>

definition secTitle :: "Messages \<Rightarrow> string \<Rightarrow> string" where
  "secTitle t rule =
     (if rule = ''Sec: Privileged Mode'' then ''Sec: '' @ tx_AlertSecPrivileged t
      else if rule = ''Sec: Root User'' then ''Sec: '' @ tx_AlertSecRootUser t
      else if rule = ''Sec: DB Port Exposed globally'' then ''Sec: '' @ tx_AlertSecDBPort t
      else if rule = ''Sec: Sensitive CAP_ADD'' then ''Sec: '' @ tx_AlertSecSensitiveCap t
      else if rule = ''Sec: No Resource Quotas'' then ''Sec: '' @ tx_AlertSecNoQuotas t
      else if rule = ''Sec: Writable RootFS'' then ''Sec: '' @ tx_AlertSecWritableFS t
      else if rule = ''Sec: Insecure Port Exposed'' then ''Sec: '' @ tx_AlertSecInsecurePort t
      else if rule = ''Sec: Missing No-New-Privileges'' then ''Sec: '' @ tx_AlertSecNoNewPrivs t
      else if rule = ''Sec: Host Networking Mode'' then ''Sec: '' @ tx_AlertSecHostNet t
      else rule)"

definition alertLine :: "view_env \<Rightarrow> Model \<Rightarrow> int \<Rightarrow> Alert \<Rightarrow> string" where
  "alertLine ve m maxW a =
     (let text = (if has_prefix (a_RuleName a) ''Sec:''
            then '' '' @ secTitle (m_msg m) (a_RuleName a) @ '': '' @ a_ContainerName a @ '' ['' @ a_Severity a @ ''] ''
            else '' '' @ a_RuleName a @ '': '' @ a_ContainerName a @ '' '' @ fmt_f1 (a_CurrentValue a) @ ''% > '' @
                 fmt_f1 (a_Threshold a) @ ''% ['' @ a_Severity a @ ''] '')
      in if a_Severity a = ''critical''
         then ''  '' @ ve_render ve (Width maxW alertCritStyle) (mark_crit @ text) @ nl
         else ''  '' @ ve_render ve (Width maxW alertWarnStyle) (mark_warn @ text) @ nl)"

definition renderAlerts :: "view_env \<Rightarrow> Model \<Rightarrow> string" where
  "renderAlerts ve m =
     (let allAlerts = m_activeAlerts m @ m_securityAlerts m
      in if length allAlerts = 0 then ''''
         else concat (map (alertLine ve m (panelWidth (m_width m - 4) 80)) allAlerts))"

definition eventLine :: "view_env \<Rightarrow> EventLogEntry \<Rightarrow> string" where
  "eventLine ve e =
     ''  '' @ ve_render ve (fg mutedColor) (ve_clock ve (el_Time e)) @ '' '' @ el_Icon e @ '' '' @
     pad_runes 10 (ve_render ve (fg warningColor) (el_Action e)) @ '' '' @ el_Name e"

definition shownEvents :: "Model \<Rightarrow> int" where
  "shownEvents m =
     (if m_height m > 45 then min_int 8 (int (length (m_events m))) else min_int 5 (int (length (m_events m))))"

definition renderEventLog :: "view_env \<Rightarrow> Model \<Rightarrow> string" where
  "renderEventLog ve m =
     (let title = ve_render ve (MarginLeft 2 (boldFg secondaryColor)) (([CHR 0xF0, CHR 0x9F, CHR 0x93, CHR 0x8B] @ '' '') @ tx_EventsTitle (m_msg m))
      in if length (m_events m) = 0
         then title @ nl @ ve_render ve (MarginLeft 4 (fg mutedColor)) (tx_WaitingEvents (m_msg m) @ nl)
         else
           let b = concat (map (\<lambda>e. eventLine ve e @ nl) (take (nat (shownEvents m)) (m_events m)))
           in title @ nl @ ve_render ve (MarginLeft 2 (Width (panelWidth (m_width m - 4) 80) eventPanelStyle)) b)"

definition renderHelpBar :: "view_env \<Rightarrow> Model \<Rightarrow> string" where
  "renderHelpBar ve m =
     (let bar =
            (if m_showLogs m then (''  '' @ [CHR 0xE2, CHR 0x86, CHR 0x91, CHR 0xE2, CHR 0x86, CHR 0x93] @ '' scroll '' @ [CHR 0xE2, CHR 0x94, CHR 0x82] @ '' / grep '' @ [CHR 0xE2, CHR 0x94, CHR 0x82] @ '' f tail '' @ [CHR 0xE2, CHR 0x94, CHR 0x82] @ '' E export '' @ [CHR 0xE2, CHR 0x94, CHR 0x82] @ '' Esc back'')
             else if m_showCleanup m then (''  [i] images '' @ [CHR 0xE2, CHR 0x94, CHR 0x82] @ '' [v] volumes '' @ [CHR 0xE2, CHR 0x94, CHR 0x82] @ '' Esc back'')
             else if m_showMap m then ''  M / Esc back''
             else if m_showStress m then (''  [c] CPU '' @ [CHR 0xE2, CHR 0x94, CHR 0x82] @ '' [m] mem '' @ [CHR 0xE2, CHR 0x94, CHR 0x82] @ '' [b] both '' @ [CHR 0xE2, CHR 0x94, CHR 0x82] @ '' Esc cancel'')
             else if m_showDetail m then (''  x shell '' @ [CHR 0xE2, CHR 0x94, CHR 0x82] @ '' l log '' @ [CHR 0xE2, CHR 0x94, CHR 0x82] @ '' s stop '' @ [CHR 0xE2, CHR 0x94, CHR 0x82] @ '' R restart '' @ [CHR 0xE2, CHR 0x94, CHR 0x82] @ '' Esc back'')
             else if m_confirmAction m \<noteq> '''' then (''  y confirm '' @ [CHR 0xE2, CHR 0x94, CHR 0x82] @ '' Esc cancel'')
             else (''  '' @ [CHR 0xE2, CHR 0x86, CHR 0x91, CHR 0xE2, CHR 0x86, CHR 0x93] @ '' nav '' @ [CHR 0xE2, CHR 0x94, CHR 0x82] @ '' space select '' @ [CHR 0xE2, CHR 0x94, CHR 0x82] @ '' enter details '' @ [CHR 0xE2, CHR 0x94, CHR 0x82] @ '' l log 1 '' @ [CHR 0xE2, CHR 0x94, CHR 0x82] @ '' L log N '' @ [CHR 0xE2, CHR 0x94, CHR 0x82] @ '' a all '' @ [CHR 0xE2, CHR 0x94, CHR 0x82] @ '' x shell '' @ [CHR 0xE2, CHR 0x94, CHR 0x82] @ '' C prune '' @ [CHR 0xE2, CHR 0x94, CHR 0x82] @ '' s stop '' @ [CHR 0xE2, CHR 0x94, CHR 0x82] @ '' R restart '' @ [CHR 0xE2, CHR 0x94, CHR 0x82] @ '' S stress '' @ [CHR 0xE2, CHR 0x94, CHR 0x82] @ '' M map '' @ [CHR 0xE2, CHR 0x94, CHR 0x82] @ '' ? help '' @ [CHR 0xE2, CHR 0x94, CHR 0x82] @ '' q quit''))
      in if m_showHelp m then
           ve_render ve (MarginLeft 2 (Padding 0 1 (RoundedBorder primaryColor NewStyle)))
             (bar @ nl @ (''  Icons: '' @ [CHR 0xF0, CHR 0x9F, CHR 0x9A, CHR 0xA8] @ '' Critical Alert '' @ [CHR 0xE2, CHR 0x94, CHR 0x82] @ '' '' @ [CHR 0xE2, CHR 0x9A, CHR 0xA0, CHR 0xEF, CHR 0xB8, CHR 0x8F] @ '' Warning Alert '' @ [CHR 0xE2, CHR 0x94, CHR 0x82] @ '' '' @ [CHR 0xF0, CHR 0x9F, CHR 0x9B, CHR 0xA1, CHR 0xEF, CHR 0xB8, CHR 0x8F] @ '' Security Issue '' @ [CHR 0xE2, CHR 0x94, CHR 0x82] @ '' '' @ [CHR 0xE2, CHR 0x9D, CHR 0xA4, CHR 0xEF, CHR 0xB8, CHR 0x8F] @ '' Healthy '' @ [CHR 0xE2, CHR 0x94, CHR 0x82] @ '' '' @ [CHR 0xF0, CHR 0x9F, CHR 0xA9, CHR 0xBA] @ '' Unhealthy '' @ [CHR 0xE2, CHR 0x94, CHR 0x82] @ '' '' @ [CHR 0xE2, CHR 0x8F, CHR 0xB3] @ '' Starting'')) @ nl
         else
           let promInfo = (if pm_Enabled (Prometheus (m_cfg m))
                 then ('' '' @ [CHR 0xE2, CHR 0x94, CHR 0x82] @ '' prometheus :'') @ int_str (pm_Port (Prometheus (m_cfg m))) else '''')
           in ve_render ve (MarginLeft 2 helpStyle) (bar @ promInfo) @ nl)"

text \<open>The reclaimable sizes are Go's int64: negative ones are shown as zero.\<close>

definition reclaimColor :: "64 word \<Rightarrow> string" where
  "reclaimColor b =
     (if sint b > 1024 * 1024 * 1024 * 2 then ''#BF616A''
      else if sint b > 1024 * 1024 * 500 then ''#EBCB8B''
      else ''#A3BE8C'')"

definition reclaimable :: "64 word \<Rightarrow> 64 word" where
  "reclaimable b = (if sint b > 0 then b else 0)"

definition renderCleanupPanel :: "view_env \<Rightarrow> Model \<Rightarrow> string" where
  "renderCleanupPanel ve m =
     ve_render ve titleStyle ('' '' @ [CHR 0xF0, CHR 0x9F, CHR 0xA7, CHR 0xB9] @ '' Interactive Prune Dashboard '') @ nl @ nl @
     (if m_pruning m then
        ve_render ve (MarginLeft 4 (fg mutedColor)) ([CHR 0xE2, CHR 0x8F, CHR 0xB3] @ '' Processing Docker daemon cleanup... please wait.'') @ nl
      else
        (if m_pruneFeedback m \<noteq> ''''
         then ve_render ve (MarginLeft 4 (Bold (fg ''#A3BE8C''))) (m_pruneFeedback m) @ nl @ nl else '''') @
        (let img = ImagesReclaimable (m_diskUsage m); vol = VolumesReclaimable (m_diskUsage m)
         in (''    '' @ [CHR 0xF0, CHR 0x9F, CHR 0x93, CHR 0xA6] @ '' '') @ ve_render ve (Bold NewStyle) ''Dangling Images: '' @
            ve_render ve (fg (reclaimColor img)) (formatBytes (reclaimable img)) @ nl @
            ve_render ve (MarginLeft 7 (fg mutedColor)) ''Untagged images not used by any container.'' @ nl @ nl @
            (''    '' @ [CHR 0xF0, CHR 0x9F, CHR 0x92, CHR 0xBE] @ '' '') @ ve_render ve (Bold NewStyle) ''Volumes Locais Ociosos:   '' @
            ve_render ve (fg (reclaimColor vol)) (formatBytes (reclaimable vol)) @ nl @
            ve_render ve (MarginLeft 7 (fg mutedColor)) ''Persistent volumes created by Docker not attached to any container.'' @
            nl @ nl @ nl @
            ''    '' @ ve_render ve (Padding 0 1 (Foreground ''#ECEFF4'' (Background ''#4C566A'' NewStyle))) '' Actions: '' @
            (''  [i] Clean Images  '' @ [CHR 0xE2, CHR 0x94, CHR 0x82] @ ''  [v] Clean Volumes  '' @ [CHR 0xE2, CHR 0x94, CHR 0x82] @ ''  [ESC] Back'') @ nl))"

section \<open>View\<close>

definition mapText :: "view_env \<Rightarrow> NetworkEdge list \<Rightarrow> string" where
  "mapText ve edges =
     concat (map (\<lambda>net.
       ve_render ve headerStyle ((''  '' @ [CHR 0xF0, CHR 0x9F, CHR 0x8C, CHR 0x90] @ '' '') @ ne_NetworkName net @ '' ('' @ ne_Driver net @ '')'') @ nl @
       concat (map (\<lambda>node. (''     '' @ [CHR 0xE2, CHR 0x94, CHR 0x9C, CHR 0xE2, CHR 0x94, CHR 0x80] @ '' '') @ pad_runes 25 (nn_ContainerName node) @ '' ['' @ nn_IPv4Address node @ '']'' @ nl) (ne_Nodes net)) @
       nl) edges)"

definition View :: "view_env \<Rightarrow> Model \<Rightarrow> string outcome" where
  "View ve m =
     (let t = m_msg m; head = renderHeader ve m @ nl @ nl
      in if m_quitting m then Ret (nl @ (''  '' @ [CHR 0xF0, CHR 0x9F, CHR 0x91, CHR 0x8B] @ '' Castle Rock Agent encerrado.'') @ nl @ nl)
         else if m_width m < 60 then Ret (nl @ (''  '' @ [CHR 0xE2, CHR 0x9A, CHR 0xA0, CHR 0xEF, CHR 0xB8, CHR 0x8F] @ ''  '') @ tx_ErrorSmallTerminal t @ nl)
         else if m_showStress m then
           Ret (head @ ve_render ve stressStyle ((''  '' @ [CHR 0xE2, CHR 0x9A, CHR 0xA1] @ '' '') @ tx_StressTestTitle t @ ''  '') @ nl @ nl @
                ve_render ve (MarginLeft 4 NewStyle) (tx_StressTestMenu t @ nl))
         else if m_showCleanup m then Ret (head @ renderCleanupPanel ve m)
         else if m_confirmAction m \<noteq> '''' \<and> m_cursor m < int (length (m_containers m)) then
           bind_outcome (index_at (m_containers m) (m_cursor m)) (\<lambda>c.
             Ret (head @ ve_render ve confirmStyle
               ((''  '' @ [CHR 0xE2, CHR 0x9A, CHR 0xA0, CHR 0xEF, CHR 0xB8, CHR 0x8F] @ ''  '') @ m_confirmAction m @ ('' container '' @ [CHR 0x27]) @ cd_Name c @ ([CHR 0x27] @ ''? (y = confirm, any key = cancel)  '')) @ nl))
         else if m_showMap m then
           Ret (head @ ve_render ve titleStyle (('' '' @ [CHR 0xF0, CHR 0x9F, CHR 0x95, CHR 0xB8, CHR 0xEF, CHR 0xB8, CHR 0x8F] @ ''  '') @ tx_ServiceMapTitle t @ '' '') @ nl @ nl @
                (if length (m_mapData m) = 0 then ''  '' @ tx_ServiceMapNoCustom t @ nl else mapText ve (m_mapData m)) @
                nl @ ''  '' @ tx_ServiceMapBack t @ nl)
         else
           bind_outcome (renderContainerTable ve m) (\<lambda>table.
           bind_outcome (if m_showDetail m \<and> length (m_containers m) > 0
                         then bind_outcome (renderContainerDetail ve m) (\<lambda>d. Ret (d @ nl)) else Ret '''') (\<lambda>detail.
           bind_outcome (if m_showLogs m then bind_outcome (renderLogPanel ve m) (\<lambda>p. Ret (p @ nl)) else Ret '''') (\<lambda>logs.
             Ret (renderHeader ve m @ nl @ table @ detail @ logs @
                  (if length (m_activeAlerts m) > 0 then renderAlerts ve m @ nl else '''') @
                  renderEventLog ve m @ nl @ renderHelpBar ve m)))))"

section \<open>No panic\<close>

lemma cut_at_Ret: "0 \<le> n \<Longrightarrow> n \<le> int (length s) \<Longrightarrow> cut_at n s = Ret (take (nat n) s)"
  by (simp add: cut_at_def)

lemma truncate_Ret: "3 \<le> n \<Longrightarrow> truncate s n = Ret (if int (length s) \<le> n then s else take (nat (n - 3)) s @ ''...'')"
  by (simp add: truncate_def cut_at_Ret)

lemma formatContainerRow_returns: "\<exists>s. formatContainerRow ve m i c = Ret s"
  by (simp add: formatContainerRow_def truncate_Ret Let_def split: prod.split)

lemma tableRows_return: "\<exists>s. tableRows ve m i cs = Ret s"
proof (induction cs arbitrary: i)
  case Nil
  then show ?case by simp
next
  case (Cons c cs)
  obtain r where "formatContainerRow ve m i c = Ret r" using formatContainerRow_returns by blast
  with Cons.IH [of "i + 1"] show ?case by auto
qed

lemma renderContainerTable_returns: "\<exists>s. renderContainerTable ve m = Ret s"
  using tableRows_return [of ve m 0 "m_containers m"] by (auto simp: renderContainerTable_def Let_def)

lemma renderContainerDetail_returns: "0 \<le> m_cursor m \<Longrightarrow> \<exists>s. renderContainerDetail ve m = Ret s"
  by (simp add: renderContainerDetail_def Let_def)

text \<open>The window of the log panel, in terms of the natural subtraction.\<close>

lemma logWindow_eq:
  assumes "0 \<le> m_logOffset m"
  shows "logWindow m xs =
     Ret (take (nat (maxLogLines m)) (drop (length xs - nat (maxLogLines m) - nat (m_logOffset m)) xs))"
proof -
  have n: "0 \<le> maxLogLines m" by (simp add: maxLogLines_def)
  show ?thesis
  proof (cases "int (length xs) > maxLogLines m + m_logOffset m")
    case True
    then have "nat (int (length xs) - maxLogLines m - m_logOffset m) = length xs - nat (maxLogLines m) - nat (m_logOffset m)"
      using assms n by linarith
    with True assms n show ?thesis by (simp add: logWindow_def subslice_def Let_def)
  next
    case False
    then have "length xs - nat (maxLogLines m) - nat (m_logOffset m) = 0" by linarith
    with False assms n show ?thesis by (auto simp: logWindow_def subslice_def Let_def)
  qed
qed

lemma logLine_returns: "0 \<le> m_width m \<Longrightarrow> \<exists>s. logLine ve m e = Ret s"
  by (simp add: logLine_def cut_at_Ret Let_def)

lemma mapM_outcome_returns: "(\<And>x. \<exists>y. f x = Ret y) \<Longrightarrow> \<exists>ys. mapM_outcome f xs = Ret ys"
proof (induction xs)
  case Nil
  then show ?case by simp
next
  case (Cons x xs)
  then obtain y ys where "f x = Ret y" "mapM_outcome f xs = Ret ys" by blast
  then show ?case by simp
qed

lemma renderLogPanel_returns:
  assumes "0 \<le> m_logOffset m" and "0 \<le> m_width m"
  shows "\<exists>s. renderLogPanel ve m = Ret s"
proof -
  obtain shown where s: "logWindow m (filterAndFormatLogs ve m) = Ret shown" using logWindow_eq [OF assms(1)] by blast
  obtain ls where "mapM_outcome (logLine ve m) shown = Ret ls"
    using mapM_outcome_returns [of "logLine ve m"] logLine_returns [OF assms(2)] by blast
  with s show ?thesis by (simp add: renderLogPanel_def Let_def)
qed

lemma View_main_returns:
  assumes "0 \<le> m_cursor m" and "0 \<le> m_logOffset m" and "0 \<le> m_width m"
  shows "\<exists>s. View ve m = Ret s"
proof -
  obtain tb d p where "renderContainerTable ve m = Ret tb" "renderContainerDetail ve m = Ret d" "renderLogPanel ve m = Ret p"
    using renderContainerTable_returns renderContainerDetail_returns renderLogPanel_returns assms by metis
  with assms(1) show ?thesis by (simp add: View_def Let_def)
qed

section \<open>What is not shown\<close>

text \<open>The parts of the view that do not read the list of security findings.\<close>

lemma tableRows_security: "tableRows ve (m\<lparr>m_securityAlerts := sa\<rparr>) i cs = tableRows ve m i cs"
  by (induction cs arbitrary: i) (simp_all add: formatContainerRow_def getContainerAlertMark_def)

lemma logLine_security: "logLine ve (m\<lparr>m_securityAlerts := sa\<rparr>) = logLine ve m"
  by (rule ext) (simp add: logLine_def)

lemma detail_security:
  "appendSecurityAlerts ve (m\<lparr>m_securityAlerts := sa\<rparr>) i w = appendSecurityAlerts ve m i w"
  "appendStats ve (m\<lparr>m_securityAlerts := sa\<rparr>) c = appendStats ve m c"
  by (simp_all add: appendSecurityAlerts_def appendStats_def split: option.split)

lemmas view_security = tableRows_security logLine_security detail_security renderHeader_def renderContainerTable_def renderContainerDetail_def
  renderLogPanel_def filterAndFormatLogs_def buildLogFooter_def logWindow_def
  maxLogLines_def renderEventLog_def shownEvents_def renderHelpBar_def renderCleanupPanel_def

lemma renderers_security:
  "renderHeader ve (m\<lparr>m_securityAlerts := sa\<rparr>) = renderHeader ve m"
  "renderContainerTable ve (m\<lparr>m_securityAlerts := sa\<rparr>) = renderContainerTable ve m"
  "renderContainerDetail ve (m\<lparr>m_securityAlerts := sa\<rparr>) = renderContainerDetail ve m"
  "renderLogPanel ve (m\<lparr>m_securityAlerts := sa\<rparr>) = renderLogPanel ve m"
  "renderEventLog ve (m\<lparr>m_securityAlerts := sa\<rparr>) = renderEventLog ve m"
  "renderHelpBar ve (m\<lparr>m_securityAlerts := sa\<rparr>) = renderHelpBar ve m"
  "renderCleanupPanel ve (m\<lparr>m_securityAlerts := sa\<rparr>) = renderCleanupPanel ve m"
  by (simp_all add: view_security Let_def)

section \<open>Texts\<close>

lemma catalogue_texts_nonempty: "list_all (\<lambda>s. s \<noteq> []) (texts En)" "list_all (\<lambda>s. s \<noteq> []) (texts Pt)"
  by (simp_all add: texts_def En_def Pt_def)

text \<open>The rule names of the auditor.\<close>

definition ruleNames :: "string list" where
  "ruleNames =
     [''Sec: Privileged Mode'', ''Sec: Root User'', ''Sec: DB Port Exposed globally'', ''Sec: Sensitive CAP_ADD'',
      ''Sec: No Resource Quotas'', ''Sec: Writable RootFS'', ''Sec: Insecure Port Exposed'',
      ''Sec: Missing No-New-Privileges'', ''Sec: Host Networking Mode'', ''Sec: Docker Socket Mounted'']"

lemma default_rule_names: "a \<in> set (run_rules (defaultRules portInt) c j now) \<Longrightarrow> a_RuleName a \<in> set ruleNames"
proof -
  assume "a \<in> set (run_rules (defaultRules portInt) c j now)"
  then obtain r where "r \<in> set (defaultRules portInt)" "a \<in> set (r c j now)" by (auto simp: run_rules_def)
  moreover have "a_RuleName (sec_alert n me v s c' t) = n" for n me v s c' t by (simp add: sec_alert_def)
  ultimately show ?thesis
    by (auto simp: defaultRules_def ruleNames_def PrivilegedModeRule_def RootUserRule_def DBPortExposedRule_def dbAlerts_def
        SensitiveCapsRule_def ResourceQuotasRule_def WritableRootFSRule_def InsecurePortsRule_def NoNewPrivilegesRule_def
        HostNetworkingRule_def SensitiveMountsRule_def Let_def split: option.splits if_splits)
qed

definition ex_socket :: ContainerJSON where
  "ex_socket = \<lparr>cj_Config = None, cj_Health = None, cj_HostConfig = None, cj_RestartCount = 0,
     cj_Mounts = [\<lparr>mp_Type = ''bind'', mp_Source = ''/var/run/docker.sock'', mp_Destination = ''/var/run/docker.sock''\<rparr>], cj_Ports = None\<rparr>"

section \<open>Properties\<close>

text \<open>
  C16: Rendering never panics: in every state the dashboard reaches, with a terminal of any size that is
  not negative, \<open>View\<close> returns a text; no cut, index or slice of it is out of range.
\<close>

theorem view_never_panics:
  assumes "runs api (start_system (NewModel portInt now sysInfo version cfg store) w) h s"
    and "0 \<le> m_width (sy_model s)"
  shows "\<exists>text. View ve (sy_model s) = Ret text"
  using View_main_returns [OF tui_inv_bounds(1,2) [OF runs_start_inv [OF assms(1)]] assms(2)] .

definition ex_view :: view_env where
  "ex_view = \<lparr>ve_render = (\<lambda>st s. s), ve_uptime = ''2s'', ve_clock = (\<lambda>t. ''00:00:00''), ve_uni = id\<rparr>"

text \<open>A terminal of eighty columns with one container, after a question that was answered with no.\<close>

theorem view_never_panics_witness:
  "\<exists>h s text. runs ex_world ex_start h s \<and> length (m_containers (sy_model s)) = 1 \<and> m_confirmAction (sy_model s) = '''' \<and>
     m_width (sy_model s) = 80 \<and> View ex_view (sy_model s) = Ret text"
proof -
  obtain l m P where r: "runs ex_world ex_start [KeyMsg ''s'', ContainerListMsg [l]]
      \<lparr>sy_model = m, sy_pending = P, sy_inbox = {#}, sy_world = ()\<rparr>" and m: "m_containers m = [l]" "m_confirmAction m = ''stop''"
    using ex_run by blast
  let ?m = "m\<lparr>m_confirmAction := ''''\<rparr>"
  have "Update ex_env (KeyMsg ''n'') m = Ret (?m, [])"
    using m by (simp add: Update_def handleKeyMsg_def handleModalKeys_def handleConfirmKeys_def)
  from runs_input [OF r, of "KeyMsg ''n''" ex_env] this
  obtain h s where s: "runs ex_world ex_start h s" "sy_model s = ?m" by fastforce
  have "Update ex_env (WindowSizeMsg 80 24) ?m = Ret (?m\<lparr>m_width := 80, m_height := 24\<rparr>, [])" by (simp add: Update_def)
  from runs_input [OF s(1), of "WindowSizeMsg 80 24" ex_env] this s(2)
  obtain h s where s: "runs ex_world ex_start h s" "sy_model s = ?m\<lparr>m_width := 80, m_height := 24\<rparr>" by fastforce
  then have "\<exists>text. View ex_view (sy_model s) = Ret text" using view_never_panics [OF s(1) [unfolded ex_start_def]] by simp
  then show ?thesis using s m by (intro exI [of _ h] exI [of _ s]) simp
qed

text \<open>
  C33: The question names its target: while an action is pending on a list that is not empty, in a terminal
  of at least sixty columns and not while quitting, the view is the question with the action and the
  name of the container under the cursor, and \<open>y\<close> schedules that action on that container.
\<close>

theorem prompt_names_the_target:
  assumes "tui_inv m" and "m_confirmAction m \<noteq> ''''" and "m_containers m \<noteq> []" and "60 \<le> m_width m" and "\<not> m_quitting m"
  defines "c \<equiv> m_containers m ! nat (m_cursor m)"
  shows "View ve m = Ret (renderHeader ve m @ nl @ nl @
       ve_render ve confirmStyle
         ((''  '' @ [CHR 0xE2, CHR 0x9A, CHR 0xA0, CHR 0xEF, CHR 0xB8, CHR 0x8F] @ ''  '') @ m_confirmAction m @ ('' container '' @ [CHR 0x27]) @ cd_Name c @ ([CHR 0x27] @ ''? (y = confirm, any key = cancel)  '')) @ nl)
    \<and> Update env (KeyMsg ''y'') m = Ret (m\<lparr>m_confirmAction := ''''\<rparr>, [ExecuteAction (m_confirmAction m) (cd_ID c) (cd_Name c)])"
proof -
  have "0 \<le> m_cursor m" "m_cursor m < int (length (m_containers m))"
    using assms(1,3) by (auto simp: tui_inv_def)
  moreover have "\<not> m_showStress m" "\<not> m_showCleanup m"
    using assms(1,2) by (auto simp: tui_inv_def modals_def split: if_splits)
  ultimately show ?thesis
    using assms(2,4,5) by (simp add: View_def y_confirms c_def Let_def)
qed

theorem prompt_names_the_target_witness:
  "let m = (NewModel (\<lambda>s. 0) 0 Map.empty ''0.3.0'' DefaultConfig None)\<lparr>m_containers := [ex_display ''aaaaaaaaaaaa''],
        m_confirmAction := ''stop'', m_width := 80\<rparr>
   in Update ex_env (KeyMsg ''y'') m = Ret (m\<lparr>m_confirmAction := ''''\<rparr>, [ExecuteAction ''stop'' ''aaaaaaaaaaaa'' ''web''])
      \<and> (\<exists>text. View ex_view m = Ret text)"
proof -
  define m where "m = (NewModel (\<lambda>s. 0) 0 Map.empty ''0.3.0'' DefaultConfig None)\<lparr>m_containers := [ex_display ''aaaaaaaaaaaa''],
        m_confirmAction := ''stop'', m_width := 80\<rparr>"
  have i: "tui_inv m" by (simp add: m_def NewModel_def tui_inv_def modals_def)
  have f: "m_confirmAction m = ''stop''" "m_containers m = [ex_display ''aaaaaaaaaaaa'']" "m_width m = 80" "\<not> m_quitting m" "m_cursor m = 0"
    by (simp_all add: m_def NewModel_def)
  have "cd_ID (ex_display ''aaaaaaaaaaaa'') = ''aaaaaaaaaaaa''" "cd_Name (ex_display ''aaaaaaaaaaaa'') = ''web''"
    by (simp_all add: ex_display_def)
  with prompt_names_the_target [OF i, of ex_view ex_env] f show ?thesis
    by (simp add: Let_def flip: m_def)
qed

text \<open>
  The log panel shows a contiguous window of the matching lines, in order: at most ten (fifteen on
  a tall terminal), the last ones when the view is not scrolled, and \<open>k\<close> lines further up for an offset
  of \<open>k\<close> until the first line is reached.
\<close>

theorem log_panel_window:
  fixes m and ve :: view_env
  assumes "tui_inv m"
  defines "n \<equiv> nat (maxLogLines m)" and "ls \<equiv> filterAndFormatLogs ve m"
  shows "logWindow m ls = Ret (take n (drop (length ls - n - nat (m_logOffset m)) ls))
    \<and> n \<in> {10, 15} \<and> (m_logOffset m = 0 \<longrightarrow> logWindow m ls = Ret (drop (length ls - n) ls))"
  using logWindow_eq [OF tui_inv_bounds(2) [OF assms(1)], of ls]
  by (simp add: n_def) (simp add: maxLogLines_def)

theorem log_panel_window_witness:
  "let m = (NewModel (\<lambda>s. 0) 0 Map.empty ''0.3.0'' DefaultConfig None)\<lparr>m_logLines := [\<lparr>le_Container = ''web'', le_Text = ''up''\<rparr>]\<rparr>
   in logWindow m (filterAndFormatLogs ex_view m) = Ret [\<lparr>le_Container = ''web'', le_Text = ''up''\<rparr>]"
proof -
  define m where "m = (NewModel (\<lambda>s. 0) 0 Map.empty ''0.3.0'' DefaultConfig None)\<lparr>m_logLines := [\<lparr>le_Container = ''web'', le_Text = ''up''\<rparr>]\<rparr>"
  have i: "tui_inv m" by (simp add: m_def NewModel_def tui_inv_def modals_def)
  have "filterAndFormatLogs ex_view m = [\<lparr>le_Container = ''web'', le_Text = ''up''\<rparr>]" "m_logOffset m = 0"
    by (simp_all add: filterAndFormatLogs_def formatLogText_def log_matches_def m_def NewModel_def has_prefix_def q_def)
  moreover from this have "length (filterAndFormatLogs ex_view m) - nat (maxLogLines m) = 0" by (simp add: maxLogLines_def)
  ultimately show ?thesis using log_panel_window [OF i, of ex_view] by (simp add: Let_def flip: m_def)
qed

text \<open>
  Without an active metric alert the view does not depend on the list of security findings: the
  alert banner that would show them is only rendered beside a metric alert.
\<close>

theorem banner_hides_security_findings:
  assumes "m_activeAlerts m = []"
  shows "View ve (m\<lparr>m_securityAlerts := sa\<rparr>) = View ve m"
  using assms by (simp add: View_def renderers_security Let_def)

theorem banner_hides_security_findings_witness:
  "View ex_view ((NewModel (\<lambda>s. 0) 0 Map.empty ''0.3.0'' DefaultConfig None)\<lparr>m_securityAlerts := [sec_alert ''Sec: Root User'' '''' (Fin 0) ''warning'' (ex_display ''a'') 0]\<rparr>) =
   View ex_view (NewModel (\<lambda>s. 0) 0 Map.empty ''0.3.0'' DefaultConfig None)"
  by (rule banner_hides_security_findings) (simp add: NewModel_def)

text \<open>
  The catalogues are complete: in either language every text is non-empty, and the title of the
  log panel is a format with one verb.
\<close>

theorem catalogues_complete:
  "list_all (\<lambda>s. s \<noteq> []) (texts (i18n_Get lang)) \<and> sprintf_s (tx_LogsTitle (i18n_Get lang)) a = ''Logs: '' @ a"
proof
  show "list_all (\<lambda>s. s \<noteq> []) (texts (i18n_Get lang))"
    using catalogue_texts_nonempty by (simp add: i18n_Get_def)
  show "sprintf_s (tx_LogsTitle (i18n_Get lang)) a = ''Logs: '' @ a"
    by (simp add: i18n_Get_def En_def Pt_def has_prefix_def)
qed

text \<open>
  The findings of nine of the ten rules have a description in the catalogue; that of a mounted
  Docker socket is shown as its internal rule name.
\<close>

theorem security_descriptions:
  assumes "a \<in> set (run_rules (defaultRules portInt) c j now)"
  shows "secDescription (i18n_Get lang) (a_RuleName a) = a_RuleName a \<longleftrightarrow> a_RuleName a = ''Sec: Docker Socket Mounted''"
  using default_rule_names [OF assms]
  by (auto simp: ruleNames_def secDescription_def i18n_Get_def En_def Pt_def)

theorem security_descriptions_witness:
  "\<exists>a \<in> set (run_rules (defaultRules (\<lambda>s. 0)) (ex_display ''a'') ex_socket 0). secDescription (i18n_Get ''pt'') (a_RuleName a) = a_RuleName a"
proof -
  define a where "a = sec_alert ''Sec: Docker Socket Mounted'' ''security_docker_sock'' (Fin 1) ''critical'' (ex_display ''a'') 0"
  have "a \<in> set (run_rules (defaultRules (\<lambda>s. 0)) (ex_display ''a'') ex_socket 0)"
    by (simp add: run_rules_def defaultRules_def SensitiveMountsRule_def ex_socket_def a_def has_prefix_def)
  with security_descriptions [OF this, of "''pt''"] show ?thesis
    by (intro bexI [of _ a]) (simp_all add: a_def sec_alert_def)
qed

end
