(* ===== verification/Agent.thy ===== *)
theory Agent
  imports Sender Prune Exporter TuiView
begin

text \<open>
  \<^verbatim>\<open>cmd/agent/main.go\<close>: how the process is put together. Starting the agent is a function from what
  it finds (configuration file, environment, Docker daemon, network, database) to the services it
  starts, in order, and the calls it has deferred, the next to run first.
\<close>

section \<open>The application\<close>

text \<open>
  A service the agent starts: the mDNS advertiser on a port, the metrics server on a port with or
  without the push endpoint, its collection loop, the worker's sender, waiting for a signal, the
  auto-pruner, and the dashboard with or without an event store and a cluster provider.
\<close>

datatype service =
    AdvertiserService int
  | MetricsServer int bool
  | CollectLoop duration
  | WorkerSender string
  | WaitForSignal
  | PrunerService AutoPruner
  | Dashboard "SQLiteStore option" "Receiver option"

text \<open>The deferred calls: releasing the signals, closing the Docker client, the advertiser and the event store.\<close>

datatype cleanup = StopSignals | CloseDocker | CloseAdvertiser | CloseStore

record App =
  ap_cfg :: Config
  ap_client :: Client
  ap_clusterProvider :: "Receiver option"
  ap_sysInfo :: "string \<rightharpoonup> string"
  ap_store :: "SQLiteStore option"
  ap_services :: "service list"
  ap_deferred :: "cleanup list"

record host =
  ho_load :: load_env
  ho_mode :: string
  ho_docker :: "error option"
  ho_version :: "error + VersionInfo"
  ho_info :: "error + DaemonInfo"
  ho_mdns :: "(string, string) mdns"
  ho_sql :: sql_driver
  ho_now :: time

definition start_service :: "service \<Rightarrow> App \<Rightarrow> App" where
  "start_service s a = a\<lparr>ap_services := ap_services a @ [s]\<rparr>"

definition defer_call :: "cleanup \<Rightarrow> App \<Rightarrow> App" where
  "defer_call c a = a\<lparr>ap_deferred := c # ap_deferred a\<rparr>"

definition loadConfig :: "host \<Rightarrow> Config" where
  "loadConfig h =
     (case Load (ho_load h) ''configs/config.yaml'' of
        (cfg, Some err) \<Rightarrow> DefaultConfig
      | (cfg, None) \<Rightarrow> cfg)"

definition initDockerClient :: "host \<Rightarrow> App \<Rightarrow> error + App" where
  "initDockerClient h a =
     (case NewClient_env (ho_docker h) of
        Inl err \<Rightarrow> Inl err
      | Inr cli \<Rightarrow>
          (let cli = SetIncludeContainers (st_IncludeContainers (Stats (ap_cfg a))) cli;
               a = a\<lparr>ap_client := cli\<rparr>
           in (case GetSystemInfo (ho_version h) (ho_info h) of
                 Inl err \<Rightarrow> Inr a
               | Inr info \<Rightarrow> Inr (a\<lparr>ap_sysInfo := info\<rparr>))))"

definition setupClusterReceiver :: "App \<Rightarrow> App" where
  "setupClusterReceiver a =
     (if cl_Mode (Cluster (ap_cfg a)) = ''leader''
      then a\<lparr>ap_clusterProvider := Some (NewReceiver (cl_SharedSecret (Cluster (ap_cfg a))) (cl_AuthToken (Cluster (ap_cfg a))))\<rparr>
      else a)"

text \<open>The function that \<open>startMDNSAdvertiser\<close> returns is deferred by \<open>main\<close>; without an advertiser it does nothing.\<close>

definition startMDNSAdvertiser :: "host \<Rightarrow> App \<Rightarrow> App" where
  "startMDNSAdvertiser h a =
     (if cl_Mode (Cluster (ap_cfg a)) = ''leader'' then
        (case NewAdvertiser (ho_mdns h) (pm_Port (Prometheus (ap_cfg a))) of
           Inr advertiser \<Rightarrow> defer_call CloseAdvertiser (start_service (AdvertiserService (pm_Port (Prometheus (ap_cfg a)))) a)
         | Inl err \<Rightarrow> a)
      else a)"

definition startPrometheusExporter :: "App \<Rightarrow> App" where
  "startPrometheusExporter a =
     (if pm_Enabled (Prometheus (ap_cfg a)) then
        start_service (CollectLoop (st_Interval (Stats (ap_cfg a))))
          (start_service (MetricsServer (pm_Port (Prometheus (ap_cfg a))) (ap_clusterProvider a \<noteq> None)) a)
      else a)"

definition runWorkerMode :: "App \<Rightarrow> App" where
  "runWorkerMode a = start_service WaitForSignal (start_service (WorkerSender (cl_LeaderURL (Cluster (ap_cfg a)))) a)"

definition runHeadlessMode :: "App \<Rightarrow> App" where
  "runHeadlessMode a = start_service WaitForSignal a"

definition setupStorageAndPruner :: "host \<Rightarrow> App \<Rightarrow> (error + SQLiteStore) \<times> App" where
  "setupStorageAndPruner h a =
     (case NewSQLiteStore (ho_sql h) (ho_now h) ''castle-rock-events.db'' of
        Inl err \<Rightarrow> (Inl err, a)
      | Inr store \<Rightarrow>
          (let a = a\<lparr>ap_store := Some store\<rparr>;
               a = (if pr_Enabled (Prune (ap_cfg a))
                    then start_service (PrunerService (NewAutoPruner (pr_TriggerDiskPercent (Prune (ap_cfg a))))) a
                    else a)
           in (Inr store, a)))"

definition runTUIMode :: "host \<Rightarrow> App \<Rightarrow> App" where
  "runTUIMode h a =
     (case setupStorageAndPruner h a of
        (Inl err, a) \<Rightarrow> start_service (Dashboard None (ap_clusterProvider a)) a
      | (Inr store, a) \<Rightarrow> start_service (Dashboard (Some store) (ap_clusterProvider a)) (defer_call CloseStore a))"

definition runExecutionMode :: "host \<Rightarrow> App \<Rightarrow> App" where
  "runExecutionMode h a =
     (if cl_Mode (Cluster (ap_cfg a)) = ''worker'' then runWorkerMode a
      else if ho_mode h = ''headless'' \<or> cl_Mode (Cluster (ap_cfg a)) = ''leader'' then runHeadlessMode a
      else runTUIMode h a)"

definition agent_main :: "host \<Rightarrow> App" where
  "agent_main h =
     (let a = \<lparr>ap_cfg = loadConfig h, ap_client = NewClient, ap_clusterProvider = None, ap_sysInfo = Map.empty,
              ap_store = None, ap_services = [], ap_deferred = []\<rparr>;
          a = defer_call StopSignals a
      in case initDockerClient h a of
           Inl err \<Rightarrow> a
         | Inr a \<Rightarrow>
             runExecutionMode h (startPrometheusExporter (startMDNSAdvertiser h (setupClusterReceiver (defer_call CloseDocker a)))))"

section \<open>Roles\<close>

text \<open>The configuration decides the role of the process.\<close>

fun is_main_loop :: "service \<Rightarrow> bool" where
  "is_main_loop WaitForSignal = True"
| "is_main_loop (Dashboard st r) = True"
| "is_main_loop _ = False"

definition serves_push :: "App \<Rightarrow> bool" where
  "serves_push a \<longleftrightarrow> list_ex (\<lambda>s. case s of MetricsServer p has \<Rightarrow> mux has ''/api/v1/push'' = PushHandler | _ \<Rightarrow> False) (ap_services a)"

definition sends_pushes :: "App \<Rightarrow> bool" where
  "sends_pushes a \<longleftrightarrow> list_ex (\<lambda>s. case s of WorkerSender u \<Rightarrow> True | _ \<Rightarrow> False) (ap_services a)"

definition shows_dashboard :: "App \<Rightarrow> bool" where
  "shows_dashboard a \<longleftrightarrow> list_ex (\<lambda>s. case s of Dashboard st r \<Rightarrow> True | _ \<Rightarrow> False) (ap_services a)"

definition shows_cluster :: "App \<Rightarrow> bool" where
  "shows_cluster a \<longleftrightarrow> list_ex (\<lambda>s. case s of Dashboard st r \<Rightarrow> r \<noteq> None | _ \<Rightarrow> False) (ap_services a)"

definition auto_prunes :: "App \<Rightarrow> bool" where
  "auto_prunes a \<longleftrightarrow> list_ex (\<lambda>s. case s of PrunerService p \<Rightarrow> True | _ \<Rightarrow> False) (ap_services a)"

lemmas role_defs = serves_push_def sends_pushes_def shows_dashboard_def shows_cluster_def auto_prunes_def

definition sqlite_ok :: "host \<Rightarrow> bool" where
  "sqlite_ok h \<longleftrightarrow> (case NewSQLiteStore (ho_sql h) (ho_now h) ''castle-rock-events.db'' of Inr s \<Rightarrow> True | Inl e \<Rightarrow> False)"

definition advertises :: "host \<Rightarrow> Config \<Rightarrow> bool" where
  "advertises h cfg \<longleftrightarrow> (case NewAdvertiser (ho_mdns h) (pm_Port (Prometheus cfg)) of Inr a \<Rightarrow> True | Inl e \<Rightarrow> False)"

lemma agent_main_no_docker: "ho_docker h = Some err \<Longrightarrow> ap_services (agent_main h) = [] \<and> ap_deferred (agent_main h) = [StopSignals]"
  by (simp add: agent_main_def initDockerClient_def NewClient_env_def defer_call_def)

text \<open>The services by role.\<close>

definition exporter_services :: "Config \<Rightarrow> bool \<Rightarrow> service list" where
  "exporter_services cfg push =
     (if pm_Enabled (Prometheus cfg) then [MetricsServer (pm_Port (Prometheus cfg)) push, CollectLoop (st_Interval (Stats cfg))] else [])"

lemmas step_defs = start_service_def defer_call_def setupClusterReceiver_def startMDNSAdvertiser_def startPrometheusExporter_def
  exporter_services_def advertises_def

lemma ap_cfg_steps [simp]:
  "ap_cfg (start_service s a) = ap_cfg a" "ap_cfg (setupClusterReceiver a) = ap_cfg a" "ap_cfg (defer_call c a) = ap_cfg a"
  "ap_cfg (startMDNSAdvertiser h a) = ap_cfg a" "ap_cfg (startPrometheusExporter a) = ap_cfg a"
  by (simp_all add: step_defs split: sum.split)

lemma ap_clusterProvider_steps [simp]:
  "ap_clusterProvider (start_service s a) = ap_clusterProvider a" "ap_clusterProvider (defer_call c a) = ap_clusterProvider a"
  "ap_clusterProvider (startMDNSAdvertiser h a) = ap_clusterProvider a"
  "ap_clusterProvider (startPrometheusExporter a) = ap_clusterProvider a"
  by (simp_all add: step_defs split: sum.split)

lemma ap_services_steps [simp]:
  "ap_services (start_service s a) = ap_services a @ [s]" "ap_services (defer_call c a) = ap_services a"
  "ap_services (setupClusterReceiver a) = ap_services a"
  "ap_services (startMDNSAdvertiser h a) = ap_services a @
     (if cl_Mode (Cluster (ap_cfg a)) = ''leader'' \<and> advertises h (ap_cfg a)
      then [AdvertiserService (pm_Port (Prometheus (ap_cfg a)))] else [])"
  "ap_services (startPrometheusExporter a) = ap_services a @ exporter_services (ap_cfg a) (ap_clusterProvider a \<noteq> None)"
  by (simp_all add: step_defs split: sum.split)

lemma ap_deferred_steps [simp]:
  "ap_deferred (start_service s a) = ap_deferred a" "ap_deferred (defer_call c a) = c # ap_deferred a"
  "ap_deferred (setupClusterReceiver a) = ap_deferred a" "ap_deferred (startPrometheusExporter a) = ap_deferred a"
  "ap_deferred (startMDNSAdvertiser h a) =
     (if cl_Mode (Cluster (ap_cfg a)) = ''leader'' \<and> advertises h (ap_cfg a) then CloseAdvertiser # ap_deferred a else ap_deferred a)"
  by (simp_all add: step_defs split: sum.split)

lemma setupClusterReceiver_provider:
  "ap_clusterProvider a = None \<Longrightarrow> (ap_clusterProvider (setupClusterReceiver a) \<noteq> None) = (cl_Mode (Cluster (ap_cfg a)) = ''leader'')"
  by (simp add: setupClusterReceiver_def)

lemma sqlite_ok_fresh: "NewSQLiteStore drv now path = Inr st \<Longrightarrow> st = freshStore"
  by (auto simp: NewSQLiteStore_def split: option.splits)

lemma runTUIMode_services:
  "ap_services (runTUIMode h a) = ap_services a @
     (if sqlite_ok h
      then (if pr_Enabled (Prune (ap_cfg a)) then [PrunerService (NewAutoPruner (pr_TriggerDiskPercent (Prune (ap_cfg a))))] else []) @
           [Dashboard (Some freshStore) (ap_clusterProvider a)]
      else [Dashboard None (ap_clusterProvider a)])"
  by (cases "NewSQLiteStore (ho_sql h) (ho_now h) ''castle-rock-events.db''")
    (auto simp: runTUIMode_def setupStorageAndPruner_def sqlite_ok_def start_service_def defer_call_def Let_def dest: sqlite_ok_fresh)

lemma runTUIMode_deferred: "ap_deferred (runTUIMode h a) = (if sqlite_ok h then CloseStore # ap_deferred a else ap_deferred a)"
  by (cases "NewSQLiteStore (ho_sql h) (ho_now h) ''castle-rock-events.db''")
    (auto simp: runTUIMode_def setupStorageAndPruner_def sqlite_ok_def Let_def)

lemma initDockerClient_up:
  "ho_docker h = None \<Longrightarrow> \<exists>a'. initDockerClient h a = Inr a' \<and> ap_cfg a' = ap_cfg a \<and> ap_services a' = ap_services a \<and>
     ap_clusterProvider a' = ap_clusterProvider a \<and> ap_deferred a' = ap_deferred a"
  by (auto simp: initDockerClient_def NewClient_env_def Let_def split: sum.split)

lemma agent_main_up:
  assumes "ho_docker h = None"
  defines "cfg \<equiv> loadConfig h"
  obtains a where "agent_main h = runExecutionMode h a" "ap_cfg a = cfg"
    "(ap_clusterProvider a \<noteq> None) = (cl_Mode (Cluster cfg) = ''leader'')"
    "ap_services a = (if cl_Mode (Cluster cfg) = ''leader'' \<and> advertises h cfg then [AdvertiserService (pm_Port (Prometheus cfg))] else []) @
       exporter_services cfg (cl_Mode (Cluster cfg) = ''leader'')"
    "ap_deferred a = (if cl_Mode (Cluster cfg) = ''leader'' \<and> advertises h cfg then [CloseAdvertiser] else []) @ [CloseDocker, StopSignals]"
proof -
  define a0 where "a0 = \<lparr>ap_cfg = cfg, ap_client = NewClient, ap_clusterProvider = None, ap_sysInfo = Map.empty,
              ap_store = None, ap_services = [], ap_deferred = [StopSignals]\<rparr>"
  obtain a1 where a1: "initDockerClient h a0 = Inr a1" "ap_cfg a1 = cfg" "ap_services a1 = []" "ap_clusterProvider a1 = None"
      "ap_deferred a1 = [StopSignals]"
    using initDockerClient_up [OF assms(1), of a0] by (auto simp: a0_def)
  define a2 where "a2 = startPrometheusExporter (startMDNSAdvertiser h (setupClusterReceiver (defer_call CloseDocker a1)))"
  have "agent_main h = runExecutionMode h a2"
    using a1(1) by (simp add: agent_main_def a0_def cfg_def a2_def Let_def defer_call_def [of StopSignals])
  moreover have "ap_cfg a2 = cfg" using a1(2) by (simp add: a2_def)
  moreover have p: "(ap_clusterProvider (setupClusterReceiver (defer_call CloseDocker a1)) \<noteq> None) = (cl_Mode (Cluster cfg) = ''leader'')"
    using setupClusterReceiver_provider [of "defer_call CloseDocker a1"] a1 by simp
  then have "(ap_clusterProvider a2 \<noteq> None) = (cl_Mode (Cluster cfg) = ''leader'')" by (simp add: a2_def)
  moreover have "ap_services a2 = (if cl_Mode (Cluster cfg) = ''leader'' \<and> advertises h cfg then [AdvertiserService (pm_Port (Prometheus cfg))] else []) @
       exporter_services cfg (cl_Mode (Cluster cfg) = ''leader'')"
    using a1 p by (simp add: a2_def)
  moreover have "ap_deferred a2 = (if cl_Mode (Cluster cfg) = ''leader'' \<and> advertises h cfg then [CloseAdvertiser] else []) @ [CloseDocker, StopSignals]"
    using a1 by (simp add: a2_def)
  ultimately show thesis by (rule that)
qed

lemma agent_main_services:
  assumes "ho_docker h = None"
  defines "cfg \<equiv> loadConfig h"
  shows "ap_services (agent_main h) =
     (if cl_Mode (Cluster cfg) = ''worker'' then exporter_services cfg False @ [WorkerSender (cl_LeaderURL (Cluster cfg)), WaitForSignal]
      else if cl_Mode (Cluster cfg) = ''leader'' then
        (if advertises h cfg then [AdvertiserService (pm_Port (Prometheus cfg))] else []) @
        exporter_services cfg True @ [WaitForSignal]
      else if ho_mode h = ''headless'' then exporter_services cfg False @ [WaitForSignal]
      else exporter_services cfg False @
        (if sqlite_ok h
         then (if pr_Enabled (Prune cfg) then [PrunerService (NewAutoPruner (pr_TriggerDiskPercent (Prune cfg)))] else []) @
              [Dashboard (Some freshStore) None]
         else [Dashboard None None]))"
proof -
  obtain a where a: "agent_main h = runExecutionMode h a" "ap_cfg a = cfg"
    "(ap_clusterProvider a \<noteq> None) = (cl_Mode (Cluster cfg) = ''leader'')"
    "ap_services a = (if cl_Mode (Cluster cfg) = ''leader'' \<and> advertises h cfg then [AdvertiserService (pm_Port (Prometheus cfg))] else []) @
       exporter_services cfg (cl_Mode (Cluster cfg) = ''leader'')"
    using agent_main_up [OF assms(1)] unfolding cfg_def by metis
  show ?thesis
    using a(3) by (cases "ap_clusterProvider a")
      (simp_all add: a(1,2,4) runExecutionMode_def runWorkerMode_def runHeadlessMode_def runTUIMode_services)
qed

section \<open>Properties\<close>

text \<open>
  C25: the role of the process. Without a Docker daemon nothing is started. Otherwise exactly one main
  loop runs; the push endpoint is served exactly by a leader whose Prometheus exporter is enabled; a
  worker, and only a worker, sends; the dashboard is shown exactly by a process that is neither worker
  nor leader nor headless; it never has a cluster provider, so it never shows the containers of other
  hosts; and automatic pruning runs beside the dashboard only.
\<close>

theorem agent_roles:
  "let a = agent_main h; cfg = loadConfig h; mode = cl_Mode (Cluster cfg); up = (ho_docker h = None) in
     (up \<or> ap_services a = []) \<and>
     length (filter is_main_loop (ap_services a)) = (if up then 1 else 0) \<and>
     serves_push a = (up \<and> mode = ''leader'' \<and> pm_Enabled (Prometheus cfg)) \<and>
     sends_pushes a = (up \<and> mode = ''worker'') \<and>
     shows_dashboard a = (up \<and> mode \<noteq> ''worker'' \<and> mode \<noteq> ''leader'' \<and> ho_mode h \<noteq> ''headless'') \<and>
     \<not> shows_cluster a \<and>
     auto_prunes a = (shows_dashboard a \<and> pr_Enabled (Prune cfg) \<and> sqlite_ok h)"
proof (cases "ho_docker h")
  case None
  then show ?thesis
    by (simp add: agent_main_services role_defs exporter_services_def mux_def Let_def)
next
  case (Some err)
  then show ?thesis by (simp add: agent_main_no_docker role_defs Let_def)
qed

text \<open>
  When the process ends, whatever its role, it closes exactly what it has opened, the last opened first:
  the event store of the dashboard, the advertiser of a leader, the Docker client, the signals.
\<close>

theorem agent_closes_what_it_opened:
  "let a = agent_main h; cfg = loadConfig h; mode = cl_Mode (Cluster cfg) in
     ap_deferred a =
       (if ho_docker h \<noteq> None then [StopSignals]
        else (if shows_dashboard a \<and> sqlite_ok h then [CloseStore] else []) @
             (if mode = ''leader'' \<and> advertises h cfg then [CloseAdvertiser] else []) @ [CloseDocker, StopSignals])"
proof (cases "ho_docker h")
  case None
  obtain a where a: "agent_main h = runExecutionMode h a" "ap_cfg a = loadConfig h"
    "ap_deferred a = (if cl_Mode (Cluster (loadConfig h)) = ''leader'' \<and> advertises h (loadConfig h) then [CloseAdvertiser] else []) @ [CloseDocker, StopSignals]"
    using agent_main_up [OF None] by metis
  have "shows_dashboard (agent_main h) \<longleftrightarrow> cl_Mode (Cluster (loadConfig h)) \<noteq> ''worker'' \<and> cl_Mode (Cluster (loadConfig h)) \<noteq> ''leader'' \<and> ho_mode h \<noteq> ''headless''"
    using None by (simp add: agent_main_services role_defs exporter_services_def)
  then show ?thesis
    using None a(2,3) unfolding a(1) Let_def
    by (simp add: runExecutionMode_def runWorkerMode_def runHeadlessMode_def runTUIMode_deferred)
next
  case (Some err)
  then show ?thesis by (simp add: agent_main_no_docker Let_def)
qed

text \<open>
  With a configuration file that cannot be read or parsed the agent runs on the built-in
  defaults, whatever the environment says: a process that the environment configures as a leader
  or worker, with its token and secret, starts as a standalone dashboard without them.
\<close>

theorem broken_file_drops_environment:
  assumes "snd (Load (ho_load h) ''configs/config.yaml'') \<noteq> None"
  shows "loadConfig h = DefaultConfig \<and> \<not> serves_push (agent_main h) \<and> \<not> sends_pushes (agent_main h)"
proof -
  have c: "loadConfig h = DefaultConfig"
    using assms by (auto simp: loadConfig_def split: prod.split option.split)
  then have m: "cl_Mode (Cluster (loadConfig h)) = ''standalone''" by (simp add: DefaultConfig_def)
  show ?thesis
  proof (cases "ho_docker h")
    case None
    from c m agent_main_services [OF None] show ?thesis
      by (simp add: role_defs exporter_services_def mux_def)
  next
    case (Some err)
    with c show ?thesis by (simp add: agent_main_no_docker role_defs)
  qed
qed

definition ex_host :: host where
  "ex_host = \<lparr>ho_load = (ex_load_env (ReadError ''permission denied''))\<lparr>le_env := (\<lambda>k. if k = ''CASTLE_ROCK_CLUSTER_MODE'' then ''leader'' else '''')\<rparr>,
     ho_mode = '''', ho_docker = None, ho_version = Inl ''down'', ho_info = Inl ''down'', ho_mdns = \<lparr>md_lookup = (\<lambda>n. Inr [''127.0.0.1'']), md_service = (\<lambda>i s dom hn p ips txt. Inr s), md_server = (\<lambda>z. Inr z), md_shutdown = (\<lambda>s. None)\<rparr>,
     ho_sql = \<lparr>sql_Open = (\<lambda>d. None), sql_Ping = None, sql_Exec = None\<rparr>, ho_now = 0\<rparr>"

theorem broken_file_drops_environment_witness:
  "le_env (ho_load ex_host) ''CASTLE_ROCK_CLUSTER_MODE'' = ''leader'' \<and> loadConfig ex_host = DefaultConfig \<and> \<not> serves_push (agent_main ex_host)"
proof -
  have "snd (Load (ho_load ex_host) ''configs/config.yaml'') \<noteq> None"
    by (simp add: ex_host_def ex_load_env_def Load_def Let_def)
  from broken_file_drops_environment [OF this] show ?thesis by (simp add: ex_host_def)
qed

end
