(* ===== verification/ClusterNet.thy ===== *)
theory ClusterNet
  imports Sender Exporter
begin

text \<open>
  Worker, network and leader together: the worker of \<open>Sender\<close> talks over a network that loses requests
  and answers to the HTTP server that \<open>Exporter\<close> starts on the leader, whose push endpoint is the
  handler of \<open>Receiver\<close>. Other clients send requests at any time.
\<close>

section \<open>The leader's server\<close>

text \<open>
  The server of \<open>Start\<close> with the receiver mounted: the path selects the handler. The two other
  handlers answer 200, an unknown path 404.
\<close>

definition leader_server ::
  "'r wire \<Rightarrow> Receiver \<Rightarrow> string \<Rightarrow> time \<Rightarrow> Request \<Rightarrow> MemoryStore \<Rightarrow> int \<times> MemoryStore" where
  "leader_server wire r path now req store =
     (case mux True path of
        PushHandler \<Rightarrow> (case ServeHTTP UpdateHost wire r now req store of (resp, store) \<Rightarrow> (rs_Status resp, store))
      | MetricsHandler \<Rightarrow> (200, store)
      | HealthHandler \<Rightarrow> (200, store)
      | NotFound \<Rightarrow> (404, store))"

section \<open>The network\<close>

text \<open>
  What happens to an attempt: requests of other clients are served first, some time passes, and then
  the request is lost, or served without the answer coming back, or served and answered. An attempt
  after the end of the script is lost. \<open>cw_served\<close> records every request the push endpoint has
  handled with its time, oldest first; the leader's store is the result of serving them.
\<close>

datatype fate = Lost | Unanswered | Answered

record hop =
  hp_others :: "(time \<times> Request) list"
  hp_delay :: duration
  hp_fate :: fate

record cluster =
  cw_clock :: time
  cw_served :: "(time \<times> Request) list"
  cw_script :: "hop list"

definition leader_store :: "'r wire \<Rightarrow> Receiver \<Rightarrow> cluster \<Rightarrow> MemoryStore" where
  "leader_store wire r w = serve_all UpdateHost wire r (cw_served w) NewMemoryStore"

definition arrive :: "hop \<Rightarrow> cluster \<Rightarrow> cluster" where
  "arrive hp w = w\<lparr>cw_clock := cw_clock w + hp_delay hp, cw_served := cw_served w @ hp_others hp, cw_script := tl (cw_script w)\<rparr>"

definition handled :: "Request \<Rightarrow> cluster \<Rightarrow> cluster" where
  "handled req w = w\<lparr>cw_served := cw_served w @ [(cw_clock w, req)]\<rparr>"

text \<open>The leader listens at \<open>base\<close>, such as \<open>http://10.0.0.1:9110\<close>; the rest of the URL is the path.\<close>

definition cluster_net :: "'r wire \<Rightarrow> Receiver \<Rightarrow> string \<Rightarrow> cluster net" where
  "cluster_net wire r base =
     \<lparr>n_url_ok = (\<lambda>_. True),
      n_do = (\<lambda>url req w.
        case cw_script w of
          [] \<Rightarrow> (None, w)
        | hp # _ \<Rightarrow>
            (let w = arrive hp w; path = drop (length base) url
             in if hp_fate hp = Lost \<or> \<not> has_prefix url base then (None, w)
                else (let (status, store) = leader_server wire r path (cw_clock w) req (leader_store wire r w);
                          w = (if mux True path = PushHandler then handled req w else w)
                      in (if hp_fate hp = Answered then Some status else None, w)))),
      n_wait = (\<lambda>d w. (True, w\<lparr>cw_clock := cw_clock w + d\<rparr>))\<rparr>"

lemma mux_push [simp]: "mux True pushPath = PushHandler"
  by (simp add: mux_def pushPath_def)

text \<open>The record of served requests is faithful: its store is the one the server computes.\<close>

lemma serve_all_append: "serve_all upd wire r (xs @ ys) st = serve_all upd wire r ys (serve_all upd wire r xs st)"
  by (induction xs arbitrary: st) auto

lemma leader_store_handled:
  "leader_store wire r (handled req w) = snd (leader_server wire r pushPath (cw_clock w) req (leader_store wire r w))"
  by (simp add: leader_store_def handled_def serve_all_append leader_server_def split: prod.split)

section \<open>A push over the network\<close>

definition after_hop :: "Request \<Rightarrow> hop \<Rightarrow> cluster \<Rightarrow> cluster" where
  "after_hop req hp w = (if hp_fate hp = Lost then arrive hp w else handled req (arrive hp w))"

lemma attempt_cluster:
  assumes "cw_script w = hp # hs" "valid_push wire r req p"
  shows "attempt (cluster_net wire r base) (base @ pushPath) req w = (hp_fate hp = Answered, after_hop req hp w)"
  using assms(1)
  by (cases "hp_fate hp")
    (auto simp: attempt_def cluster_net_def Let_def has_prefix_append leader_server_def after_hop_def
      serve_valid [OF assms(2)] push_ok_def split: prod.split)

lemma after_hop_simps [simp]:
  "cw_script (after_hop req hp w) = tl (cw_script w)"
  "hp_fate hp = Answered \<Longrightarrow>
   cw_served (after_hop req hp w) = cw_served w @ hp_others hp @ [(cw_clock (after_hop req hp w), req)]"
  by (auto simp: after_hop_def handled_def arrive_def)

lemma after_hop_served: "\<exists>pre. cw_served (after_hop req hp w) = cw_served w @ pre"
  by (auto simp: after_hop_def handled_def arrive_def)

text \<open>
  A valid push is delivered when one of the remaining attempts is answered, and it is then the last
  request the leader has served.
\<close>

lemma retryLoop_cluster:
  assumes "valid_push wire r req p" "i \<le> maxRetries" "Answered \<in> hp_fate ` set (take (Suc maxRetries - i) (cw_script w))"
  shows "\<exists>w' pre. retryLoop (cluster_net wire r base) (base @ pushPath) req i backoff w = (Delivered, w')
     \<and> cw_served w' = cw_served w @ pre @ [(cw_clock w', req)]"
  using assms(2,3)
proof (induction "maxRetries - i" arbitrary: i backoff w rule: less_induct)
  case less
  obtain hp hs where s: "cw_script w = hp # hs" using less.prems by (cases "cw_script w") auto
  note round = retryLoop_round [OF less.prems(1) attempt_cluster [OF s assms(1), of base], of backoff]
  show ?case
  proof (cases "hp_fate hp = Answered")
    case True
    then have "cw_served (after_hop req hp w) = cw_served w @ hp_others hp @ [(cw_clock (after_hop req hp w), req)]" by simp
    then show ?thesis using round True by auto
  next
    case False
    let ?u = "(after_hop req hp w)\<lparr>cw_clock := cw_clock (after_hop req hp w) + backoff\<rparr>"
    have i: "i < maxRetries"
      using less.prems s False by (cases "i = maxRetries") (auto simp: take_Cons')
    then have later: "Answered \<in> hp_fate ` set (take (Suc maxRetries - Suc i) (cw_script ?u))"
      using less.prems(2) s False by (auto simp: Suc_diff_le)
    have "maxRetries - Suc i < maxRetries - i" "Suc i \<le> maxRetries" using i by simp_all
    then obtain w' pre where r: "retryLoop (cluster_net wire r base) (base @ pushPath) req (Suc i) (backoff * 2) ?u = (Delivered, w')"
        "cw_served w' = cw_served ?u @ pre @ [(cw_clock w', req)]"
      using less.hyps [OF _ _ later, of "backoff * 2"] by auto
    have "n_wait (cluster_net wire r base) backoff (after_hop req hp w) = (True, ?u)" by (simp add: cluster_net_def)
    then have "retryLoop (cluster_net wire r base) (base @ pushPath) req i backoff w = (Delivered, w')"
      using round i r(1) False by simp
    then show ?thesis using r(2) after_hop_served [of req hp w] by auto
  qed
qed

text \<open>
  A tick of a worker that shares secret and token with the leader: when Docker answers and one of the
  four attempts is answered, the last request the leader has served is a valid push of the collected
  containers and metrics.
\<close>

lemma senderTick_cluster:
  fixes wire :: "'r wire" and n :: "cluster node" and k :: "('r, cluster) worker" and cfg cs ms
  defines "k' \<equiv> senderTick wire n cfg k" and "payload \<equiv> buildPayload (cl_HostID (Cluster cfg)) cs ms"
  assumes wire: "wire_ok wire"
    and leader: "cl_SharedSecret (Cluster cfg) = rc_sharedSecret r" "cl_AuthToken (Cluster cfg) = rc_token r"
    and url: "d_net n = cluster_net wire r base" "wk_leaderURL k = base @ pushPath"
    and docker: "d_list n (wk_world k) = (Inr cs, w1)" "d_stats n cs w1 = (Inr ms, w2)"
    and host: "cl_HostID (Cluster cfg) \<noteq> ''''"
    and enc: "encoded wire (rc_sharedSecret r) payload (wk_rng k) d rng'" "length (w_gzip wire d) \<le> body_limit"
    and json: "w_marshal wire payload = Inr data" "w_unmarshal wire data = Inr payload"
    and net: "Answered \<in> hp_fate ` set (take 4 (cw_script w2))"
  shows "\<exists>pre req. valid_push wire r req payload \<and> wk_failures k' = wk_failures k \<and>
     cw_served (wk_world k') = cw_served w2 @ pre @ [(cw_clock (wk_world k'), req)]"
proof -
  let ?req = "pushRequest (rc_sharedSecret r \<noteq> '''') (rc_token r) (w_gzip wire d)"
  have v: "valid_push wire r ?req payload"
    using pushRequest_valid [OF wire enc(2) json(2) encoded_plain [OF wire enc(1) json(1)] refl] host
    by (simp add: payload_def buildPayload_def)
  obtain w' pre where l: "retryLoop (cluster_net wire r base) (base @ pushPath) ?req 0 (1 * second) w2 = (Delivered, w')"
      "cw_served w' = cw_served w2 @ pre @ [(cw_clock w', ?req)]"
    using retryLoop_cluster [OF v, of 0 w2 base "1 * second"] net by (auto simp: maxRetries_def)
  have "k' = k\<lparr>wk_rng := rng', wk_world := w'\<rparr>"
    using url sendPushPayload_encoded [OF enc(1), of "cluster_net wire r base" "base @ pushPath" "rc_token r" w2 "wk_failures k"] l(1)
    by (simp add: k'_def senderTick_def docker leader Let_def pushPath_def flip: payload_def)
  then show ?thesis using v l(2) by auto
qed

section \<open>What the leader has accepted\<close>

lemma is_accepted_append: "is_accepted w r xs us \<Longrightarrow> is_accepted w r ys vs \<Longrightarrow> is_accepted w r (xs @ ys) (us @ vs)"
  by (induction rule: is_accepted.induct) (auto intro: is_accepted.intros)

lemma find_append: "List.find P (xs @ ys) = (case List.find P xs of None \<Rightarrow> List.find P ys | Some x \<Rightarrow> Some x)"
  by (induction xs) auto

lemma last_push_append: "last_push (us @ vs) h = (case last_push vs h of None \<Rightarrow> last_push us h | Some x \<Rightarrow> Some x)"
  unfolding last_push_def rev_append find_append ..

lemma last_push_None: "last_push us h = None \<longleftrightarrow> (\<forall>(t, p) \<in> set us. pp_HostID p \<noteq> h)"
  by (auto simp: last_push_def find_None_iff)

lemma last_push_served:
  assumes "valid_push wire r req p" "is_accepted wire r later vs" "\<forall>(t, q) \<in> set vs. pp_HostID q \<noteq> pp_HostID p"
  shows "\<exists>us. is_accepted wire r (xs @ [(t, req)] @ later) us \<and> last_push us (pp_HostID p) = Some (t, p)"
proof -
  obtain us where "is_accepted wire r xs us" using is_accepted_ex by blast
  moreover have "is_accepted wire r ([(t, req)] @ later) ((t, p) # vs)" using assms(1,2) by (auto intro: is_accepted.intros)
  ultimately have "is_accepted wire r (xs @ [(t, req)] @ later) (us @ (t, p) # vs)" by (rule is_accepted_append)
  moreover have "last_push vs (pp_HostID p) = None" using assms(3) by (simp add: last_push_None)
  then have "last_push (us @ (t, p) # vs) (pp_HostID p) = Some (t, p)"
    using last_push_append [of "us @ [(t, p)]" vs] last_push_append [of us "[(t, p)]"] by (simp add: last_push_def)
  ultimately show ?thesis by blast
qed

text \<open>The metrics a leader shows after serving requests: those of the fresh last accepted push of each host.\<close>

definition shown_metrics :: "time \<Rightarrow> (time \<times> PushPayload) list \<Rightarrow> ContainerMetrics set" where
  "shown_metrics now us =
     {x. \<exists>h t p. last_push us h = Some (t, p) \<and> time_sub now t \<le> 30 * second \<and> x \<in> set (pp_Metrics p)}"

lemma GetAllMetrics_shown:
  assumes "store_visits (pushed us) rs"
  shows "set (GetAllMetrics now rs) = shown_metrics now us"
  using mem.metrics_mem [OF pushed_inv assms] by (fastforce simp: shown_metrics_def pushed_hosts host_data_def fresh_def)

lemma served_shown:
  assumes "is_accepted w r reqs us" "store_visits (serve_all UpdateHost w r reqs NewMemoryStore) rs"
  shows "set (GetAllMetrics now rs) = shown_metrics now us"
  using assms(2) GetAllMetrics_shown unfolding serve_all_fold [OF assms(1)] pushed_def by blast

lemma collect_ok:
  "collect (Inr cs) (\<lambda>_. Inr loc) remote e =
     (fold setGauges (all_metrics (ex_hostID e) loc remote) (resetGauges (e\<lparr>monitored := f64_of_int (int (length cs))\<rparr>)))
       \<lparr>lastStats := map_of loc\<rparr>"
  by (rule collect_eq) simp_all

lemma collect_series:
  assumes "(g, f) \<in> set gauges"
  shows "dom (g (collect (Inr cs) (\<lambda>_. Inr loc) remote e)) = labels_of ` set (all_metrics (ex_hostID e) loc remote)"
  using last_with_dom by (fastforce simp: dom_def collect_ok gauges_shown [OF assms])

lemma collect_values:
  assumes "(g, f) \<in> set gauges" "distinct (map labels_of (all_metrics (ex_hostID e) loc remote))"
    "s \<in> set (all_metrics (ex_hostID e) loc remote)"
  shows "g (collect (Inr cs) (\<lambda>_. Inr loc) remote e) (labels_of s) = Some (f s)"
  using last_with_unique [OF assms(2,3)] by (simp add: collect_ok gauges_shown [OF assms(1)])

end
