(* ===== verification/TuiDocker.thy ===== *)
theory TuiDocker
  imports TuiRun
begin

text \<open>
  The dashboard on the Docker client. The interface \<open>docker.ContainerEngine\<close>, as far as the commands of
  the dashboard use it, is the locale \<open>container_engine\<close>: a provider promises something of every
  container it lists, and the client's lemmas carry that promise to everything the dashboard shows
  and acts on. \<open>docker_world\<close> is the provider made of the client of \<^verbatim>\<open>internal/docker/client.go\<close>.
\<close>

section \<open>Where the shown containers come from\<close>

lemma normal_keys_containers: "yields (\<lambda>x. m_containers x = m_containers m) (handleNormalKeys env k m)"
proof -
  let ?P = "\<lambda>x. m_containers x = m_containers m"
  have "yields ?P (handleNavigationKeys k m)"
    by (auto simp: handleNavigationKeys_def handleSearchToggle_def handleScrollUp_def handleScrollDown_def
        handleScrollReset_def handleSpaceSelection_def yields_def Let_def split: if_splits)
  moreover have "yields ?P (exportLogs env m)" "yields ?P (startMultiTailLogs env m)"
    by (simp_all add: exportLogs_def startMultiTailLogs_def Let_def split: sum.split)
  moreover have "yields ?P (toggleSingleContainerLogs env m)"
    by (auto simp: toggleSingleContainerLogs_def yields_def Let_def split: if_splits sum.splits)
  moreover have "yields ?P (handleActionKeys k m)" by (simp add: handleActionKeys_def shell_yields)
  moreover have "yields ?P (handleViewKeys env k m)" by (simp add: handleViewKeys_def Let_def split: sum.split)
  ultimately show ?thesis
    unfolding handleNormalKeys_def handleLogKeys_def Let_def by (intro yields_if) simp_all
qed

lemma key_containers: "handleKeyMsg env k m = Ret (m', cs) \<Longrightarrow> m_containers m' = m_containers m"
proof -
  assume H: "handleKeyMsg env k m = Ret (m', cs)"
  then obtain m1 cs1 b where M: "handleModalKeys k m = Ret (m1, cs1, b)" by (auto simp: handleKeyMsg_def)
  then have "m_containers m1 = m_containers m"
    by (auto simp: handleModalKeys_def handleConfirmKeys_def handleStressKeys_def handleCleanupKeys_def
        handleSearchKeys_def Let_def split: if_splits)
  then show ?thesis
    using H M normal_keys_containers [of m env k] by (cases b) (auto simp: handleKeyMsg_def yields_def)
qed

text \<open>The list of containers changes on a list message only, and then to the list it carries.\<close>

lemma Update_containers:
  assumes "Update env msg m = Ret (m', cs)"
  shows "m_containers m' = (case msg of ContainerListMsg l \<Rightarrow> l | _ \<Rightarrow> m_containers m)"
proof (cases msg)
  case (KeyMsg k)
  with assms show ?thesis by (simp add: Update_def key_containers)
next
  case (ContainerListMsg l)
  with assms container_list_frame [of env l m] show ?thesis by (auto simp: Update_def)
next
  case (StatsMsg st)
  with assms handleStatsMsg_frame [of env st m] show ?thesis by (auto simp: Update_def)
next
  case (StressResultMsg success mode err)
  with assms show ?thesis by (auto simp: Update_def handleStressResultMsg_def Let_def split: if_splits)
next
  case (PruneResultMsg r t err)
  with assms show ?thesis by (cases err) (auto simp: Update_def handlePruneResultMsg_def Let_def)
qed (use assms in \<open>auto simp: Update_def handleDockerEventMsg_def handleLogLineMsg_def handleActionResultMsg_def
       handleTickMsg_def Let_def split: if_splits option.splits\<close>)

text \<open>A command that acts on a container acts on one of which \<open>P\<close> holds.\<close>

fun concerns :: "(ContainerDisplay \<Rightarrow> bool) \<Rightarrow> cmd \<Rightarrow> bool" where
  "concerns P (ExecuteAction a i n) \<longleftrightarrow> (\<exists>cd. P cd \<and> cd_ID cd = i \<and> cd_Name cd = n)"
| "concerns P (ExecuteShell n) \<longleftrightarrow> (\<exists>cd. P cd \<and> cd_Name cd = n)"
| "concerns P _ \<longleftrightarrow> True"

lemma selected_holds:
  "list_all P cds \<Longrightarrow> 0 \<le> i \<Longrightarrow> i < int (length cds) \<Longrightarrow> P (cds ! nat i)"
  by (simp add: list_all_length)

lemma confirmed_concerns: "list_all P (m_containers m) \<Longrightarrow> confirmed k m c \<Longrightarrow> concerns P c"
  using selected_holds [of P "m_containers m" "m_cursor m"] by (auto simp: confirmed_def)

text \<open>The shell is opened on the selected container.\<close>

lemma shell_scheduled:
  assumes "handleNormalKeys env k m = Ret (m', cs)" "ExecuteShell n \<in> set cs"
  shows "0 \<le> m_cursor m \<and> m_cursor m < int (length (m_containers m)) \<and> n = cd_Name (m_containers m ! nat (m_cursor m))"
proof -
  let ?Q = "\<lambda>c. c = ExecuteShell n \<longrightarrow> 0 \<le> m_cursor m \<and> m_cursor m < int (length (m_containers m)) \<and>
     n = cd_Name (m_containers m ! nat (m_cursor m))"
  have "emits ?Q (exportLogs env m)" "emits ?Q (startMultiTailLogs env m)"
    by (auto simp: exportLogs_def startMultiTailLogs_def Let_def list_all_iff dest: tailSelected_cmds split: sum.split)
  moreover have "emits ?Q (toggleSingleContainerLogs env m)"
    by (auto simp: toggleSingleContainerLogs_def emits_def Let_def split: if_splits sum.splits)
  moreover have "emits ?Q (handleActionKeys k m)"
    by (auto simp: handleActionKeys_def executeShell_def emits_def split: if_splits)
  moreover have "emits ?Q (handleViewKeys env k m)" by (simp add: handleViewKeys_def Let_def split: sum.split)
  ultimately have "emits ?Q (handleNormalKeys env k m)"
    unfolding handleNormalKeys_def handleLogKeys_def Let_def by (intro emits_if navigation_emits) simp_all
  then show ?thesis using assms by (auto simp: emits_def)
qed

lemma key_concerns:
  assumes "list_all P (m_containers m)" "handleKeyMsg env k m = Ret (m', cs)" "c \<in> set cs"
  shows "concerns P c"
proof (cases c)
  case (ExecuteAction a i n)
  then have "confirmed k m c" using key_emits [of k m env] assms(2,3) by (auto simp: list_all_iff)
  then show ?thesis using confirmed_concerns assms(1) by blast
next
  case (ExecuteShell n)
  obtain m1 cs1 b where M: "handleModalKeys k m = Ret (m1, cs1, b)" using assms(2) by (auto simp: handleKeyMsg_def)
  have "ExecuteShell n \<notin> set cs1"
    using M by (auto simp: handleModalKeys_def handleConfirmKeys_def handleStressKeys_def handleCleanupKeys_def
        handleSearchKeys_def Let_def split: if_splits)
  then have "handleNormalKeys env k m = Ret (m', cs)"
    using M assms(2,3) ExecuteShell by (cases b) (auto simp: handleKeyMsg_def)
  then show ?thesis
    using shell_scheduled [of env k m m' cs n] selected_holds [OF assms(1)] assms(3) ExecuteShell by auto
qed simp_all

lemma Update_concerns:
  assumes "list_all P (m_containers m)" "Update env msg m = Ret (m', cs)" "c \<in> set cs"
  shows "concerns P c"
proof (cases "is_key msg")
  case True
  then show ?thesis using assms key_concerns by (cases msg) (auto simp: Update_def)
next
  case False
  with other_frame [OF False assms(2)] assms(3) have "other_cmd msg c" by (auto simp: list_all_iff)
  moreover have "c \<noteq> ExecuteShell n" for n
    using False assms(2,3)
    by (cases msg) (auto simp: Update_def handleDockerEventMsg_def handleLogLineMsg_def handleActionResultMsg_def handleTickMsg_def
        handleStressResultMsg_def handlePruneResultMsg_def handleStatsMsg_def handleContainerListMsg_def Let_def
        split: if_splits option.splits prod.splits)
  ultimately show ?thesis by (cases c) auto
qed

section \<open>The interface\<close>

text \<open>
  \<open>inv\<close> is the provider's own invariant on its state, \<open>shown\<close> what it promises of the containers it lists,
  whatever host label they are given. The local dashboard has no cluster provider.
\<close>

locale container_engine =
  fixes api :: "'w world" and inv :: "'w \<Rightarrow> bool" and shown :: "ContainerDisplay \<Rightarrow> bool"
  assumes detailed_shown: "inv w \<Longrightarrow> ListRunningContainersDetailed_api api al w = (Inr cds, w') \<Longrightarrow> list_all shown cds"
    and shown_host: "shown cd \<Longrightarrow> shown (cd\<lparr>cd_HostID := host\<rparr>)"
    and local: "remote_containers api w = None"
    and detailed_inv: "inv w \<Longrightarrow> inv (snd (ListRunningContainersDetailed_api api al w))"
    and list_inv: "inv w \<Longrightarrow> inv (snd (ListRunningContainers_api api al w))"
    and stats_inv: "inv w \<Longrightarrow> inv (snd (GetAllContainerStats_api api cs w))"
    and watch_inv: "inv w \<Longrightarrow> inv (snd (WatchEvents_api api w))"
    and stop_inv: "inv w \<Longrightarrow> inv (snd (StopContainer_api api i w))"
    and restart_inv: "inv w \<Longrightarrow> inv (snd (RestartContainer_api api i w))"
    and stress_inv: "inv w \<Longrightarrow> inv (snd (RunStressTest_api api mode secs w))"
    and images_inv: "inv w \<Longrightarrow> inv (snd (PruneImages_api api w))"
    and volumes_inv: "inv w \<Longrightarrow> inv (snd (PruneVolumes_api api w))"
    and disk_inv: "inv w \<Longrightarrow> inv (snd (GetDiskUsage_api api w))"
    and log_inv: "inv w \<Longrightarrow> inv (snd (receive_log api ch w))"
    and exec_inv: "inv w \<Longrightarrow> inv (snd (exec_docker api n sh w))"
    and evolves_inv: "inv w \<Longrightarrow> evolves api w w' \<Longrightarrow> inv w'"
begin

lemmas calls_inv = detailed_inv list_inv stats_inv watch_inv stop_inv restart_inv stress_inv images_inv volumes_inv
  disk_inv log_inv exec_inv

lemma call_inv: "inv w \<Longrightarrow> (\<And>w. inv w \<Longrightarrow> inv (snd (f w))) \<Longrightarrow> f w = (x, w') \<Longrightarrow> inv w'"
  by (metis snd_conv)

lemma fetch_inv:
  "inv w \<Longrightarrow> inv (snd (fetchContainers api cfg b w))"
  "inv w \<Longrightarrow> inv (snd (fetchStats api b w))"
  by (auto simp: fetchContainers_def fetchStats_def Let_def split: prod.split sum.split
      dest: call_inv [where f = "ListRunningContainersDetailed_api api b", OF _ detailed_inv]
        call_inv [where f = "ListRunningContainers_api api b", OF _ list_inv]
        call_inv [where f = "GetAllContainerStats_api api cs" for cs, OF _ stats_inv])

lemma act_inv:
  "inv w \<Longrightarrow> inv (snd (watchDockerEvents api w))"
  "inv w \<Longrightarrow> inv (snd (waitForNextLog api n ch w))"
  "inv w \<Longrightarrow> inv (snd (executeAction api a i n w))"
  "inv w \<Longrightarrow> inv (snd (executeStress api mode w))"
  "inv w \<Longrightarrow> inv (snd (runPrune api target w))"
  "inv w \<Longrightarrow> inv (snd (fetchDiskUsage api w))"
  using watch_inv [of w] log_inv [of w ch] stop_inv [of w i] restart_inv [of w i] stress_inv [of w mode 30]
    images_inv [of w] volumes_inv [of w] disk_inv [of w]
  by (auto simp: watchDockerEvents_def waitForNextLog_def executeAction_def executeStress_def runPrune_def fetchDiskUsage_def
      split: prod.split watched.split option.split sum.split if_split)

lemma shell_inv: "inv w \<Longrightarrow> inv (snd (runShell api n w))"
  using exec_inv [of w n "''/bin/sh''"] exec_inv [of "snd (exec_docker api n ''/bin/sh'' w)" n "''/bin/bash''"]
  by (auto simp: runShell_def split: prod.split option.split)

lemma run_cmd_inv: "inv w \<Longrightarrow> inv (snd (run_cmd api cfg c w))"
  by (cases c) (simp_all add: run_cmd_def fetch_inv act_inv shell_inv)

lemma run_cmd_shown:
  assumes "inv w" "run_cmd api cfg c w = (Some (ContainerListMsg l), w')"
  shows "list_all shown l"
proof -
  obtain b where "fetchContainers api cfg b w = (ContainerListMsg l, w')"
    using assms(2) by (cases c) (auto simp: run_cmd_def fetchStats_def fetchHostStats_def watchDockerEvents_def waitForNextLog_def
        executeAction_def executeStress_def runShell_def runPrune_def fetchDiskUsage_def apfst_def map_prod_def Let_def
        split: prod.splits sum.splits option.splits watched.splits)
  then show ?thesis
    using detailed_shown [OF assms(1), of b] local
    by (auto simp: fetchContainers_def list_all_iff shown_host split: prod.splits sum.splits)
qed

text \<open>The promise along a run: on the screen, in the messages under way, and in the scheduled actions.\<close>

definition promise :: "'w system \<Rightarrow> bool" where
  "promise s \<longleftrightarrow> inv (sy_world s) \<and> list_all shown (m_containers (sy_model s)) \<and>
     (\<forall>c. c \<in># sy_pending s \<longrightarrow> concerns shown c) \<and> (\<forall>l. ContainerListMsg l \<in># sy_inbox s \<longrightarrow> list_all shown l)"

lemma promise_update:
  assumes "promise s" "Update env msg (sy_model s) = Ret (m', cs)" "\<And>l. msg = ContainerListMsg l \<Longrightarrow> list_all shown l"
    and "\<And>msg. msg \<in># ib \<Longrightarrow> msg \<in># sy_inbox s"
  shows "promise (s\<lparr>sy_model := m', sy_inbox := ib, sy_pending := sy_pending s + mset cs\<rparr>)"
proof -
  have s: "list_all shown (m_containers (sy_model s))" using assms(1) by (simp add: promise_def)
  have "list_all shown (m_containers m')" using Update_containers [OF assms(2)] s assms(3) by (cases msg) simp_all
  moreover have "\<forall>c \<in> set cs. concerns shown c" using Update_concerns [OF s assms(2)] by blast
  ultimately show ?thesis using assms(1,4) by (auto simp: promise_def)
qed

lemma runs_promise: "runs api s0 h s \<Longrightarrow> promise s0 \<Longrightarrow> promise s"
proof (induction rule: runs.induct)
  case (runs_input h s msg env m' cs)
  have "msg \<noteq> ContainerListMsg l" for l using runs_input.hyps(2) by auto
  then show ?case using promise_update [OF runs_input.IH runs_input.hyps(3), of "sy_inbox s"] runs_input.prems by simp
next
  case (runs_command h s c result w')
  have p: "promise s" using runs_command.IH runs_command.prems .
  then have w: "inv (sy_world s)" by (simp add: promise_def)
  have "inv w'" using run_cmd_inv [OF w, of "m_cfg (sy_model s)" c] runs_command.hyps(3) by simp
  moreover have "list_all shown l" if "result = Some (ContainerListMsg l)" for l
    using run_cmd_shown [OF w] runs_command.hyps(3) that by blast
  ultimately show ?case
    using p by (cases result) (auto simp: promise_def dest: in_diffD)
next
  case (runs_deliver h s msg env m' cs)
  have p: "promise s" using runs_deliver.IH runs_deliver.prems .
  have "list_all shown l" if "msg = ContainerListMsg l" for l
    using p runs_deliver.hyps(2) that unfolding promise_def by blast
  then show ?case by (intro promise_update [OF p runs_deliver.hyps(3)]) (blast dest: in_diffD)+
next
  case (runs_elapse h s w')
  have p: "promise s" using runs_elapse.IH runs_elapse.prems .
  then have "inv (sy_world s)" by (simp add: promise_def)
  then have "inv w'" using evolves_inv runs_elapse.hyps(2) by blast
  then show ?case using p by (simp add: promise_def)
qed simp

lemma start_promise:
  "inv w \<Longrightarrow> promise (start_system (NewModel portInt now sysInfo version cfg store) w)"
  by (auto simp: promise_def start_system_def NewModel_def Init_def)

end

section \<open>The Docker client as provider\<close>

section \<open>The Docker client as provider\<close>

text \<open>
  The daemon behind the client, with its state \<open>'d\<close>: the calls of the SDK, the streams it serves, the
  shell command and the probes of the host, and how it may change on its own.
\<close>

record 'd daemon =
  dm_ContainerList :: "bool \<Rightarrow> 'd \<Rightarrow> error + ApiContainer list"
  dm_ContainerInspect :: "string \<Rightarrow> 'd \<Rightarrow> error + ContainerJSON"
  dm_ContainerStats :: "string \<Rightarrow> 'd \<Rightarrow> error + (error + StatsJSON)"
  dm_Events :: "(string \<times> string) list \<Rightarrow> 'd \<Rightarrow> event_input list \<times> 'd"
  dm_ContainerStop :: "string \<Rightarrow> int \<Rightarrow> 'd \<Rightarrow> error option \<times> 'd"
  dm_ContainerRestart :: "string \<Rightarrow> int \<Rightarrow> 'd \<Rightarrow> error option \<times> 'd"
  dm_stress :: "'d stress_api"
  dm_ImagesPrune :: "'d \<Rightarrow> (error + 64 word) \<times> 'd"
  dm_VolumesPrune :: "'d \<Rightarrow> (error + 64 word) \<times> 'd"
  dm_DiskUsage :: "'d \<Rightarrow> error + ImageSummary list \<times> VolumeUsage option list"
  dm_log :: "log_chan \<Rightarrow> 'd \<Rightarrow> string option \<times> 'd"
  dm_exec :: "string \<Rightarrow> string \<Rightarrow> 'd \<Rightarrow> error option \<times> 'd"
  dm_cpu :: "'d \<Rightarrow> float64 list"
  dm_mem :: "'d \<Rightarrow> float64 option"
  dm_clock :: "'d \<Rightarrow> time"
  dm_evolves :: "'d \<Rightarrow> 'd \<Rightarrow> bool"

text \<open>
  What the runtime chooses: the case mapping of Unicode, the rendering of creation times, the order in
  which the goroutines of a listing reach the cache and those of the statistics their map, and
  which of two ready channels a \<open>select\<close> takes.
\<close>

record runtime =
  rt_uni :: "string \<Rightarrow> string"
  rt_fmtTime :: "int \<Rightarrow> string"
  rt_listing :: "nat \<Rightarrow> nat list"
  rt_stats :: "ContainerInfo list \<Rightarrow> ContainerInfo list"
  rt_errFirst :: bool

text \<open>
  The first thing the \<open>select\<close> on the two channels of \<open>WatchEvents\<close> receives, from what its goroutine
  sends before it closes them.
\<close>

definition first_watched :: "bool \<Rightarrow> (ContainerEvent list \<times> error option) outcome \<Rightarrow> watched" where
  "first_watched errFirst r =
     (case r of
        Panic \<Rightarrow> CtxDone
      | Ret (e # es, err) \<Rightarrow> FromEventCh e
      | Ret ([], err) \<Rightarrow> if errFirst then FromErrCh err else EventChClosed)"

definition with_daemon :: "('d \<Rightarrow> 'a \<times> 'd) \<Rightarrow> Client \<times> 'd \<Rightarrow> 'a \<times> Client \<times> 'd" where
  "with_daemon f w = (case w of (c, d) \<Rightarrow> (case f d of (x, d) \<Rightarrow> (x, c, d)))"

definition count_or_err :: "error + 64 word \<Rightarrow> 64 word \<times> error option" where
  "count_or_err r = (case r of Inl err \<Rightarrow> (0, Some err) | Inr n \<Rightarrow> (n, None))"

text \<open>
  The world of the dashboard over the client and the daemon. A listing that panics, on an ID shorter
  than twelve bytes, ends the process; the world answers an error there.
\<close>

definition docker_world :: "runtime \<Rightarrow> 'd daemon \<Rightarrow> (Client \<times> 'd) world" where
  "docker_world rt dm =
     \<lparr>ListRunningContainersDetailed_api = (\<lambda>al (c, d).
        case ListRunningContainersDetailed (rt_uni rt) (rt_fmtTime rt) (rt_listing rt) (\<lambda>b. dm_ContainerList dm b d)
               (\<lambda>i. dm_ContainerInspect dm i d) al c of
          Ret (c, res) \<Rightarrow> (res, c, d)
        | Panic \<Rightarrow> (Inl ''panic'', c, d)),
      ListRunningContainers_api = (\<lambda>al (c, d).
        case ListRunningContainers (\<lambda>b. dm_ContainerList dm b d) c al of
          Ret res \<Rightarrow> (res, c, d)
        | Panic \<Rightarrow> (Inl ''panic'', c, d)),
      GetAllContainerStats_api = (\<lambda>cs (c, d).
        (Inr (GetAllContainerStats (rt_stats rt) (includeContainers c) (\<lambda>i. dm_ContainerStats dm i d) cs), c, d)),
      WatchEvents_api = (\<lambda>(c, d).
        case WatchEvents (dm_Events dm) c d of (r, d) \<Rightarrow> (first_watched (rt_errFirst rt) r, c, d)),
      StopContainer_api = (\<lambda>i. with_daemon (StopContainer (dm_ContainerStop dm) i)),
      RestartContainer_api = (\<lambda>i. with_daemon (RestartContainer (dm_ContainerRestart dm) i)),
      RunStressTest_api = (\<lambda>mode secs. with_daemon (RunStressTest (dm_stress dm) mode secs)),
      PruneImages_api = with_daemon (apfst count_or_err \<circ> PruneImages (dm_ImagesPrune dm)),
      PruneVolumes_api = with_daemon (apfst count_or_err \<circ> PruneVolumes (dm_VolumesPrune dm)),
      GetDiskUsage_api = with_daemon (\<lambda>d. (GetDiskUsage (dm_DiskUsage dm d), d)),
      receive_log = (\<lambda>ch. with_daemon (dm_log dm ch)),
      exec_docker = (\<lambda>n sh. with_daemon (dm_exec dm n sh)),
      cpu_Percent = (\<lambda>(c, d). dm_cpu dm d), mem_UsedPercent = (\<lambda>(c, d). dm_mem dm d), clock = (\<lambda>(c, d). dm_clock dm d),
      remote_containers = (\<lambda>w. None), remote_metrics = (\<lambda>w. None),
      evolves = (\<lambda>(c, d) (c', d'). c' = c \<and> dm_evolves dm d d')\<rparr>"

text \<open>What the client keeps, and what it promises of the containers it lists.\<close>

definition client_inv :: "runtime \<Rightarrow> string list \<Rightarrow> Client \<times> 'd \<Rightarrow> bool" where
  "client_inv rt inc w \<longleftrightarrow>
     includeContainers (fst w) = inc \<and> cache_redacted (rt_uni rt) (fst w) \<and> (\<forall>n. set (rt_listing rt n) \<subseteq> {..<n})"

definition listed_ok :: "runtime \<Rightarrow> string list \<Rightarrow> ContainerDisplay \<Rightarrow> bool" where
  "listed_ok rt inc cd \<longleftrightarrow> isMonitored inc (cd_Name cd) \<and> length (cd_ID cd) = 12 \<and> redacted (rt_uni rt) (cd_Env cd)"

lemma with_daemon_client [simp]: "fst (snd (with_daemon f w)) = fst w"
  by (simp add: with_daemon_def split: prod.split)

lemma docker_detailed:
  assumes "client_inv rt inc w" "ListRunningContainersDetailed_api (docker_world rt dm) al w = (r, w')"
  shows "client_inv rt inc w' \<and> (\<forall>cds. r = Inr cds \<longrightarrow> list_all (listed_ok rt inc) cds)"
proof -
  obtain c d where w: "w = (c, d)" by (cases w)
  show ?thesis
  proof (cases "ListRunningContainersDetailed (rt_uni rt) (rt_fmtTime rt) (rt_listing rt) (\<lambda>b. dm_ContainerList dm b d)
      (\<lambda>i. dm_ContainerInspect dm i d) al c")
    case (Ret x)
    obtain c' res where x: "x = (c', res)" by (cases x)
    have "r = res" "w' = (c', d)" using assms(2) w Ret x by (simp_all add: docker_world_def)
    moreover note detailed_frame [OF Ret [unfolded x]] detailed_redacted [OF _ _ Ret [unfolded x]]
    ultimately show ?thesis using assms(1) w by (auto simp: client_inv_def listed_ok_def list_all_iff)
  next
    case Panic
    then show ?thesis using assms w by (auto simp: docker_world_def)
  qed
qed

interpretation docker: container_engine "docker_world rt dm" "client_inv rt inc" "listed_ok rt inc" for rt dm inc
proof unfold_locales
  fix w :: "Client \<times> 'a" and al cds w'
  assume "client_inv rt inc w" "ListRunningContainersDetailed_api (docker_world rt dm) al w = (Inr cds, w')"
  then show "list_all (listed_ok rt inc) cds" using docker_detailed by blast
next
  fix w :: "Client \<times> 'a" and al
  assume "client_inv rt inc w"
  then show "client_inv rt inc (snd (ListRunningContainersDetailed_api (docker_world rt dm) al w))"
    using docker_detailed [of rt inc w dm al] by (metis prod.collapse)
qed (auto simp: docker_world_def listed_ok_def client_inv_def split: prod.split outcome.split)

lemma docker_start:
  assumes "\<forall>n. set (rt_listing rt n) \<subseteq> {..<n}"
  shows "client_inv rt inc (SetIncludeContainers inc NewClient, d)"
  using assms by (simp add: client_inv_def SetIncludeContainers_def NewClient_def cache_redacted_def)

lemma docker_promise:
  assumes "\<forall>n. set (rt_listing rt n) \<subseteq> {..<n}"
    and "runs (docker_world rt dm) (start_system (NewModel portInt now sysInfo version cfg store) (SetIncludeContainers inc NewClient, d)) h s"
  shows "docker.promise rt inc s"
  by (rule docker.runs_promise [OF assms(2) docker.start_promise [OF docker_start [OF assms(1)]]])

section \<open>Properties\<close>

text \<open>
  C6: The dashboard on the Docker client, in every state it reaches and for every behaviour of the
  daemon and of the goroutines: each container on the screen passes the include filter, has a
  twelve-byte ID, and shows no secret of its environment: an entry \<open>NAME=value\<close> with a sensitive name
  has the value \<open>[REDACTED]\<close>.
\<close>

theorem dashboard_shows_no_secret:
  assumes "\<forall>n. set (rt_listing rt n) \<subseteq> {..<n}"
    and "runs (docker_world rt dm) (start_system (NewModel portInt now sysInfo version cfg store) (SetIncludeContainers inc NewClient, d)) h s"
    and "cd \<in> set (m_containers (sy_model s))"
  shows "isMonitored inc (cd_Name cd) \<and> length (cd_ID cd) = 12 \<and>
    (\<forall>k v. k @ CHR ''='' # v \<in> set (cd_Env cd) \<longrightarrow> CHR ''='' \<notin> set k \<longrightarrow> sensitive (rt_uni rt) k \<longrightarrow> v = ''[REDACTED]'')"
proof -
  have "listed_ok rt inc cd"
    using docker_promise [OF assms(1,2)] assms(3) unfolding docker.promise_def list_all_iff by blast
  then show ?thesis using redacted_value by (auto simp: listed_ok_def)
qed

definition ex_rt :: runtime where
  "ex_rt = \<lparr>rt_uni = id, rt_fmtTime = (\<lambda>_. ''''), rt_listing = (\<lambda>n. [0..<n]), rt_stats = id, rt_errFirst = True\<rparr>"

definition ex_daemon :: "unit daemon" where
  "ex_daemon = \<lparr>dm_ContainerList = (\<lambda>b d. Inr [ex_api_container]), dm_ContainerInspect = (\<lambda>i d. Inr ex_inspect),
     dm_ContainerStats = (\<lambda>i d. Inl ''gone''), dm_Events = (\<lambda>fs d. ([], d)), dm_ContainerStop = (\<lambda>i t d. (None, d)),
     dm_ContainerRestart = (\<lambda>i t d. (None, d)),
     dm_stress = \<lparr>sa_remove = (\<lambda>n d. d), sa_image_present = (\<lambda>n d. True), sa_pull = (\<lambda>n d. (None, d)),
       sa_create = (\<lambda>im cmd n d. (Inl ''no'', d)), sa_start = (\<lambda>i d. (None, d))\<rparr>,
     dm_ImagesPrune = (\<lambda>d. (Inr 0, d)), dm_VolumesPrune = (\<lambda>d. (Inr 0, d)), dm_DiskUsage = (\<lambda>d. Inl ''down''),
     dm_log = (\<lambda>ch d. (None, d)), dm_exec = (\<lambda>n sh d. (None, d)), dm_cpu = (\<lambda>d. []), dm_mem = (\<lambda>d. None),
     dm_clock = (\<lambda>d. 9), dm_evolves = (\<lambda>d d'. True)\<rparr>"

abbreviation ex_docker :: "(Client \<times> unit) world" where "ex_docker \<equiv> docker_world ex_rt ex_daemon"

definition ex_docker_start :: "(Client \<times> unit) system" where
  "ex_docker_start = start_system (NewModel (\<lambda>s. 0) 0 Map.empty ''0.3.0'' DefaultConfig None) (SetIncludeContainers [] NewClient, ())"

lemma ex_docker_run:
  "\<exists>s cd. runs ex_docker ex_docker_start [ContainerListMsg [cd]] s \<and> m_containers (sy_model s) = [cd] \<and>
     cd_Env cd = [''API_TOKEN=[REDACTED]''] \<and> normal_mode (sy_model s) \<and> m_cursor (sy_model s) = 0"
proof -
  have "case ex_detailed of Ret (c', Inr [cd]) \<Rightarrow> cd_Env cd = [''API_TOKEN=[REDACTED]''] | _ \<Rightarrow> False" by code_simp
  then obtain c' cd0 where e: "ex_detailed = Ret (c', Inr [cd0])" "cd_Env cd0 = [''API_TOKEN=[REDACTED]'']"
    by (auto split: outcome.splits prod.splits sum.splits list.splits)
  define cd where "cd = cd0\<lparr>cd_HostID := localHost (cl_HostID (Cluster DefaultConfig))\<rparr>"
  let ?m = "NewModel (\<lambda>s. 0) 0 Map.empty ''0.3.0'' DefaultConfig None :: Model"
  have m: "m_cfg ?m = DefaultConfig" "m_cursor ?m = 0" "FetchContainers False \<in># mset (Init ?m)" "normal_mode ?m"
    by (simp_all add: NewModel_def Init_def normal_mode_def)
  have n: "SetIncludeContainers [] NewClient = NewClient" by (simp add: SetIncludeContainers_def NewClient_def)
  have "ListRunningContainersDetailed id (\<lambda>_. '''') (\<lambda>n. [0..<n]) (\<lambda>b. Inr [ex_api_container]) (\<lambda>i. Inr ex_inspect) False NewClient = ex_detailed"
    unfolding ex_detailed_def ListRunningContainersDetailed_def ..
  then have "ListRunningContainersDetailed_api ex_docker False (SetIncludeContainers [] NewClient, ()) = (Inr [cd0], c', ())"
    unfolding n e(1) by (simp add: docker_world_def ex_rt_def ex_daemon_def)
  then have c: "run_cmd ex_docker DefaultConfig (FetchContainers False) (SetIncludeContainers [] NewClient, ()) =
      (Some (ContainerListMsg [cd]), c', ())"
    by (simp add: run_cmd_def fetchContainers_def cd_def Let_def) (simp add: docker_world_def)
  obtain s1 where r1: "runs ex_docker ex_docker_start [] s1" "sy_model s1 = ?m" "sy_inbox s1 = {#ContainerListMsg [cd]#}"
    using runs_command [OF runs_refl [of ex_docker ex_docker_start], of "FetchContainers False" "Some (ContainerListMsg [cd])" "(c', ())"] m c
    by (auto simp: ex_docker_start_def start_system_def)
  obtain m1 where u: "Update ex_env (ContainerListMsg [cd]) ?m = Ret (m1, [])" "m_containers m1 = [cd]" "m_cursor m1 = 0" "normal_mode m1"
    using container_list_frame [of ex_env "[cd]" ?m] m(2,4) by (auto simp: Update_def normal_mode_def)
  have "ContainerListMsg [cd] \<in># sy_inbox s1" using r1(3) by simp
  from runs_deliver [OF r1(1) this, of ex_env m1 "[]"] u r1(2,3)
  have "runs ex_docker ex_docker_start [ContainerListMsg [cd]] (s1\<lparr>sy_model := m1, sy_inbox := {#}\<rparr>)" by simp
  then show ?thesis using u(2,3,4) e(2) by (intro exI [of _ "s1\<lparr>sy_model := m1, sy_inbox := {#}\<rparr>"] exI [of _ cd]) (simp add: cd_def)
qed

theorem dashboard_shows_no_secret_witness:
  "\<exists>h s cd. runs ex_docker ex_docker_start h s \<and> cd \<in> set (m_containers (sy_model s)) \<and> cd_Env cd = [''API_TOKEN=[REDACTED]''] \<and>
     length (cd_ID cd) = 12"
proof -
  obtain s cd where r: "runs ex_docker ex_docker_start [ContainerListMsg [cd]] s" "m_containers (sy_model s) = [cd]"
      "cd_Env cd = [''API_TOKEN=[REDACTED]'']" using ex_docker_run by blast
  have "\<forall>n. set (rt_listing ex_rt n) \<subseteq> {..<n}" by (auto simp: ex_rt_def)
  from dashboard_shows_no_secret [OF this r(1) [unfolded ex_docker_start_def], of cd] r(2) have "length (cd_ID cd) = 12" by simp
  then show ?thesis using r by (intro exI [of _ "[ContainerListMsg [cd]]"] exI [of _ s] exI [of _ cd]) simp
qed

text \<open>
  C7: the dashboard acts on monitored containers only: every stop, restart or shell it has scheduled, in
  any state it reaches, names a container that passes the include filter.
\<close>

theorem actions_only_on_monitored:
  assumes "\<forall>n. set (rt_listing rt n) \<subseteq> {..<n}"
    and "runs (docker_world rt dm) (start_system (NewModel portInt now sysInfo version cfg store) (SetIncludeContainers inc NewClient, d)) h s"
    and "ExecuteAction a i n \<in># sy_pending s \<or> ExecuteShell n \<in># sy_pending s"
  shows "isMonitored inc n"
proof -
  have "concerns (listed_ok rt inc) (ExecuteAction a i n) \<or> concerns (listed_ok rt inc) (ExecuteShell n)"
    using docker_promise [OF assms(1,2)] assms(3) unfolding docker.promise_def by blast
  then show ?thesis by (auto simp: listed_ok_def)
qed

theorem actions_only_on_monitored_witness:
  "\<exists>h s i n. runs ex_docker ex_docker_start h s \<and> ExecuteAction ''stop'' i n \<in># sy_pending s \<and> isMonitored [] n"
proof -
  obtain s cd where r: "runs ex_docker ex_docker_start [ContainerListMsg [cd]] s" "m_containers (sy_model s) = [cd]"
      "m_cursor (sy_model s) = 0" "normal_mode (sy_model s)" using ex_docker_run by blast
  let ?m = "(sy_model s)\<lparr>m_confirmAction := ''stop''\<rparr>"
  have "Update ex_env (KeyMsg ''s'') (sy_model s) = Ret (?m, [])"
    using r(2-4) by (simp add: Update_def handleKeyMsg_def handleModalKeys_def handleNormalKeys_def handleActionKeys_def normal_mode_def)
  from runs_input [OF r(1) _ this] have r1: "runs ex_docker ex_docker_start [KeyMsg ''s'', ContainerListMsg [cd]] (s\<lparr>sy_model := ?m\<rparr>)" by simp
  have "Update ex_env (KeyMsg ''y'') (sy_model (s\<lparr>sy_model := ?m\<rparr>)) =
      Ret (?m\<lparr>m_confirmAction := ''''\<rparr>, [ExecuteAction ''stop'' (cd_ID cd) (cd_Name cd)])"
    using y_confirms [of ?m ex_env] r(2,3) by simp
  from runs_input [OF r1 _ this] obtain h s' where r2: "runs ex_docker ex_docker_start h s'" "ExecuteAction ''stop'' (cd_ID cd) (cd_Name cd) \<in># sy_pending s'"
    by fastforce
  have "\<forall>n. set (rt_listing ex_rt n) \<subseteq> {..<n}" by (auto simp: ex_rt_def)
  from actions_only_on_monitored [OF this r2(1) [unfolded ex_docker_start_def], of "''stop''" "cd_ID cd" "cd_Name cd"] r2(2)
  have "isMonitored [] (cd_Name cd)" by simp
  then show ?thesis using r2 by blast
qed

end
