(* ===== verification/Spec2Isabelle.thy ===== *)
theory Spec2Isabelle
  imports Agent ClusterNet TuiDocker
begin

text \<open>
  \<^bold>\<open>Castle Rock Agent: a verification library.\<close>

  The Castle Rock Agent watches the Docker containers of a host. One process plays one of three roles.
  A standalone process shows an interactive dashboard and exports Prometheus metrics. A worker collects
  metrics and pushes them, compressed and optionally encrypted, to a leader. A leader receives pushes
  over HTTP, keeps the last one of each host and exports the metrics of the whole cluster. Beside this
  the dashboard evaluates alert rules, audits the security configuration of the containers and acts on
  them, and a watchdog prunes the Docker daemon when the disk fills up.

  \<^bold>\<open>Theories and source files.\<close>
  \<^item> \<open>Prelude\<close>: Go values in HOL: panics as an \<open>outcome\<close>, saturating time differences, byte strings and
    the string functions the sources use, printing of integers, ranges over maps.
  \<^item> \<open>Float64\<close>: IEEE double arithmetic on rationals with rounding, for CPU and memory percentages.
  \<^item> \<open>Models\<close>: \<^verbatim>\<open>pkg/models/container.go\<close>.
  \<^item> \<open>Config\<close>: \<^verbatim>\<open>internal/config/config.go\<close>: defaults, environment overrides, \<open>Load\<close>.
  \<^item> \<open>Alerts\<close>: \<^verbatim>\<open>internal/alerts/alerts.go\<close>: the alert engine, and the machine of one condition that
    it implements.
  \<^item> \<open>Crypto\<close>: \<^verbatim>\<open>internal/cluster/crypto.go\<close>: the sealed envelope of a push.
  \<^item> \<open>Store\<close>, \<open>Receiver\<close>: \<^verbatim>\<open>internal/cluster/receiver.go\<close>: the sharded store, its interface as the
    locale \<open>cluster_store\<close>, and the HTTP handler, which relies on that interface only.
  \<^item> \<open>Discovery\<close>, \<open>Sender\<close>: \<^verbatim>\<open>internal/cluster/discovery.go\<close>, \<^verbatim>\<open>internal/cluster/sender.go\<close>: how a leader
    announces itself and is found, and the worker.
  \<^item> \<open>ClusterNet\<close>: worker, network, leader and exporter together: the leader's server behind a network that
    loses requests and answers and delivers the pushes of other hosts in between.
  \<^item> \<open>Logger\<close>: \<^verbatim>\<open>internal/logger/logger.go\<close>: the log handler, terminal tables, redaction of secrets.
  \<^item> \<open>Stats\<close>, \<open>Docker\<close>: \<^verbatim>\<open>internal/docker/client.go\<close>: statistics of containers, and the other calls of
    the client with its metadata cache.
  \<^item> \<open>Security\<close>: \<^verbatim>\<open>internal/security/auditor.go\<close>: the ten rules, each an interpretation of the locale
    \<open>security_rule\<close>, and the caching auditor.
  \<^item> \<open>Storage\<close>, \<open>Prune\<close>: \<^verbatim>\<open>internal/storage/sqlite.go\<close>, \<^verbatim>\<open>internal/prune/pruner.go\<close>: the event store
    with its write queue, the disk watchdog.
  \<^item> \<open>Exporter\<close>, \<open>Topology\<close>: \<^verbatim>\<open>internal/metrics\<close>, \<^verbatim>\<open>internal/topology/mapper.go\<close>,
    \<^verbatim>\<open>internal/collector/container.go\<close>.
  \<^item> \<open>Tui\<close>, \<open>TuiRun\<close>: \<^verbatim>\<open>internal/tui/tui.go\<close>: the model of the dashboard, \<open>Update\<close> with every handler, the
    commands, and runs of the whole event loop.
  \<^item> \<open>TuiDocker\<close>: the dashboard on the Docker client: the interface \<open>docker.ContainerEngine\<close> as the locale
    \<open>container_engine\<close>, and its interpretation on the client.
  \<^item> \<open>I18n\<close>, \<open>TuiView\<close>: \<^verbatim>\<open>internal/i18n/i18n.go\<close> and the rendering of the dashboard, \<open>View\<close> with its helpers.
  \<^item> \<open>Agent\<close>: \<^verbatim>\<open>cmd/agent/main.go\<close>: which services a process starts, and what it closes at its end.

  \<^bold>\<open>Correspondence.\<close> A Go struct is a record with a prefix on its fields, a method is a function from
  the receiver to the updated receiver and the results. Errors are strings, the text of \<open>Error()\<close>; an
  operation that can fail returns a sum, one that can panic an \<open>outcome\<close>. Whatever is outside the
  repository is a parameter: the Docker daemon, the network, the SQLite driver, mDNS, the file system,
  gzip, JSON, YAML, HKDF and AES-GCM, the clock and the random source. The documented behaviour of
  these that a theorem needs is a named hypothesis of it, with a witness that shows it can hold. The
  visiting order of a range over a Go map, and the schedule of goroutines, are parameters too, and the
  theorems hold for all of them.

  \<^bold>\<open>What is shown.\<close>
  \<^item> Alerts: the engine refines the machine of each rule and container; an alert means that its condition
    held for the rule's duration at every evaluation in between; it is reported once; the result does
    not depend on the map order.
  \<^item> Cluster: the receiver accepts exactly the valid pushes of authorised hosts and otherwise answers the
    first error that applies; the leader shows exactly the fresh snapshots of accepted pushes; a push
    survives up to three failures with growing waits and reaches the leader's store; sealing and opening
    are inverse, and opening accepts nothing but envelopes.
  \<^item> Docker: percentages are finite and bounded; the collection does not depend on the schedule; log
    frames are decoded.
  \<^item> Docker client and dashboard together: in every reachable state the containers on the screen pass the
    include filter and show no secret of their environment, and every action under way is on such a
    container.
  \<^item> Configuration: the environment wins over the file and the file over the defaults.
  \<^item> Security: an audit reports, for every container, its cached or fresh alerts, and a fresh audit
    exactly the risks of its configuration, which are specified apart from the rules.
  \<^item> Storage and pruning: the queue is first-in first-out, bounded, loses only what the database refuses,
    and is drained on close whatever the database answers; the calls of the prune that reach Docker are
    at least an hour apart, and none is held back longer.
  \<^item> Dashboard: an invariant of all reachable states; no panic but on one message; no stop or restart
    without a question and its confirmation; one heartbeat; the marks of the table. Rendering never
    panics in a reachable state, the question names the container the answer acts on, and the log panel
    shows a window of the matching lines.
  \<^item> Agent: the role of a process is decided by its configuration; it closes what it has opened, the last
    opened first.
  \<^item> Worker, receiver, store and exporter together (this theory): the series a leader exports are those
    of its own containers and of the fresh last accepted push of every host; what a worker collects is
    exported by the leader for thirty seconds, when one of the four attempts of the push gets through.

  Some theorems record where the code departs from its intention: a pending condition survives the
  absence of its container, a confirmation acts on the container that has moved under the cursor, a lost
  event watch is not restarted, an unreadable configuration file discards the environment.

  \<^bold>\<open>Bounds and fuel.\<close> No definition takes fuel: every loop is structural or has a measure (the four
  attempts of the retry loop, the digits of a number). A run of the dashboard or of the store is an
  inductive relation, unbounded in length.

  \<^bold>\<open>Not modelled.\<close> The signal handling of \<open>main\<close>; \<open>Run\<close> of the dashboard, which starts the bubbletea
  program; the registration of Prometheus collectors, which only calls the library; the start and
  shutdown of the HTTP server; the constructor and the name of the collector, which hold a reference and
  a constant; slog record formatting of attribute kinds. Go's int counters of the dashboard are unbounded
  integers: they cannot overflow in practice.
\<close>

section \<open>From request to series\<close>

text \<open>
  C2: from the wire to Prometheus: after a leader has served any sequence of requests and its own Docker
  daemon has answered a collection, the series of each of its nine gauges are those of its own containers
  and of the containers in the last valid push of each host that is at most thirty seconds old; a request
  that was refused contributes nothing.
\<close>

theorem leader_exports_exactly_the_cluster:
  assumes "is_accepted w r reqs us"
    and "store_visits (serve_all UpdateHost w r reqs NewMemoryStore) rs"
  shows "\<forall>(g, f) \<in> set gauges. dom (g (collect (Inr cs) (\<lambda>_. Inr loc) (Some (GetAllMetrics now rs)) e)) =
     (\<lambda>(k, s). labels_of (s\<lparr>cm_HostID := ex_hostID e\<rparr>)) ` set loc \<union> labels_of ` shown_metrics now us"
proof (intro ballI, clarify)
  fix g f assume "(g, f) \<in> set gauges"
  from collect_series [OF this] have "dom (g (collect (Inr cs) (\<lambda>_. Inr loc) (Some (GetAllMetrics now rs)) e)) =
     labels_of ` set (all_metrics (ex_hostID e) loc (Some (GetAllMetrics now rs)))" .
  also have "\<dots> =
     (\<lambda>(k, s). labels_of (s\<lparr>cm_HostID := ex_hostID e\<rparr>)) ` set loc \<union> labels_of ` shown_metrics now us"
    using served_shown [OF assms] by (auto simp: all_metrics_def image_Un image_image case_prod_unfold)
  finally show "dom (g (collect (Inr cs) (\<lambda>_. Inr loc) (Some (GetAllMetrics now rs)) e)) =
     (\<lambda>(k, s). labels_of (s\<lparr>cm_HostID := ex_hostID e\<rparr>)) ` set loc \<union> labels_of ` shown_metrics now us" .
qed

theorem leader_exports_exactly_the_cluster_witness:
  "\<exists>rs. \<forall>(g, f) \<in> set gauges. dom (g (collect (Inr []) (\<lambda>_. Inr []) (Some (GetAllMetrics second rs)) (NewExporter ''leader''))) =
     {(''h1'', ''c1'', ''web'', ''nginx'')}"
proof -
  let ?r = "NewReceiver '''' ''tok''"
    and ?reqs = "[(0, ex_request ''Bearer tok'' '''' ''h1''), (1, ex_request '''' '''' ''h2'')]"
    and ?us = "[(0, ex_payload ''h1'' ''c1'')]"
    and ?rs = "replicate 2 [] @ [(''h1'', \<lparr>LastUpdate = 0, Payload = ex_payload ''h1'' ''c1''\<rparr>)] # replicate 13 []"
  have "\<nexists>p. valid_push ex_wire ?r (ex_request '''' '''' ''h2'') p"
    by (simp add: valid_push_def authorised_def ex_request_def NewReceiver_def)
  then have a: "is_accepted ex_wire ?r ?reqs ?us"
    by (intro accepted_push accepted_skip accepted_Nil ex_valid_push)
  have "store_visits (serve_all UpdateHost ex_wire ?r ?reqs NewMemoryStore) ?rs"
    unfolding serve_all_fold [OF a]
    by (simp add: store_visits_def UpdateHost_def Let_def ex_getShard ex_payload_def NewMemoryStore_def numeral_eq_Suc is_range_def)
  note e = leader_exports_exactly_the_cluster [OF a this, of "[]" "[]" second "NewExporter ''leader''"]
  have "shown_metrics second ?us = {ex_metric ''h1'' ''c1''}"
    by (auto simp: shown_metrics_def last_push_def ex_payload_def time_sub_def duration_defs)
  then have "\<forall>(g, f) \<in> set gauges. dom (g (collect (Inr []) (\<lambda>_. Inr []) (Some (GetAllMetrics second ?rs)) (NewExporter ''leader''))) =
     {(''h1'', ''c1'', ''web'', ''nginx'')}"
    using e by (simp add: labels_of_def ex_metric_def)
  then show ?thesis by blast
qed

text \<open>
  C3: from a worker's Docker daemon to the leader's Prometheus endpoint, over an unreliable network:
  when worker and leader share secret and token, the worker has a host ID, its payload encodes to at
  most 5 MiB, Docker answers the tick and one of the four attempts of the push is answered, then for
  thirty seconds, whatever other hosts send in between, every collection for which the leader's own
  Docker answers exports in each of the nine gauges a series for every metric the worker collected,
  labelled with the worker's host, and with the collected value where no other snapshot has the same
  labels.
\<close>

theorem worker_metrics_reach_prometheus:
  fixes wire :: "'r wire" and n :: "cluster node" and k :: "('r, cluster) worker" and cfg cs ms
  defines "k' \<equiv> senderTick wire n cfg k" and "payload \<equiv> buildPayload (cl_HostID (Cluster cfg)) cs ms"
  assumes "wire_ok wire"
    and "cl_SharedSecret (Cluster cfg) = rc_sharedSecret r" "cl_AuthToken (Cluster cfg) = rc_token r"
    and "d_net n = cluster_net wire r base" "wk_leaderURL k = base @ pushPath"
    and "d_list n (wk_world k) = (Inr cs, w1)" "d_stats n cs w1 = (Inr ms, w2)"
    and "cl_HostID (Cluster cfg) \<noteq> ''''"
    and "encoded wire (rc_sharedSecret r) payload (wk_rng k) d rng'" "length (w_gzip wire d) \<le> body_limit"
    and "w_marshal wire payload = Inr data" "w_unmarshal wire data = Inr payload"
    and "Answered \<in> hp_fate ` set (take 4 (cw_script w2))"
    and later: "is_accepted wire r later vs" "\<forall>(t, q) \<in> set vs. pp_HostID q \<noteq> cl_HostID (Cluster cfg)"
    and visits: "store_visits (serve_all UpdateHost wire r (cw_served (wk_world k') @ later) NewMemoryStore) rs"
    and fresh: "time_sub now (cw_clock (wk_world k')) \<le> 30 * second" and m: "(key, m) \<in> set ms"
  defines "remote \<equiv> Some (GetAllMetrics now rs)" and "s \<equiv> m\<lparr>cm_HostID := cl_HostID (Cluster cfg)\<rparr>"
  shows "\<forall>(g, f) \<in> set gauges. labels_of s \<in> dom (g (collect (Inr lcs) (\<lambda>_. Inr loc) remote e))
    \<and> (distinct (map labels_of (all_metrics (ex_hostID e) loc remote)) \<longrightarrow>
       g (collect (Inr lcs) (\<lambda>_. Inr loc) remote e) (labels_of s) = Some (f m))"
proof -
  have host: "pp_HostID payload = cl_HostID (Cluster cfg)" "s \<in> set (pp_Metrics payload)"
    using m by (force simp: payload_def buildPayload_def s_def)+
  obtain pre req where "valid_push wire r req payload"
      "cw_served (wk_world k') = cw_served w2 @ pre @ [(cw_clock (wk_world k'), req)]"
    using senderTick_cluster [of wire cfg r n base k cs w1 ms w2 d rng' data] assms by auto
  then obtain us where us: "is_accepted wire r (cw_served (wk_world k') @ later) us"
      "last_push us (cl_HostID (Cluster cfg)) = Some (cw_clock (wk_world k'), payload)"
    using last_push_served [of wire r req payload later vs "cw_served w2 @ pre"] later host(1) by auto
  have "s \<in> shown_metrics now us" using us(2) fresh host(2) by (auto simp: shown_metrics_def)
  then have s: "s \<in> set (all_metrics (ex_hostID e) loc remote)"
    using served_shown [OF us(1) visits] by (simp add: all_metrics_def remote_def)
  have "labels_of s \<in> dom (g (collect (Inr lcs) (\<lambda>_. Inr loc) remote e))" if "(g, f) \<in> set gauges" for g f
    unfolding collect_series [OF that] using s by (rule imageI)
  moreover have "g (collect (Inr lcs) (\<lambda>_. Inr loc) remote e) (labels_of s) = Some (f m)"
    if "(g, f) \<in> set gauges" "distinct (map labels_of (all_metrics (ex_hostID e) loc remote))" for g f
    using collect_values [OF that s] gauges_host [OF that(1)] by (simp add: s_def)
  ultimately show ?thesis by blast
qed

text \<open>A worker on host \<open>h1\<close> whose first attempt is lost, and the leader it pushes to.\<close>

definition ex_base :: string where "ex_base = ''http://127.0.0.1:9110''"

definition ex_cfg :: Config where
  "ex_cfg = DefaultConfig\<lparr>Cluster := (Cluster DefaultConfig)\<lparr>cl_HostID := ''h1'', cl_SharedSecret := '''', cl_AuthToken := ''tok''\<rparr>\<rparr>"

definition ex_node :: "cluster node" where
  "ex_node = \<lparr>d_net = cluster_net ex_wire (NewReceiver '''' ''tok'') ex_base, d_list = (\<lambda>w. (Inr [], w)),
     d_stats = (\<lambda>cs w. (Inr [(''c1'', ex_metric '''' ''c1'')], w)), d_mdns = (\<lambda>w. (NilEntry, w))\<rparr>"

definition ex_net :: cluster where
  "ex_net = \<lparr>cw_clock = 0, cw_served = [], cw_script =
     [\<lparr>hp_others = [], hp_delay = 0, hp_fate = Lost\<rparr>, \<lparr>hp_others = [], hp_delay = 0, hp_fate = Answered\<rparr>]\<rparr>"

definition ex_worker :: "(nat, cluster) worker" where
  "ex_worker = \<lparr>wk_leaderURL = cl_LeaderURL (Cluster ex_cfg), wk_rng = 0, wk_world = ex_net, wk_failures = 0\<rparr>"

lemma ex_retry:
  assumes "valid_push wire r req p"
  shows "retryLoop (cluster_net wire r base) (base @ pushPath) req 0 second ex_net =
     (Delivered, \<lparr>cw_clock = second, cw_served = [(second, req)], cw_script = []\<rparr>)"
proof -
  have "cw_script ex_net = [\<lparr>hp_others = [], hp_delay = 0, hp_fate = Lost\<rparr>, \<lparr>hp_others = [], hp_delay = 0, hp_fate = Answered\<rparr>]"
    by (simp add: ex_net_def)
  from attempt_cluster [OF this assms, of base]
  have "attempt (cluster_net wire r base) (base @ pushPath) req ex_net = (False, ex_net\<lparr>cw_script := tl (cw_script ex_net)\<rparr>)"
    by (simp add: after_hop_def arrive_def ex_net_def)
  from retryLoop_round [OF _ this, of 0 second]
  have "retryLoop (cluster_net wire r base) (base @ pushPath) req 0 second ex_net =
      retryLoop (cluster_net wire r base) (base @ pushPath) req 1 (second * 2) (ex_net\<lparr>cw_clock := second, cw_script := tl (cw_script ex_net)\<rparr>)"
    by (simp add: maxRetries_def cluster_net_def ex_net_def)
  also have "\<dots> = (Delivered, \<lparr>cw_clock = second, cw_served = [(second, req)], cw_script = []\<rparr>)"
  proof -
    let ?w = "ex_net\<lparr>cw_clock := second, cw_script := tl (cw_script ex_net)\<rparr>"
    have "cw_script ?w = [\<lparr>hp_others = [], hp_delay = 0, hp_fate = Answered\<rparr>]" by (simp add: ex_net_def)
    from retryLoop_round [OF _ attempt_cluster [OF this assms, of base], of 1 "second * 2"] show ?thesis
      by (simp add: maxRetries_def after_hop_def arrive_def handled_def ex_net_def)
  qed
  finally show ?thesis .
qed

theorem worker_metrics_reach_prometheus_witness:
  "\<exists>rs. \<forall>(g, f) \<in> set gauges. (''h1'', ''c1'', ''web'', ''nginx'') \<in>
     dom (g (collect (Inr []) (\<lambda>_. Inr []) (Some (GetAllMetrics (2 * second) rs)) (NewExporter ''leader'')))"
proof -
  let ?r = "NewReceiver '''' ''tok''" and ?k = "senderTick ex_wire ex_node ex_cfg ex_worker"
    and ?req = "pushRequest False ''tok'' ''zh1''"
    and ?rs = "replicate 2 [] @ [(''h1'', \<lparr>LastUpdate = second, Payload = ex_payload ''h1'' ''c1''\<rparr>)] # replicate 13 []"
  have p: "buildPayload ''h1'' [] [(''c1'', ex_metric '''' ''c1'')] = ex_payload ''h1'' ''c1''"
    by (simp add: buildPayload_def ex_payload_def ex_metric_def)
  have r: "rc_sharedSecret ?r = ''''" "rc_token ?r = ''tok''" by (simp_all add: NewReceiver_def)
  have cfg: "cl_SharedSecret (Cluster ex_cfg) = ''''" "cl_AuthToken (Cluster ex_cfg) = ''tok''" "cl_HostID (Cluster ex_cfg) = ''h1''"
    by (simp_all add: ex_cfg_def)
  have n: "d_net ex_node = cluster_net ex_wire ?r ex_base" "wk_leaderURL ex_worker = ex_base @ pushPath" "wk_world ex_worker = ex_net"
    "d_list ex_node ex_net = (Inr [], ex_net)" "d_stats ex_node [] ex_net = (Inr [(''c1'', ex_metric '''' ''c1'')], ex_net)"
    by (simp_all add: ex_node_def ex_worker_def ex_cfg_def DefaultConfig_def pushPath_def ex_base_def)
  have e: "encoded ex_wire '''' (ex_payload ''h1'' ''c1'') (wk_rng ex_worker) ''h1'' 0" "length (w_gzip ex_wire ''h1'') \<le> body_limit"
    "w_marshal ex_wire (ex_payload ''h1'' ''c1'') = Inr ''h1''" "w_unmarshal ex_wire ''h1'' = Inr (ex_payload ''h1'' ''c1'')"
    "w_gzip ex_wire ''h1'' = ''zh1''"
    by (simp_all add: encoded_def ex_wire_def ex_payload_def body_limit_def ex_worker_def)
  have v: "valid_push ex_wire ?r ?req (ex_payload ''h1'' ''c1'')"
    using pushRequest_valid [OF ex_wire_ok e(2,4), of ?r "''tok''"] by (simp add: r e(5)) (simp add: ex_payload_def)
  have served: "wk_world ?k = \<lparr>cw_clock = second, cw_served = [(second, ?req)], cw_script = []\<rparr>"
    using sendPushPayload_encoded [OF e(1), of "d_net ex_node"] ex_retry [OF v, of ex_base]
    by (simp add: senderTick_def n cfg p Let_def e(5) pushPath_def)
  have "store_visits (serve_all UpdateHost ex_wire ?r (cw_served (wk_world ?k) @ []) NewMemoryStore) ?rs"
    by (simp add: served serve_valid [OF v] store_visits_def UpdateHost_def Let_def ex_getShard ex_payload_def NewMemoryStore_def numeral_eq_Suc is_range_def)
  moreover have "time_sub (2 * second) (cw_clock (wk_world ?k)) \<le> 30 * second" by (simp add: served time_sub_def duration_defs)
  moreover have "Answered \<in> hp_fate ` set (take 4 (cw_script ex_net))" by (simp add: ex_net_def)
  ultimately have "\<forall>(g, f) \<in> set gauges. labels_of ((ex_metric '''' ''c1'')\<lparr>cm_HostID := ''h1''\<rparr>) \<in>
      dom (g (collect (Inr []) (\<lambda>_. Inr []) (Some (GetAllMetrics (2 * second) ?rs)) (NewExporter ''leader'')))"
    using worker_metrics_reach_prometheus [of ex_wire ex_cfg ?r ex_node ex_base ex_worker "[]" ex_net "[(''c1'', ex_metric '''' ''c1'')]"
        ex_net "''h1''" 0 "''h1''" "[]" "[]" ?rs "2 * second" "''c1''" "ex_metric '''' ''c1''" "[]" "[]" "NewExporter ''leader''"]
      ex_wire_ok r cfg n e p by (auto simp: accepted_Nil)
  moreover have "labels_of ((ex_metric '''' ''c1'')\<lparr>cm_HostID := ''h1''\<rparr>) = (''h1'', ''c1'', ''web'', ''nginx'')"
    by (simp add: labels_of_def ex_metric_def)
  ultimately show ?thesis by auto
qed

end
